(* ===== verification/Tenancy.thy ===== *)
theory Tenancy
  imports Prelude
begin

text \<open>
  The interface of a service with several tenants: a step function, an invariant of its state, who a
  request acts for, and what a tenant sees. The law of isolation is that a step someone else takes
  leaves a tenant's view as it is; the lemmas lift it, and the invariant, to every sequence of steps.
\<close>

text \<open>A run none of whose requests acts for the tenant\<close>

fun absent :: "('a \<Rightarrow> 's \<Rightarrow> 't option) \<Rightarrow> ('a \<Rightarrow> 's \<Rightarrow> 's) \<Rightarrow> 't \<Rightarrow> 'a list \<Rightarrow> 's \<Rightarrow> bool" where
  "absent acts step t [] s = True"
| "absent acts step t (a # as) s = (acts a s \<noteq> Some t \<and> absent acts step t as (step a s))"

locale tenancy =
  fixes step :: "'a \<Rightarrow> 's \<Rightarrow> 's"
    and inv :: "'s \<Rightarrow> bool"
    and present :: "'t \<Rightarrow> 's \<Rightarrow> bool"
    and acts :: "'a \<Rightarrow> 's \<Rightarrow> 't option"
    and view :: "'t \<Rightarrow> 's \<Rightarrow> 'v"
  assumes step_inv: "inv s \<Longrightarrow> inv (step a s)"
    and step_present: "inv s \<Longrightarrow> present t s \<Longrightarrow> present t (step a s)"
    and step_respects: "inv s \<Longrightarrow> present t s \<Longrightarrow> acts a s \<noteq> Some t \<Longrightarrow> view t (step a s) = view t s"
begin

lemma run_inv: "inv s \<Longrightarrow> inv (fold step as s)"
  by (induction as arbitrary: s) (simp_all add: step_inv)

lemma run_present: "inv s \<Longrightarrow> present t s \<Longrightarrow> present t (fold step as s)"
  by (induction as arbitrary: s) (simp_all add: step_inv step_present)

lemma run_isolated:
  "inv s \<Longrightarrow> present t s \<Longrightarrow> absent acts step t as s \<Longrightarrow> view t (fold step as s) = view t s"
proof (induction as arbitrary: s)
  case (Cons a as)
  then show ?case
    using step_inv step_present step_respects by fastforce
qed simp

end

end
