(* ===== verification/Errors.thy ===== *)
theory Errors
  imports Prelude
begin

text \<open>
  The exceptions of the gateway and their classification: the class hierarchies of
  \<open>app/providers/exceptions.py\<close>, \<open>app/routing/exceptions.py\<close>, \<open>app/budget/exceptions.py\<close>,
  \<open>app/auth/exceptions.py\<close>, \<open>app/guardrails/exceptions.py\<close>, \<open>app/model_registry/exceptions.py\<close>,
  \<open>app/semantic_cache/exceptions.py\<close> and \<open>app/reliability/errors.py\<close>,
  class attributes looked up along the method resolution order, the transient / circuit-breaker
  classification of \<open>reliability/errors.py\<close>, and the HTTP mapping of \<open>app/exceptions.py\<close>.
  An exception raised by the code is a value of type \<open>exn\<close>; a call that may raise returns
  \<open>exn + 'a\<close> with \<open>Inl\<close> for the raise.
\<close>

section \<open>Classes\<close>

datatype py_class =
    ExceptionC | ValueErrorC | TypeErrorC | AttributeErrorC | ConnectionErrorC | TimeoutErrorC
  | HttpxTimeoutExceptionC | HttpxNetworkErrorC | HttpxConnectErrorC
  | HTTPExceptionC | RequestValidationErrorC | IntegrityErrorC | EmbeddingErrorC
  | ModelNotFoundErrorC | ModelAlreadyExistsErrorC
  | ProviderExceptionC | InvalidProviderErrorC | ProviderDisabledErrorC | InvalidModelErrorC
  | ProviderTimeoutErrorC | ProviderRateLimitErrorC | ProviderUnavailableErrorC
  | ProviderAuthErrorC | ProviderErrorC
  | TotalDeadlineExceededErrorC | CircuitOpenErrorC | FailoverExhaustedErrorC
  | RoutingExceptionC | NoRoutableProviderErrorC | NoCapableProviderErrorC
  | InvalidRoutingModeErrorC | InvalidManualRoutingErrorC
  | GatewayControlExceptionC | RateLimitExceededC | BudgetExceededC | BudgetConfigurationErrorC
  | AuthenticationErrorC | AuthorizationErrorC | GuardrailBlockedC

text \<open>The base class each \<open>class\<close> statement names.\<close>

fun base_class :: "py_class \<Rightarrow> py_class option" where
  "base_class ExceptionC = None"
| "base_class HttpxConnectErrorC = Some HttpxNetworkErrorC"
| "base_class InvalidProviderErrorC = Some ProviderExceptionC"
| "base_class ProviderDisabledErrorC = Some ProviderExceptionC"
| "base_class InvalidModelErrorC = Some ProviderExceptionC"
| "base_class ProviderTimeoutErrorC = Some ProviderExceptionC"
| "base_class ProviderRateLimitErrorC = Some ProviderExceptionC"
| "base_class ProviderUnavailableErrorC = Some ProviderExceptionC"
| "base_class ProviderAuthErrorC = Some ProviderExceptionC"
| "base_class ProviderErrorC = Some ProviderExceptionC"
| "base_class TotalDeadlineExceededErrorC = Some ProviderTimeoutErrorC"
| "base_class CircuitOpenErrorC = Some ProviderUnavailableErrorC"
| "base_class FailoverExhaustedErrorC = Some ProviderUnavailableErrorC"
| "base_class RoutingExceptionC = Some ProviderExceptionC"
| "base_class NoRoutableProviderErrorC = Some RoutingExceptionC"
| "base_class NoCapableProviderErrorC = Some RoutingExceptionC"
| "base_class InvalidRoutingModeErrorC = Some RoutingExceptionC"
| "base_class InvalidManualRoutingErrorC = Some RoutingExceptionC"
| "base_class RateLimitExceededC = Some GatewayControlExceptionC"
| "base_class BudgetExceededC = Some GatewayControlExceptionC"
| "base_class BudgetConfigurationErrorC = Some GatewayControlExceptionC"
| "base_class _ = Some ExceptionC"

fun class_depth :: "py_class \<Rightarrow> nat" where
  "class_depth ExceptionC = 0"
| "class_depth HttpxConnectErrorC = 2"
| "class_depth InvalidProviderErrorC = 2"
| "class_depth ProviderDisabledErrorC = 2"
| "class_depth InvalidModelErrorC = 2"
| "class_depth ProviderTimeoutErrorC = 2"
| "class_depth ProviderRateLimitErrorC = 2"
| "class_depth ProviderUnavailableErrorC = 2"
| "class_depth ProviderAuthErrorC = 2"
| "class_depth ProviderErrorC = 2"
| "class_depth RoutingExceptionC = 2"
| "class_depth RateLimitExceededC = 2"
| "class_depth BudgetExceededC = 2"
| "class_depth BudgetConfigurationErrorC = 2"
| "class_depth TotalDeadlineExceededErrorC = 3"
| "class_depth CircuitOpenErrorC = 3"
| "class_depth FailoverExhaustedErrorC = 3"
| "class_depth NoRoutableProviderErrorC = 3"
| "class_depth NoCapableProviderErrorC = 3"
| "class_depth InvalidRoutingModeErrorC = 3"
| "class_depth InvalidManualRoutingErrorC = 3"
| "class_depth _ = 1"

lemma base_class_depth: "base_class c = Some d \<Longrightarrow> class_depth d < class_depth c"
  by (cases c) auto

text \<open>\<open>__mro__\<close>: all classes here have a single base.\<close>

function mro :: "py_class \<Rightarrow> py_class list" where
  "mro c = c # (case base_class c of None \<Rightarrow> [] | Some d \<Rightarrow> mro d)"
  by pat_completeness auto
termination
  by (relation "measure class_depth") (auto intro: base_class_depth)

declare mro.simps [simp del]

lemma mro_simps [simp]:
  "mro ExceptionC = [ExceptionC]"
  "base_class c = Some d \<Longrightarrow> mro c = c # mro d"
  by (simp_all add: mro.simps [of ExceptionC] mro.simps [of c])

definition subclass_of :: "py_class \<Rightarrow> py_class \<Rightarrow> bool" where
  "subclass_of c d = List.member (mro c) d"

section \<open>Exception values\<close>

datatype exn =
    Exn py_class string                      \<comment> \<open>class and message\<close>
  | RateLimitExceeded string int string      \<comment> \<open>message, retry-after seconds, scope\<close>
  | BudgetExceeded string "string option" real \<comment> \<open>message, team, remaining\<close>
  | GuardrailBlocked string "string list" "string option" string
      \<comment> \<open>guardrail, all triggered, reason code, message\<close>
  | HTTPException int string                 \<comment> \<open>status, detail\<close>
  | RequestValidationError "(string list \<times> string) list" \<comment> \<open>location and text of each error\<close>

fun class_of :: "exn \<Rightarrow> py_class" where
  "class_of (Exn c m) = c"
| "class_of (RateLimitExceeded m r s) = RateLimitExceededC"
| "class_of (BudgetExceeded m t r) = BudgetExceededC"
| "class_of (GuardrailBlocked g gs r m) = GuardrailBlockedC"
| "class_of (HTTPException s d) = HTTPExceptionC"
| "class_of (RequestValidationError es) = RequestValidationErrorC"

definition isinstance :: "exn \<Rightarrow> py_class list \<Rightarrow> bool" where
  "isinstance e cs = list_ex (subclass_of (class_of e)) cs"

text \<open>Class attributes \<open>status_code\<close> and \<open>code\<close>, as each class body sets them.\<close>

fun own_status :: "py_class \<Rightarrow> int option" where
  "own_status ProviderExceptionC = Some 502"
| "own_status InvalidProviderErrorC = Some 404"
| "own_status ProviderDisabledErrorC = Some 503"
| "own_status InvalidModelErrorC = Some 400"
| "own_status ProviderTimeoutErrorC = Some 504"
| "own_status ProviderRateLimitErrorC = Some 429"
| "own_status ProviderUnavailableErrorC = Some 503"
| "own_status ProviderAuthErrorC = Some 502"
| "own_status ProviderErrorC = Some 502"
| "own_status TotalDeadlineExceededErrorC = Some 504"
| "own_status CircuitOpenErrorC = Some 503"
| "own_status FailoverExhaustedErrorC = Some 503"
| "own_status RoutingExceptionC = Some 400"
| "own_status NoRoutableProviderErrorC = Some 503"
| "own_status NoCapableProviderErrorC = Some 400"
| "own_status InvalidRoutingModeErrorC = Some 400"
| "own_status InvalidManualRoutingErrorC = Some 400"
| "own_status GatewayControlExceptionC = Some 400"
| "own_status RateLimitExceededC = Some 429"
| "own_status BudgetExceededC = Some 402"
| "own_status BudgetConfigurationErrorC = Some 500"
| "own_status AuthenticationErrorC = Some 401"
| "own_status AuthorizationErrorC = Some 403"
| "own_status GuardrailBlockedC = Some 400"
| "own_status _ = None"

fun own_code :: "py_class \<Rightarrow> string option" where
  "own_code ProviderExceptionC = Some ''PROVIDER_ERROR''"
| "own_code InvalidProviderErrorC = Some ''INVALID_PROVIDER''"
| "own_code ProviderDisabledErrorC = Some ''PROVIDER_DISABLED''"
| "own_code InvalidModelErrorC = Some ''INVALID_MODEL''"
| "own_code ProviderTimeoutErrorC = Some ''PROVIDER_TIMEOUT''"
| "own_code ProviderRateLimitErrorC = Some ''PROVIDER_RATE_LIMITED''"
| "own_code ProviderUnavailableErrorC = Some ''PROVIDER_UNAVAILABLE''"
| "own_code ProviderAuthErrorC = Some ''PROVIDER_AUTHENTICATION_FAILED''"
| "own_code ProviderErrorC = Some ''PROVIDER_ERROR''"
| "own_code TotalDeadlineExceededErrorC = Some ''PROVIDER_TIMEOUT''"
| "own_code CircuitOpenErrorC = Some ''PROVIDER_UNAVAILABLE''"
| "own_code FailoverExhaustedErrorC = Some ''PROVIDER_UNAVAILABLE''"
| "own_code RoutingExceptionC = Some ''ROUTING_ERROR''"
| "own_code NoRoutableProviderErrorC = Some ''NO_ROUTABLE_PROVIDER''"
| "own_code NoCapableProviderErrorC = Some ''NO_CAPABLE_PROVIDER''"
| "own_code InvalidRoutingModeErrorC = Some ''INVALID_ROUTING_MODE''"
| "own_code InvalidManualRoutingErrorC = Some ''INVALID_MANUAL_ROUTING''"
| "own_code GatewayControlExceptionC = Some ''CONTROL_ERROR''"
| "own_code RateLimitExceededC = Some ''RATE_LIMIT_EXCEEDED''"
| "own_code BudgetExceededC = Some ''BUDGET_EXCEEDED''"
| "own_code BudgetConfigurationErrorC = Some ''BUDGET_CONFIGURATION_ERROR''"
| "own_code AuthenticationErrorC = Some ''AUTHENTICATION_FAILED''"
| "own_code AuthorizationErrorC = Some ''FORBIDDEN''"
| "own_code GuardrailBlockedC = Some ''INVALID_REQUEST''"
| "own_code _ = None"

text \<open>Attribute lookup: the first class along the mro that sets it; \<open>None\<close> is AttributeError.\<close>

fun lookup_mro :: "(py_class \<Rightarrow> 'a option) \<Rightarrow> py_class list \<Rightarrow> 'a option" where
  "lookup_mro own [] = None"
| "lookup_mro own (c # cs) = (case own c of Some v \<Rightarrow> Some v | None \<Rightarrow> lookup_mro own cs)"

definition status_code :: "exn \<Rightarrow> int option" where
  "status_code e = (case e of HTTPException s d \<Rightarrow> Some s
     | _ \<Rightarrow> lookup_mro own_status (mro (class_of e)))"

definition error_code :: "exn \<Rightarrow> string option" where
  "error_code e = lookup_mro own_code (mro (class_of e))"

section \<open>Classification (reliability/errors.py)\<close>

definition status_in :: "exn \<Rightarrow> int list \<Rightarrow> bool" where
  "status_in e ss = (case status_code e of None \<Rightarrow> False | Some s \<Rightarrow> List.member ss s)"

definition is_transient_error :: "exn \<Rightarrow> bool" where
  "is_transient_error e =
    (if isinstance e [InvalidModelErrorC, InvalidProviderErrorC, ProviderDisabledErrorC, ProviderAuthErrorC]
     then False
     else if isinstance e [ValueErrorC, TypeErrorC] then False
     else if isinstance e [ProviderTimeoutErrorC, ProviderUnavailableErrorC, ProviderRateLimitErrorC]
     then True
     else if isinstance e [HttpxTimeoutExceptionC, HttpxConnectErrorC, HttpxNetworkErrorC,
       ConnectionErrorC, TimeoutErrorC] then True
     else if isinstance e [ProviderExceptionC] then status_in e [429, 500, 502, 503, 504]
     else False)"

definition is_circuit_breaker_failure :: "exn \<Rightarrow> bool" where
  "is_circuit_breaker_failure e =
    (if isinstance e [InvalidModelErrorC, InvalidProviderErrorC, ProviderDisabledErrorC, ProviderAuthErrorC]
     then False
     else if isinstance e [ValueErrorC, TypeErrorC] then False
     else if isinstance e [ProviderTimeoutErrorC, ProviderUnavailableErrorC] then True
     else if isinstance e [HttpxTimeoutExceptionC, HttpxConnectErrorC, HttpxNetworkErrorC,
       ConnectionErrorC, TimeoutErrorC] then True
     else if isinstance e [ProviderExceptionC] then status_in e [500, 502, 503, 504]
     else False)"

lemmas classify_defs = is_transient_error_def is_circuit_breaker_failure_def isinstance_def
  subclass_of_def status_in_def status_code_def

section \<open>Exception handlers (exceptions.py)\<close>

record http_response =
  r_status :: int
  r_code :: string
  r_message :: string
  r_request_id :: string
  r_details :: "(string \<times> string option) list option"
  r_retry_after :: "string option"

definition error_response ::
  "int \<Rightarrow> string \<Rightarrow> string \<Rightarrow> string \<Rightarrow> (string \<times> string option) list option \<Rightarrow> http_response" where
  "error_response st cd msg rid det =
     \<lparr>r_status = st, r_code = cd, r_message = msg, r_request_id = rid,
      r_details = det, r_retry_after = None\<rparr>"

definition http_code_name :: "int \<Rightarrow> string" where
  "http_code_name s = (case map_of
     [(400, ''BAD_REQUEST''), (401, ''UNAUTHORIZED''), (403, ''FORBIDDEN''), (404, ''NOT_FOUND''),
      (405, ''METHOD_NOT_ALLOWED''), (409, ''CONFLICT''), (429, ''TOO_MANY_REQUESTS''),
      (500, ''INTERNAL_SERVER_ERROR''), (502, ''BAD_GATEWAY''), (503, ''SERVICE_UNAVAILABLE'')] s of
     Some n \<Rightarrow> n | None \<Rightarrow> ''HTTP_'' @ str_int s)"

text \<open>The classes a handler is registered for, and the message attribute each handler reads.\<close>

definition handled_classes :: "py_class list" where
  "handled_classes = [RequestValidationErrorC, HTTPExceptionC, ProviderExceptionC,
     AuthenticationErrorC, AuthorizationErrorC, RateLimitExceededC, BudgetExceededC,
     GuardrailBlockedC, ExceptionC]"

definition handler_for :: "exn \<Rightarrow> py_class option" where
  "handler_for e = List.find (List.member handled_classes) (mro (class_of e))"

fun message_of :: "exn \<Rightarrow> string" where
  "message_of (Exn c m) = m"
| "message_of (RateLimitExceeded m r s) = m"
| "message_of (BudgetExceeded m t r) = m"
| "message_of (GuardrailBlocked g gs r m) = m"
| "message_of (HTTPException s d) = d"
| "message_of (RequestValidationError es) = []"

definition readable_errors :: "(string list \<times> string) list \<Rightarrow> string" where
  "readable_errors es = join ''; '' (map (\<lambda>(loc, msg). join '' -> '' loc @ '': '' @ msg) es)"

definition internal_error :: "string \<Rightarrow> http_response" where
  "internal_error rid =
     error_response 500 ''INTERNAL_SERVER_ERROR'' ''An unexpected error occurred.'' rid None"

text \<open>
  The response for an exception that leaves an endpoint. The framework picks the handler of the
  first class along the mro that has one.
\<close>

definition handle_exception :: "string \<Rightarrow> exn \<Rightarrow> http_response" where
  "handle_exception rid e = (case handler_for e of
     Some RequestValidationErrorC \<Rightarrow> (case e of
         RequestValidationError es \<Rightarrow> error_response 422 ''VALIDATION_ERROR''
           (if readable_errors es = [] then ''Request validation failed.'' else readable_errors es) rid None
       | _ \<Rightarrow> internal_error rid)
   | Some HTTPExceptionC \<Rightarrow> (case e of
         HTTPException s d \<Rightarrow> error_response s (http_code_name s) d rid None
       | _ \<Rightarrow> internal_error rid)
   | Some RateLimitExceededC \<Rightarrow> (case e of
         RateLimitExceeded m r sc \<Rightarrow>
           (error_response 429 ''RATE_LIMIT_EXCEEDED'' m rid None)\<lparr>r_retry_after := Some (str_int r)\<rparr>
       | _ \<Rightarrow> internal_error rid)
   | Some BudgetExceededC \<Rightarrow> error_response 402 ''BUDGET_EXCEEDED'' (message_of e) rid None
   | Some GuardrailBlockedC \<Rightarrow> (case e of
         GuardrailBlocked g gs rc m \<Rightarrow> error_response 400 ''INVALID_REQUEST'' m rid
           (Some [(''guardrail'', Some g), (''reason_code'', rc)])
       | _ \<Rightarrow> internal_error rid)
   | Some ExceptionC \<Rightarrow> internal_error rid
   | Some c \<Rightarrow> (case (status_code e, error_code e) of
         (Some s, Some cd) \<Rightarrow> error_response s cd (message_of e) rid None
       | _ \<Rightarrow> internal_error rid)
   | None \<Rightarrow> internal_error rid)"

section \<open>Facts\<close>

text \<open>
  Every class a datatype constructor carries of its own is fixed by the constructor; \<open>Exn\<close> is
  used for the remaining classes only.
\<close>

definition plain_class :: "py_class \<Rightarrow> bool" where
  "plain_class c = (\<not> List.member [RateLimitExceededC, BudgetExceededC, GuardrailBlockedC,
     HTTPExceptionC, RequestValidationErrorC] c)"

fun wf_exn :: "exn \<Rightarrow> bool" where
  "wf_exn (Exn c m) = plain_class c"
| "wf_exn _ = True"

lemma status_code_class: "class_of e \<noteq> HTTPExceptionC \<Longrightarrow>
    status_code e = lookup_mro own_status (mro (class_of e))"
  by (cases e) (simp_all add: status_code_def)

lemma breaker_failure_is_transient: "is_circuit_breaker_failure e \<Longrightarrow> is_transient_error e"
  by (auto simp: is_circuit_breaker_failure_def is_transient_error_def status_in_def isinstance_def
      split: if_splits option.splits)

lemma transient_not_value_error: "is_transient_error e \<Longrightarrow> \<not> isinstance e [ValueErrorC, TypeErrorC]"
  by (auto simp: is_transient_error_def split: if_splits)

text \<open>
  Retry and circuit-breaker classification agree except for upstream rate limiting: an
  exception is retried exactly when it counts toward the circuit breaker or is a
  \<open>ProviderRateLimitError\<close> (HTTP 429), and no exception is both.
\<close>

theorem transient_iff_breaker_or_rate_limit:
  "(is_transient_error e \<longleftrightarrow> is_circuit_breaker_failure e \<or> isinstance e [ProviderRateLimitErrorC])
   \<and> \<not> (is_circuit_breaker_failure e \<and> isinstance e [ProviderRateLimitErrorC])"
proof (cases "class_of e = HTTPExceptionC")
  case True
  then show ?thesis
    by (simp add: classify_defs)
next
  case False
  then show ?thesis
    by (cases "class_of e")
      (simp_all add: is_transient_error_def is_circuit_breaker_failure_def isinstance_def
        subclass_of_def status_in_def status_code_class)
qed


definition gateway_classes :: "py_class list" where
  "gateway_classes = [ProviderExceptionC, AuthenticationErrorC, AuthorizationErrorC,
     RateLimitExceededC, BudgetExceededC, GuardrailBlockedC]"

lemmas handler_defs = handle_exception_def handler_for_def handled_classes_def gateway_classes_def
  isinstance_def subclass_of_def status_code_def error_code_def error_response_def plain_class_def

lemma handler_agrees_with_class_aux:
  assumes "wf_exn e" and "isinstance e gateway_classes"
  shows "Some (r_status (handle_exception rid e)) = status_code e \<and>
    Some (r_code (handle_exception rid e)) = error_code e \<and>
    r_message (handle_exception rid e) = message_of e"
proof (cases e)
  case (Exn c m)
  with assms show ?thesis
    by (cases c) (simp_all add: handler_defs)
qed (use assms in \<open>simp_all add: handler_defs\<close>)

text \<open>
  Every exception of the gateway's own hierarchies that has a handler is answered with exactly
  the status, code and message of its class and instance; the constants the handlers hard-code
  (402, 429, 400) agree with the class attributes.
\<close>

theorem handler_agrees_with_class:
  assumes "wf_exn e" and "isinstance e gateway_classes"
  shows "Some (r_status (handle_exception rid e)) = status_code e \<and>
    Some (r_code (handle_exception rid e)) = error_code e \<and>
    r_message (handle_exception rid e) = message_of e"
  using assms by (rule handler_agrees_with_class_aux)

theorem handler_agrees_with_class_witness:
  "Some (r_status (handle_exception ''rid'' (Exn CircuitOpenErrorC ''open''))) = Some 503"
  using handler_agrees_with_class [of "Exn CircuitOpenErrorC ''open''" "''rid''"]
  by (simp add: handler_defs)

text \<open>
  No internal detail leaks: every other exception, \<open>BudgetConfigurationError\<close> included, is
  answered with the one constant 500 body, whatever its message says.
\<close>

theorem other_exceptions_opaque:
  assumes "wf_exn e" and "\<not> isinstance e (gateway_classes @ [HTTPExceptionC, RequestValidationErrorC])"
  shows "handle_exception rid e = internal_error rid"
proof (cases e)
  case (Exn c m)
  with assms show ?thesis
    by (cases c) (simp_all add: handler_defs internal_error_def)
qed (use assms in \<open>simp_all add: handler_defs\<close>)

theorem other_exceptions_opaque_witness:
  "handle_exception ''rid'' (Exn BudgetConfigurationErrorC ''secret'') = internal_error ''rid''"
  using other_exceptions_opaque [of "Exn BudgetConfigurationErrorC ''secret''" "''rid''"]
  by (simp add: handler_defs)

end
