(* ===== verification/ModelRegistry.thy ===== *)
theory ModelRegistry
  imports Errors
begin

text \<open>
  \<open>app/model_registry\<close>: the table of models, its validators (\<open>schemas.py\<close>), and the CRUD service
  (\<open>service.py\<close>). The table is the list of its rows; a fresh primary key is an argument. Row
  timestamps are left out: nothing reads them but the response. A flush can meet rows another
  transaction committed meanwhile, so \<open>create_model\<close> takes the table as read and as flushed to.
\<close>

record registry_entry =
  e_id :: string
  e_provider :: string
  e_model_name :: string
  e_display_name :: "string option"
  e_input_cost_per_1k :: real
  e_output_cost_per_1k :: real
  e_capabilities :: "string list option"
  e_context_window :: int
  e_baseline_latency_ms :: real
  e_enabled :: bool

definition e_cost_per_1k_tokens :: "registry_entry \<Rightarrow> real" where
  "e_cost_per_1k_tokens e = (e_input_cost_per_1k e + e_output_cost_per_1k e) / 2"

section \<open>Validation of a create body\<close>

record registry_create =
  d_provider :: string
  d_model_name :: string
  d_display_name :: "string option"
  d_input_cost_per_1k :: real
  d_output_cost_per_1k :: real
  d_capabilities :: "string list"
  d_context_window :: int
  d_baseline_latency_ms :: real
  d_enabled :: bool

definition known_capabilities :: "string list" where
  "known_capabilities = [''text'', ''vision'', ''json'', ''code'', ''tools'', ''function_calling'',
     ''complex_reasoning'']"

definition known_providers :: "string list" where
  "known_providers = [''gemini'', ''groq'', ''ollama'', ''openai'']"

definition validate_provider :: "string \<Rightarrow> string option" where
  "validate_provider v = (let normalized = lower (strip v) in
     if List.member known_providers normalized then Some normalized else None)"

definition validate_model_name :: "string \<Rightarrow> string option" where
  "validate_model_name v = (let stripped = strip v in if stripped = [] then None else Some stripped)"

text \<open>De-duplication that keeps the first occurrence of each capability.\<close>

fun dedup :: "'a list \<Rightarrow> 'a list \<Rightarrow> 'a list" where
  "dedup seen [] = []"
| "dedup seen (c # cs) = (if List.member seen c then dedup seen cs else c # dedup (c # seen) cs)"

definition validate_capabilities :: "string list \<Rightarrow> string list option" where
  "validate_capabilities v =
     (if v = [] then None
      else if \<not> list_all (List.member known_capabilities) v then None
      else Some (dedup [] v))"

definition length_between :: "nat \<Rightarrow> nat \<Rightarrow> string \<Rightarrow> bool" where
  "length_between lo hi s = (lo \<le> length s \<and> length s \<le> hi)"

definition validate_create :: "registry_create \<Rightarrow> exn + registry_create" where
  "validate_create d =
     (if length_between 1 100 (d_provider d) \<and> length_between 1 255 (d_model_name d) \<and>
         (case d_display_name d of None \<Rightarrow> True | Some n \<Rightarrow> length n \<le> 255) \<and>
         0 \<le> d_input_cost_per_1k d \<and> 0 \<le> d_output_cost_per_1k d \<and>
         0 < d_context_window d \<and> 0 < d_baseline_latency_ms d
      then (case (validate_provider (d_provider d), validate_model_name (d_model_name d),
                  validate_capabilities (d_capabilities d)) of
          (Some p, Some m, Some cs) \<Rightarrow>
             Inr (d\<lparr>d_provider := p, d_model_name := m, d_capabilities := cs\<rparr>)
        | _ \<Rightarrow> Inl (RequestValidationError [([''body''], ''value_error'')]))
      else Inl (RequestValidationError [([''body''], ''constraint'')]))"

section \<open>The service\<close>

type_synonym registry_table = "registry_entry list"

definition get_by_provider_model :: "string \<Rightarrow> string \<Rightarrow> registry_table \<Rightarrow> registry_entry option" where
  "get_by_provider_model p m rows = List.find (\<lambda>e. e_provider e = p \<and> e_model_name e = m) rows"

definition entry_of :: "string \<Rightarrow> registry_create \<Rightarrow> registry_entry" where
  "entry_of i d = \<lparr>e_id = i, e_provider = d_provider d, e_model_name = d_model_name d,
     e_display_name = d_display_name d, e_input_cost_per_1k = d_input_cost_per_1k d,
     e_output_cost_per_1k = d_output_cost_per_1k d, e_capabilities = Some (d_capabilities d),
     e_context_window = d_context_window d, e_baseline_latency_ms = d_baseline_latency_ms d,
     e_enabled = d_enabled d\<rparr>"

definition already_exists :: "string \<Rightarrow> string \<Rightarrow> exn" where
  "already_exists p m = Exn ModelAlreadyExistsErrorC
     (''A registry entry already exists for provider='' @ repr p @ '' model='' @ repr m @
      ''. Use PATCH to update it.'')"

definition not_found :: "string \<Rightarrow> exn" where
  "not_found i = Exn ModelNotFoundErrorC (''Model registry entry '' @ repr i @ '' not found.'')"

definition create_model ::
  "string \<Rightarrow> registry_create \<Rightarrow> registry_table \<Rightarrow> registry_table \<Rightarrow> (exn + registry_entry) \<times> registry_table" where
  "create_model new_id d rows flushed =
     (case get_by_provider_model (d_provider d) (d_model_name d) rows of
        Some e \<Rightarrow> (Inl (already_exists (d_provider d) (d_model_name d)), flushed)
      | None \<Rightarrow>
         (let entry = entry_of new_id d in
          \<comment> \<open>the primary key and the UNIQUE constraint on (provider, model) at flush\<close>
          if get_by_provider_model (d_provider d) (d_model_name d) flushed \<noteq> None \<or>
             new_id \<in> e_id ` set flushed
          then (Inl (already_exists (d_provider d) (d_model_name d)), flushed)
          else (Inr entry, flushed @ [entry])))"

definition list_models :: "string option \<Rightarrow> bool \<Rightarrow> registry_table \<Rightarrow> registry_entry list" where
  "list_models provider enabled_only rows =
     (let rows = (if enabled_only then filter e_enabled rows else rows);
          rows = (case provider of None \<Rightarrow> rows
                  | Some p \<Rightarrow> if p = [] then rows else filter (\<lambda>e. e_provider e = lower p) rows)
      in sort_key (\<lambda>e. (e_provider e, e_model_name e)) rows)"

definition get_model :: "string \<Rightarrow> registry_table \<Rightarrow> exn + registry_entry" where
  "get_model i rows = (case List.find (\<lambda>e. e_id e = i) rows of
     Some e \<Rightarrow> Inr e | None \<Rightarrow> Inl (not_found i))"

definition get_all_for_catalog :: "registry_table \<Rightarrow> registry_entry list" where
  "get_all_for_catalog rows = list_models None True rows"

text \<open>
  A PATCH body keeps apart a field that was not sent (\<open>None\<close>), one sent as null (\<open>Some None\<close>) and
  one with a value. Flushing null into a NOT NULL column is an \<open>IntegrityError\<close>; \<open>display_name\<close> is
  nullable, and \<open>capabilities\<close> is a JSONB column, which stores a Python \<open>None\<close> as the JSON value
  null: that row's \<open>e_capabilities\<close> is \<open>None\<close>.
\<close>

record registry_update =
  u_display_name :: "string option option"
  u_input_cost_per_1k :: "real option option"
  u_output_cost_per_1k :: "real option option"
  u_capabilities :: "string list option option"
  u_context_window :: "int option option"
  u_baseline_latency_ms :: "real option option"
  u_enabled :: "bool option option"

definition set_field :: "'a option option \<Rightarrow> 'a \<Rightarrow> 'a option" where
  "set_field u old = (case u of None \<Rightarrow> Some old | Some v \<Rightarrow> v)"

definition set_nullable :: "'a option option \<Rightarrow> 'a option \<Rightarrow> 'a option" where
  "set_nullable u old = (case u of None \<Rightarrow> old | Some v \<Rightarrow> v)"

definition apply_update :: "registry_update \<Rightarrow> registry_entry \<Rightarrow> registry_entry option" where
  "apply_update u e =
     (case (set_field (u_input_cost_per_1k u) (e_input_cost_per_1k e),
            set_field (u_output_cost_per_1k u) (e_output_cost_per_1k e),
            set_field (u_context_window u) (e_context_window e),
            set_field (u_baseline_latency_ms u) (e_baseline_latency_ms e),
            set_field (u_enabled u) (e_enabled e)) of
        (Some ic, Some oc, Some cw, Some bl, Some en) \<Rightarrow>
          Some (e\<lparr>e_display_name := set_nullable (u_display_name u) (e_display_name e),
             e_input_cost_per_1k := ic, e_output_cost_per_1k := oc,
             e_capabilities := set_nullable (u_capabilities u) (e_capabilities e),
             e_context_window := cw, e_baseline_latency_ms := bl, e_enabled := en\<rparr>)
      | _ \<Rightarrow> None)"

definition update_model ::
  "string \<Rightarrow> registry_update \<Rightarrow> registry_table \<Rightarrow> (exn + registry_entry) \<times> registry_table" where
  "update_model i u rows = (case get_model i rows of
     Inl err \<Rightarrow> (Inl err, rows)
   | Inr e \<Rightarrow> (case apply_update u e of
         None \<Rightarrow> (Inl (Exn IntegrityErrorC ''NOT NULL''), rows)
       | Some e' \<Rightarrow> (Inr e', map (\<lambda>r. if e_id r = i then e' else r) rows)))"

definition delete_model :: "string \<Rightarrow> registry_table \<Rightarrow> (exn + unit) \<times> registry_table" where
  "delete_model i rows = (case get_model i rows of
     Inl err \<Rightarrow> (Inl err, rows)
   | Inr e \<Rightarrow> (Inr (), filter (\<lambda>r. e_id r \<noteq> i) rows))"

section \<open>The table invariant\<close>

definition wf_entry :: "registry_entry \<Rightarrow> bool" where
  "wf_entry e = (e_provider e \<in> set known_providers \<and> e_model_name e \<noteq> [] \<and>
     strip (e_model_name e) = e_model_name e \<and> 0 \<le> e_input_cost_per_1k e \<and>
     0 \<le> e_output_cost_per_1k e \<and> 0 < e_context_window e \<and> 0 < e_baseline_latency_ms e \<and>
     (case e_capabilities e of None \<Rightarrow> False
        | Some cs \<Rightarrow> cs \<noteq> [] \<and> set cs \<subseteq> set known_capabilities \<and> distinct cs))"

definition row_key :: "registry_entry \<Rightarrow> string \<times> string" where
  "row_key e = (e_provider e, e_model_name e)"

definition wf_table :: "registry_table \<Rightarrow> bool" where
  "wf_table rows = ((\<forall>e \<in> set rows. wf_entry e) \<and> distinct (map e_id rows) \<and> distinct (map row_key rows))"

lemma set_dedup: "set (dedup seen cs) = set cs - set seen"
  by (induction seen cs rule: dedup.induct) auto

lemma distinct_dedup: "distinct (dedup seen cs)"
  by (induction seen cs rule: dedup.induct) (auto simp: set_dedup)

lemma dedup_Nil_iff [simp]: "dedup [] cs = [] \<longleftrightarrow> cs = []"
  by (cases cs) auto

lemma validate_create_wf:
  "validate_create d = Inr d' \<Longrightarrow> wf_entry (entry_of i d')"
  by (auto simp: validate_create_def wf_entry_def entry_of_def validate_provider_def
      validate_model_name_def validate_capabilities_def Let_def set_dedup distinct_dedup list_all_iff
      List.member_iff split: if_splits option.splits)

lemma get_by_provider_model_None:
  "get_by_provider_model p m rows = None \<longleftrightarrow> (p, m) \<notin> row_key ` set rows"
  by (auto simp: get_by_provider_model_def find_None_iff row_key_def)

lemma get_model_Inr: "get_model i rows = Inr e \<Longrightarrow> e \<in> set rows \<and> e_id e = i"
  by (auto simp: get_model_def find_Some_iff split: option.splits)

lemma get_model_Inl: "get_model i rows = Inl x \<Longrightarrow> i \<notin> e_id ` set rows \<and> x = not_found i"
  by (auto simp: get_model_def find_None_iff split: option.splits)

lemma get_model_mem:
  assumes "e \<in> set rows" and "distinct (map e_id rows)"
  shows "get_model (e_id e) rows = Inr e"
proof -
  obtain e' where e': "get_model (e_id e) rows = Inr e'"
    using get_model_Inl [of "e_id e" rows] assms(1) by (cases "get_model (e_id e) rows") auto
  with get_model_Inr [OF e'] assms show ?thesis
    by (metis (no_types, opaque_lifting) distinct_map inj_onD)
qed

lemma wf_table_Cons_append:
  "wf_table (rows @ [e]) \<longleftrightarrow>
     wf_table rows \<and> wf_entry e \<and> e_id e \<notin> e_id ` set rows \<and> row_key e \<notin> row_key ` set rows"
  by (auto simp: wf_table_def)

lemma apply_update_key: "apply_update u e = Some e' \<Longrightarrow> e_id e' = e_id e \<and> row_key e' = row_key e"
  by (auto simp: apply_update_def row_key_def split: option.splits)

lemma wf_table_replace:
  assumes "wf_table rows"
    and "\<And>r. r \<in> set rows \<Longrightarrow> wf_entry (f r) \<and> e_id (f r) = e_id r \<and> row_key (f r) = row_key r"
  shows "wf_table (map f rows)"
proof -
  have "map e_id (map f rows) = map e_id rows" "map row_key (map f rows) = map row_key rows"
    using assms(2) by auto
  moreover have "\<forall>e \<in> set (map f rows). wf_entry e"
    using assms(2) by auto
  ultimately show ?thesis
    using assms(1) unfolding wf_table_def by presburger
qed

lemma wf_table_filter: "wf_table rows \<Longrightarrow> wf_table (filter P rows)"
  by (auto simp: wf_table_def distinct_map_filter)

section \<open>Validation of an update body\<close>

definition opt_ok :: "('a \<Rightarrow> bool) \<Rightarrow> 'a option option \<Rightarrow> bool" where
  "opt_ok P u = (case u of Some (Some x) \<Rightarrow> P x | _ \<Rightarrow> True)"

definition validate_update :: "registry_update \<Rightarrow> exn + registry_update" where
  "validate_update u =
     (if opt_ok (\<lambda>n. length n \<le> 255) (u_display_name u) \<and> opt_ok (\<lambda>c. 0 \<le> c) (u_input_cost_per_1k u) \<and>
         opt_ok (\<lambda>c. 0 \<le> c) (u_output_cost_per_1k u) \<and> opt_ok (\<lambda>c. 0 < c) (u_context_window u) \<and>
         opt_ok (\<lambda>c. 0 < c) (u_baseline_latency_ms u)
      then (case u_capabilities u of
          Some (Some v) \<Rightarrow> (case validate_capabilities v of
              Some cs \<Rightarrow> Inr (u\<lparr>u_capabilities := Some (Some cs)\<rparr>)
            | None \<Rightarrow> Inl (RequestValidationError [([''body'', ''capabilities''], ''value_error'')]))
        | _ \<Rightarrow> Inr u)
      else Inl (RequestValidationError [([''body''], ''constraint'')]))"

lemma set_field_ok: "opt_ok P u \<Longrightarrow> P old \<Longrightarrow> set_field u old = Some x \<Longrightarrow> P x"
  by (auto simp: opt_ok_def set_field_def split: option.splits)

definition sends_null_capabilities :: "registry_update \<Rightarrow> bool" where
  "sends_null_capabilities u = (u_capabilities u = Some None)"

lemma validate_update_null:
  "validate_update u = Inr u' \<Longrightarrow> sends_null_capabilities u' = sends_null_capabilities u"
  by (auto simp: validate_update_def sends_null_capabilities_def split: if_splits option.splits)

lemma validate_capabilities_ok:
  "validate_capabilities v = Some cs \<Longrightarrow> cs \<noteq> [] \<and> set cs \<subseteq> set known_capabilities \<and> distinct cs"
  by (auto simp: validate_capabilities_def set_dedup distinct_dedup list_all_iff List.member_iff
      split: if_splits)

lemma apply_update_wf:
  assumes "validate_update u0 = Inr u" "wf_entry e" "apply_update u e = Some e'"
    and "\<not> sends_null_capabilities u"
  shows "wf_entry e'"
proof -
  have num: "opt_ok (\<lambda>c. 0 \<le> c) (u_input_cost_per_1k u)" "opt_ok (\<lambda>c. 0 \<le> c) (u_output_cost_per_1k u)"
    "opt_ok (\<lambda>c. 0 < c) (u_context_window u)" "opt_ok (\<lambda>c. 0 < c) (u_baseline_latency_ms u)"
    using assms(1) by (auto simp: validate_update_def split: if_splits option.splits)
  have caps: "\<And>cs. u_capabilities u = Some (Some cs) \<Longrightarrow>
      cs \<noteq> [] \<and> set cs \<subseteq> set known_capabilities \<and> distinct cs"
    using assms(1) validate_capabilities_ok
    by (fastforce simp: validate_update_def split: if_splits option.splits)
  have new: "set_field (u_input_cost_per_1k u) (e_input_cost_per_1k e) = Some (e_input_cost_per_1k e')"
    "set_field (u_output_cost_per_1k u) (e_output_cost_per_1k e) = Some (e_output_cost_per_1k e')"
    "set_field (u_context_window u) (e_context_window e) = Some (e_context_window e')"
    "set_field (u_baseline_latency_ms u) (e_baseline_latency_ms e) = Some (e_baseline_latency_ms e')"
    "e_capabilities e' = set_nullable (u_capabilities u) (e_capabilities e)"
    "e_provider e' = e_provider e" "e_model_name e' = e_model_name e"
    using assms(3) by (auto simp: apply_update_def split: option.splits)
  have "0 \<le> e_input_cost_per_1k e'" "0 \<le> e_output_cost_per_1k e'" "0 < e_context_window e'"
    "0 < e_baseline_latency_ms e'"
    using set_field_ok [OF num(1) _ new(1)] set_field_ok [OF num(2) _ new(2)]
      set_field_ok [OF num(3) _ new(3)] set_field_ok [OF num(4) _ new(4)] assms(2)
    by (auto simp: wf_entry_def)
  moreover have "case e_capabilities e' of None \<Rightarrow> False
        | Some cs \<Rightarrow> cs \<noteq> [] \<and> set cs \<subseteq> set known_capabilities \<and> distinct cs"
    using caps assms(2,4) unfolding new(5) set_nullable_def wf_entry_def sends_null_capabilities_def
    by (auto split: option.splits)
  ultimately show ?thesis
    using assms(2) new(6,7) by (simp add: wf_entry_def)
qed

section \<open>The service keeps the table well formed\<close>

lemma create_model_wf:
  assumes "validate_create d0 = Inr d" "wf_table rows"
  shows "wf_table (snd (create_model i d rows rows))"
proof -
  have "wf_entry (entry_of i d)"
    using assms(1) by (rule validate_create_wf)
  then show ?thesis
    using assms(2) get_by_provider_model_None [of "d_provider d" "d_model_name d" rows]
    by (auto simp: create_model_def Let_def wf_table_Cons_append row_key_def entry_of_def
        split: option.splits)
qed

lemma update_model_wf:
  assumes "validate_update u0 = Inr u" "\<not> sends_null_capabilities u" "wf_table rows"
  shows "wf_table (snd (update_model i u rows))"
proof (cases "\<exists>e e'. get_model i rows = Inr e \<and> apply_update u e = Some e'")
  case True
  then obtain e e' where e: "get_model i rows = Inr e" and e': "apply_update u e = Some e'"
    by blast
  have wf: "wf_entry e'"
    using assms e e' get_model_Inr [OF e] apply_update_wf by (auto simp: wf_table_def)
  have one: "r = e" if "r \<in> set rows" "e_id r = i" for r
    using assms(3) get_model_Inr [OF e] that get_model_mem [of r rows] e by (auto simp: wf_table_def)
  have "wf_table (map (\<lambda>r. if e_id r = i then e' else r) rows)"
    using wf apply_update_key [OF e'] one assms(3)
    by (intro wf_table_replace) (auto simp: wf_table_def)
  then show ?thesis
    by (simp add: update_model_def e e')
next
  case False
  then show ?thesis
    using assms(3) by (auto simp: update_model_def split: sum.splits option.splits)
qed

lemma delete_model_wf: "wf_table rows \<Longrightarrow> wf_table (snd (delete_model i rows))"
  by (simp add: delete_model_def wf_table_filter split: sum.splits)

lemma list_models_set:
  "set (list_models p en rows) = {e \<in> set rows. (en \<longrightarrow> e_enabled e) \<and>
     (case p of None \<Rightarrow> True | Some s \<Rightarrow> s = [] \<or> e_provider e = lower s)}"
  by (auto simp: list_models_def Let_def split: option.splits)

lemma list_models_sorted: "sorted (map row_key (list_models p en rows))"
proof -
  have "row_key = (\<lambda>e. (e_provider e, e_model_name e))"
    by (simp add: fun_eq_iff row_key_def)
  then show ?thesis
    by (simp add: list_models_def Let_def)
qed

text \<open>
  C13: \<open>list_models\<close> returns the rows that pass the two filters, each once, in strictly increasing
  order of (provider, model name).
\<close>

theorem list_models_strictly_sorted:
  assumes "wf_table rows"
  shows "sorted (map row_key (list_models p en rows)) \<and> distinct (map row_key (list_models p en rows)) \<and>
    set (list_models p en rows) = {e \<in> set rows. (en \<longrightarrow> e_enabled e) \<and>
      (case p of None \<Rightarrow> True | Some s \<Rightarrow> s = [] \<or> e_provider e = lower s)}"
proof -
  have "inj_on row_key (set rows)" "distinct rows"
    using assms by (auto simp: wf_table_def distinct_map)
  moreover have "distinct (list_models p en rows)"
    using \<open>distinct rows\<close> by (auto simp: list_models_def Let_def split: option.splits)
  ultimately have "distinct (map row_key (list_models p en rows))"
    by (auto simp: distinct_map list_models_set intro: inj_on_subset)
  then show ?thesis
    by (simp add: list_models_sorted list_models_set)
qed

definition example_entry :: "string \<Rightarrow> string \<Rightarrow> string \<Rightarrow> registry_entry" where
  "example_entry i p m = \<lparr>e_id = i, e_provider = p, e_model_name = m, e_display_name = None,
     e_input_cost_per_1k = 1 / 2, e_output_cost_per_1k = 3 / 2, e_capabilities = Some [''text''],
     e_context_window = 8192, e_baseline_latency_ms = 100, e_enabled = True\<rparr>"

definition example_table :: registry_table where
  "example_table = [example_entry ''1'' ''groq'' ''m2'', example_entry ''2'' ''groq'' ''m1'',
     example_entry ''3'' ''gemini'' ''g'']"

lemma example_table_wf: "wf_table example_table"
proof -
  have strips: "strip ''m1'' = ''m1''" "strip ''m2'' = ''m2''" "strip ''g'' = ''g''"
    by code_simp+
  show ?thesis
    by (simp add: wf_table_def example_table_def example_entry_def wf_entry_def row_key_def
        known_providers_def known_capabilities_def strips)
qed

theorem list_models_strictly_sorted_witness:
  "sorted (map row_key (list_models (Some ''GROQ'') True example_table)) \<and> wf_table example_table"
  using list_models_strictly_sorted [OF example_table_wf] example_table_wf by blast

end
