(* ===== verification/Crud.thy ===== *)
theory Crud
  imports Prelude
begin

text \<open>
  The interface of the gateway's administrative tables (model registry, budgets, team rate limits):
  a state that holds rows addressed by an identifier, with create, update and delete operations that
  either succeed with a result or fail with an error. The laws say what a lookup returns after each
  operation and that the operations keep the invariant of the state; the lemmas hold of every
  sequence of operations.
\<close>

datatype ('i, 'a, 'u) crud_op = Create 'a | Update 'i 'u | Delete 'i

text \<open>The change a successful operation reports.\<close>

datatype ('i, 'r) change = Put 'i 'r | Drop 'i

fun apply_change :: "('i, 'r) change \<Rightarrow> ('i \<Rightarrow> 'r option) \<Rightarrow> 'i \<Rightarrow> 'r option" where
  "apply_change (Put i r) m = m(i \<mapsto> r)"
| "apply_change (Drop i) m = m(i := None)"

fun change_id :: "('i, 'r) change \<Rightarrow> 'i" where
  "change_id (Put i r) = i"
| "change_id (Drop i) = i"

fun crud_step ::
  "('r \<Rightarrow> 'i) \<Rightarrow> ('a \<Rightarrow> 's \<Rightarrow> ('e + 'r) \<times> 's) \<Rightarrow> ('i \<Rightarrow> 'u \<Rightarrow> 's \<Rightarrow> ('e + 'r) \<times> 's) \<Rightarrow>
   ('i \<Rightarrow> 's \<Rightarrow> ('e + 'd) \<times> 's) \<Rightarrow> ('i, 'a, 'u) crud_op \<Rightarrow> 's \<Rightarrow> ('i, 'r) change list \<times> 's" where
  "crud_step ident ins upd del (Create a) s =
     (case ins a s of (Inl e, s') \<Rightarrow> ([], s') | (Inr r, s') \<Rightarrow> ([Put (ident r) r], s'))"
| "crud_step ident ins upd del (Update i u) s =
     (case upd i u s of (Inl e, s') \<Rightarrow> ([], s') | (Inr r, s') \<Rightarrow> ([Put i r], s'))"
| "crud_step ident ins upd del (Delete i) s =
     (case del i s of (Inl e, s') \<Rightarrow> ([], s') | (Inr d, s') \<Rightarrow> ([Drop i], s'))"

lemma snd_crud_step [simp]:
  "snd (crud_step ident ins upd del (Create a) s) = snd (ins a s)"
  "snd (crud_step ident ins upd del (Update i u) s) = snd (upd i u s)"
  "snd (crud_step ident ins upd del (Delete i) s) = snd (del i s)"
  by (simp_all split: prod.splits sum.splits)

fun crud_run ::
  "('r \<Rightarrow> 'i) \<Rightarrow> ('a \<Rightarrow> 's \<Rightarrow> ('e + 'r) \<times> 's) \<Rightarrow> ('i \<Rightarrow> 'u \<Rightarrow> 's \<Rightarrow> ('e + 'r) \<times> 's) \<Rightarrow>
   ('i \<Rightarrow> 's \<Rightarrow> ('e + 'd) \<times> 's) \<Rightarrow> ('i, 'a, 'u) crud_op list \<Rightarrow> 's \<Rightarrow> ('i, 'r) change list \<times> 's" where
  "crud_run ident ins upd del [] s = ([], s)"
| "crud_run ident ins upd del (op # ops) s =
     (let (cs, s') = crud_step ident ins upd del op s;
          (ds, s'') = crud_run ident ins upd del ops s' in (cs @ ds, s''))"

lemma changes_other:
  assumes "i \<notin> change_id ` set cs"
  shows "fold apply_change cs m i = m i"
  using assms
proof (induction cs arbitrary: m)
  case Nil
  then show ?case by simp
next
  case (Cons c cs)
  then show ?case by (cases c) auto
qed

locale crud =
  fixes look :: "'s \<Rightarrow> 'i \<Rightarrow> 'r option"
    and ident :: "'r \<Rightarrow> 'i"
    and inv :: "'s \<Rightarrow> bool"
    and ins :: "'a \<Rightarrow> 's \<Rightarrow> ('e + 'r) \<times> 's"
    and upd :: "'i \<Rightarrow> 'u \<Rightarrow> 's \<Rightarrow> ('e + 'r) \<times> 's"
    and del :: "'i \<Rightarrow> 's \<Rightarrow> ('e + 'd) \<times> 's"
  assumes look_ident: "inv s \<Longrightarrow> look s i = Some r \<Longrightarrow> ident r = i"
    and ins_ok: "inv s \<Longrightarrow> ins a s = (Inr r, s') \<Longrightarrow> look s (ident r) = None \<and> look s' = (look s)(ident r \<mapsto> r)"
    and ins_err: "inv s \<Longrightarrow> ins a s = (Inl e, s') \<Longrightarrow> look s' = look s"
    and upd_ok: "inv s \<Longrightarrow> upd i u s = (Inr r, s') \<Longrightarrow> look s i \<noteq> None \<and> look s' = (look s)(i \<mapsto> r)"
    and upd_err: "inv s \<Longrightarrow> upd i u s = (Inl e, s') \<Longrightarrow> look s' = look s"
    and del_ok: "inv s \<Longrightarrow> del i s = (Inr d, s') \<Longrightarrow> look s i \<noteq> None \<and> look s' = (look s)(i := None)"
    and del_err: "inv s \<Longrightarrow> del i s = (Inl e, s') \<Longrightarrow> look s' = look s \<and> look s i = None"
    and ins_inv: "inv s \<Longrightarrow> inv (snd (ins a s))"
    and upd_inv: "inv s \<Longrightarrow> inv (snd (upd i u s))"
    and del_inv: "inv s \<Longrightarrow> inv (snd (del i s))"
begin

lemma step_inv: "inv s \<Longrightarrow> inv (snd (crud_step ident ins upd del op s))"
  by (cases op) (simp_all only: snd_crud_step ins_inv upd_inv del_inv)

lemma step_look:
  assumes "inv s"
  shows "look (snd (crud_step ident ins upd del op s)) =
    fold apply_change (fst (crud_step ident ins upd del op s)) (look s)"
proof (cases op)
  case (Create a)
  then show ?thesis
    using ins_ok [OF assms, of a] ins_err [OF assms, of a] by (auto split: prod.splits sum.splits)
next
  case (Update i u)
  then show ?thesis
    using upd_ok [OF assms, of i u] upd_err [OF assms, of i u] by (auto split: prod.splits sum.splits)
next
  case (Delete i)
  then show ?thesis
    using del_ok [OF assms, of i] del_err [OF assms, of i] by (auto split: prod.splits sum.splits)
qed

text \<open>A run keeps the invariant, and its table is the old one with the reported changes applied.\<close>

lemma run_refines:
  assumes "inv s" "crud_run ident ins upd del ops s = (cs, s')"
  shows "inv s' \<and> look s' = fold apply_change cs (look s)"
  using assms
proof (induction ops arbitrary: s cs)
  case Nil
  then show ?case by simp
next
  case (Cons op ops)
  obtain c1 s1 where step: "crud_step ident ins upd del op s = (c1, s1)" by (meson surj_pair)
  obtain c2 where run: "crud_run ident ins upd del ops s1 = (c2, s')" "cs = c1 @ c2"
    using Cons.prems(2) step by (auto simp: Let_def split: prod.splits)
  show ?case
    using Cons.IH [OF _ run(1)] step_inv [OF Cons.prems(1), of op] step_look [OF Cons.prems(1), of op]
      run(2) step by simp
qed

text \<open>What is read back: the last successful change of a row, or the row as it was.\<close>

lemma read_back:
  assumes "inv s" "crud_run ident ins upd del ops s = (cs @ [c] @ ds, s')"
    and "change_id c = i" "i \<notin> change_id ` set ds"
  shows "look s' i = (case c of Put j r \<Rightarrow> Some r | Drop j \<Rightarrow> None)"
  using run_refines [OF assms(1,2)] changes_other [OF assms(4)] assms(3)
  by (cases c) auto

lemma untouched:
  assumes "inv s" "crud_run ident ins upd del ops s = (cs, s')" "i \<notin> change_id ` set cs"
  shows "look s' i = look s i"
  using run_refines [OF assms(1,2)] changes_other [OF assms(3)] by simp

lemma delete_then_gone: "inv s \<Longrightarrow> look (snd (del i s)) i = None"
  using del_ok [of s i] del_err [of s i] by (cases "del i s"; cases "fst (del i s)") auto

end

end
