(* ===== verification/Catalog.thy ===== *)
theory Catalog
  imports ModelRegistry Crud "HOL-Library.AList"
begin

text \<open>
  \<open>ModelMetadataCatalog\<close> (\<open>app/routing/metadata.py\<close>): the in-memory dictionary of the enabled models,
  its loading from the model table and its lookup with fallbacks; and the endpoints of
  \<open>api/v1/endpoints/model_registry.py\<close>, which change the table and then refresh the catalog. The
  dictionary is an association list in insertion order.
\<close>

section \<open>The catalog\<close>

record model_metadata =
  md_provider :: string
  md_model :: string
  md_cost_per_1k_tokens :: real
  md_input_cost_per_1k :: real
  md_output_cost_per_1k :: real
  md_capabilities :: "string list"
  md_context_window :: int
  md_baseline_latency_ms :: real

type_synonym catalog_dict = "(string \<times> model_metadata) list"

record model_catalog =
  c_catalog :: catalog_dict
  c_ollama_default_cost :: real

definition new_catalog :: model_catalog where
  "new_catalog = \<lparr>c_catalog = [], c_ollama_default_cost = 0\<rparr>"

text \<open>The constraints of the \<open>ModelMetadata\<close> fields.\<close>

definition metadata_ok :: "model_metadata \<Rightarrow> bool" where
  "metadata_ok md = (0 \<le> md_cost_per_1k_tokens md \<and> 0 \<le> md_input_cost_per_1k md \<and>
     0 \<le> md_output_cost_per_1k md \<and> 0 < md_context_window md \<and> 0 < md_baseline_latency_ms md)"

definition catalog_key :: "string \<Rightarrow> string \<Rightarrow> string" where
  "catalog_key p m = p @ '':'' @ m"

definition metadata_of_row :: "registry_entry \<Rightarrow> exn + model_metadata" where
  "metadata_of_row e = (case e_capabilities e of
     None \<Rightarrow> Inl (Exn TypeErrorC ''NoneType object is not iterable'')
   | Some cs \<Rightarrow>
      (let md = \<lparr>md_provider = e_provider e, md_model = e_model_name e,
         md_cost_per_1k_tokens = e_cost_per_1k_tokens e,
         md_input_cost_per_1k = e_input_cost_per_1k e,
         md_output_cost_per_1k = e_output_cost_per_1k e, md_capabilities = cs,
         md_context_window = e_context_window e,
         md_baseline_latency_ms = e_baseline_latency_ms e\<rparr>
       in if metadata_ok md then Inr md else Inl (Exn ValueErrorC ''ModelMetadata'')))"

fun load_rows :: "registry_entry list \<Rightarrow> catalog_dict \<Rightarrow> exn + catalog_dict" where
  "load_rows [] d = Inr d"
| "load_rows (e # es) d = (case metadata_of_row e of
     Inl err \<Rightarrow> Inl err
   | Inr md \<Rightarrow> load_rows es (AList.update (catalog_key (e_provider e) (e_model_name e)) md d))"

definition load_from_db :: "registry_table \<Rightarrow> model_catalog \<Rightarrow> exn + model_catalog" where
  "load_from_db rows c = (case load_rows (get_all_for_catalog rows) [] of
     Inl err \<Rightarrow> Inl err
   | Inr d \<Rightarrow> Inr (c\<lparr>c_catalog := d\<rparr>))"

definition default_capabilities :: "string \<Rightarrow> string list" where
  "default_capabilities model =
     (if contains ''vision'' (lower model) \<or> contains ''llava'' (lower model)
      then [''text'', ''code'', ''json'', ''vision''] else [''text'', ''code'', ''json''])"

definition default_metadata :: "model_catalog \<Rightarrow> string \<Rightarrow> string \<Rightarrow> model_metadata" where
  "default_metadata c provider model =
     (let is_ollama = (lower provider = ''ollama'') in
      \<lparr>md_provider = lower provider, md_model = model,
       md_cost_per_1k_tokens = (if is_ollama then c_ollama_default_cost c else 5 / 10000),
       md_input_cost_per_1k = 0, md_output_cost_per_1k = 0,
       md_capabilities = default_capabilities model, md_context_window = 8192,
       md_baseline_latency_ms = (if is_ollama then 300 else 500)\<rparr>)"

definition catalog_get :: "model_catalog \<Rightarrow> string \<Rightarrow> string \<Rightarrow> model_metadata" where
  "catalog_get c provider model =
     (case map_of (c_catalog c) (catalog_key (lower provider) (strip model)) of
        Some md \<Rightarrow> md
      | None \<Rightarrow>
        (case map_of (c_catalog c) (catalog_key (lower provider) (strip (before_colon model))) of
           Some md \<Rightarrow> md\<lparr>md_provider := provider, md_model := model\<rparr>
         | None \<Rightarrow> default_metadata c provider model))"

definition provider_model_names :: "model_catalog \<Rightarrow> string \<Rightarrow> string list" where
  "provider_model_names c provider =
     map (\<lambda>(k, md). md_model md)
       (filter (\<lambda>(k, md). starts_with (lower provider @ '':'') k) (c_catalog c))"

definition catalog_size :: "model_catalog \<Rightarrow> nat" where
  "catalog_size c = length (c_catalog c)"

section \<open>Facts about the catalog\<close>

lemma known_provider_no_colon: "p \<in> set known_providers \<Longrightarrow> CHR '':'' \<notin> set p \<and> lower p = p"
  by (auto simp: known_providers_def lower_def lower_char_def Let_def)

lemma catalog_key_inj:
  assumes "CHR '':'' \<notin> set p" "CHR '':'' \<notin> set p'"
  shows "catalog_key p m = catalog_key p' m' \<longleftrightarrow> p = p' \<and> m = m'"
proof -
  have "takeWhile (\<lambda>c. c \<noteq> CHR '':'') (catalog_key q n) = q" if "CHR '':'' \<notin> set q" for q n
    using that by (induction q) (auto simp: catalog_key_def)
  with assms show ?thesis
    by (metis append_Cons append_Nil append_same_eq catalog_key_def same_append_eq)
qed

lemma metadata_of_wf_row:
  "wf_entry e \<Longrightarrow> \<exists>md. metadata_of_row e = Inr md \<and> metadata_ok md \<and> md_provider md = e_provider e \<and>
     md_model md = e_model_name e \<and> md_input_cost_per_1k md = e_input_cost_per_1k e \<and>
     md_output_cost_per_1k md = e_output_cost_per_1k e"
  by (auto simp: wf_entry_def metadata_of_row_def metadata_ok_def e_cost_per_1k_tokens_def Let_def
      split: option.splits)

definition row_metadata :: "registry_entry \<Rightarrow> model_metadata" where
  "row_metadata e = (case metadata_of_row e of Inr md \<Rightarrow> md | Inl err \<Rightarrow> default_metadata new_catalog [] [])"

lemma row_metadata_wf:
  assumes "wf_entry e"
  shows metadata_of_row_eq: "metadata_of_row e = Inr (row_metadata e)"
    and row_metadata_fields: "md_provider (row_metadata e) = e_provider e \<and>
      md_model (row_metadata e) = e_model_name e \<and>
      md_input_cost_per_1k (row_metadata e) = e_input_cost_per_1k e \<and>
      md_output_cost_per_1k (row_metadata e) = e_output_cost_per_1k e \<and> metadata_ok (row_metadata e)"
proof -
  obtain md where md: "metadata_of_row e = Inr md" "metadata_ok md" "md_provider md = e_provider e"
     "md_model md = e_model_name e" "md_input_cost_per_1k md = e_input_cost_per_1k e"
     "md_output_cost_per_1k md = e_output_cost_per_1k e"
    using metadata_of_wf_row [OF assms] by blast
  then have eq: "row_metadata e = md"
    by (simp add: row_metadata_def)
  from md(1) show "metadata_of_row e = Inr (row_metadata e)"
    by (simp add: eq)
  from md(2-) show "md_provider (row_metadata e) = e_provider e \<and>
      md_model (row_metadata e) = e_model_name e \<and>
      md_input_cost_per_1k (row_metadata e) = e_input_cost_per_1k e \<and>
      md_output_cost_per_1k (row_metadata e) = e_output_cost_per_1k e \<and> metadata_ok (row_metadata e)"
    by (simp add: eq)
qed

definition entry_key :: "registry_entry \<Rightarrow> string" where
  "entry_key e = catalog_key (e_provider e) (e_model_name e)"

lemma entry_key_inj: "wf_entry e \<Longrightarrow> wf_entry e' \<Longrightarrow> entry_key e = entry_key e' \<longleftrightarrow> row_key e = row_key e'"
  using known_provider_no_colon by (simp add: entry_key_def row_key_def wf_entry_def catalog_key_inj)

lemma update_fresh: "k \<notin> fst ` set d \<Longrightarrow> AList.update k v d = d @ [(k, v)]"
  by (induction d) auto

lemma load_rows_append:
  assumes "\<forall>e \<in> set es. wf_entry e" "distinct (map entry_key es)" "fst ` set d \<inter> entry_key ` set es = {}"
  shows "load_rows es d = Inr (d @ map (\<lambda>e. (entry_key e, row_metadata e)) es)"
  using assms
proof (induction es arbitrary: d)
  case Nil
  then show ?case by simp
next
  case (Cons e es)
  have "AList.update (catalog_key (e_provider e) (e_model_name e)) (row_metadata e) d =
      d @ [(entry_key e, row_metadata e)]"
    using Cons.prems(3) by (simp add: update_fresh entry_key_def)
  then show ?case
    using Cons.prems by (simp add: metadata_of_row_eq) (subst Cons.IH, auto)
qed

lemma load_from_db_wf:
  assumes "wf_table rows"
  shows "load_from_db rows c =
    Inr (c\<lparr>c_catalog := map (\<lambda>e. (entry_key e, row_metadata e)) (get_all_for_catalog rows)\<rparr>)"
proof -
  let ?es = "get_all_for_catalog rows"
  have mem: "set ?es \<subseteq> set rows" and wf: "\<forall>e \<in> set ?es. wf_entry e"
    using assms by (auto simp: get_all_for_catalog_def list_models_set wf_table_def)
  have "distinct (map row_key ?es)"
    using assms mem by (auto simp: get_all_for_catalog_def list_models_def Let_def wf_table_def
        distinct_map intro: inj_on_subset)
  then have "distinct (map entry_key ?es)"
    using wf entry_key_inj by (auto simp: distinct_map inj_on_def)
  then show ?thesis
    using load_rows_append [of ?es "[]"] wf by (simp add: load_from_db_def)
qed

lemma map_of_loaded:
  assumes "wf_table rows" "e \<in> set rows" "e_enabled e"
  shows "map_of (map (\<lambda>e. (entry_key e, row_metadata e)) (get_all_for_catalog rows)) (entry_key e) =
    Some (row_metadata e)"
proof (rule map_of_is_SomeI)
  have mem: "\<forall>e \<in> set (get_all_for_catalog rows). e \<in> set rows \<and> wf_entry e"
    using assms(1) by (auto simp: get_all_for_catalog_def list_models_set wf_table_def)
  moreover have "distinct rows" "inj_on row_key (set rows)"
    using assms(1) by (auto simp: wf_table_def distinct_map)
  ultimately show "distinct (map fst (map (\<lambda>e. (entry_key e, row_metadata e)) (get_all_for_catalog rows)))"
    using entry_key_inj
    by (auto simp: distinct_map inj_on_def get_all_for_catalog_def list_models_def Let_def)
  show "(entry_key e, row_metadata e) \<in> set (map (\<lambda>e. (entry_key e, row_metadata e)) (get_all_for_catalog rows))"
    using assms(2,3) by (auto simp: get_all_for_catalog_def list_models_set)
qed

lemma loaded_keys: "wf_table rows \<Longrightarrow>
  fst ` set (map (\<lambda>e. (entry_key e, row_metadata e)) (get_all_for_catalog rows)) =
    entry_key ` {e \<in> set rows. e_enabled e}"
  by (auto simp: get_all_for_catalog_def list_models_set image_image)

definition synced :: "registry_table \<Rightarrow> model_catalog \<Rightarrow> bool" where
  "synced rows c = (load_from_db rows c = Inr c)"

lemma load_synced: "load_from_db rows c = Inr c' \<Longrightarrow> synced rows c'"
  by (auto simp: load_from_db_def synced_def split: sum.splits)

lemma synced_wf: "wf_table rows \<Longrightarrow> synced rows c \<longleftrightarrow>
    c_catalog c = map (\<lambda>e. (entry_key e, row_metadata e)) (get_all_for_catalog rows)"
  by (auto simp: synced_def load_from_db_wf) (metis (no_types) model_catalog.surjective model_catalog.update_convs(1) model_catalog.select_convs(1))+

text \<open>
  After a load, the catalog answers for exactly the enabled rows: the row's own prices and
  capabilities for an enabled row, whatever the case of the provider and the blanks around the model;
  for a name whose full and bare forms match no enabled row, the default, whose split prices are 0.
\<close>

theorem catalog_lookup:
  assumes "wf_table rows" "synced rows c"
  shows "(\<forall>e \<in> set rows. e_enabled e \<longrightarrow> lower p = e_provider e \<longrightarrow> strip m = e_model_name e \<longrightarrow>
      Inr (catalog_get c p m) = metadata_of_row e) \<and>
    ((\<forall>e \<in> set rows. e_enabled e \<longrightarrow> e_provider e = lower p \<longrightarrow>
        e_model_name e \<noteq> strip m \<and> e_model_name e \<noteq> strip (before_colon m)) \<longrightarrow>
      CHR '':'' \<notin> set (lower p) \<longrightarrow> catalog_get c p m = default_metadata c p m)"
proof (intro conjI ballI impI)
  have cat: "c_catalog c = map (\<lambda>e. (entry_key e, row_metadata e)) (get_all_for_catalog rows)"
    using assms by (simp add: synced_wf)
  {
    fix e assume "e \<in> set rows" "e_enabled e" "lower p = e_provider e" "strip m = e_model_name e"
    then show "Inr (catalog_get c p m) = metadata_of_row e"
      using map_of_loaded [OF assms(1)] assms(1)
      by (simp add: catalog_get_def cat entry_key_def wf_table_def metadata_of_row_eq)
  }
  assume no: "\<forall>e \<in> set rows. e_enabled e \<longrightarrow> e_provider e = lower p \<longrightarrow>
        e_model_name e \<noteq> strip m \<and> e_model_name e \<noteq> strip (before_colon m)"
    and colon: "CHR '':'' \<notin> set (lower p)"
  have "catalog_key (lower p) n \<notin> fst ` set (c_catalog c)"
    if n: "n = strip m \<or> n = strip (before_colon m)" for n
  proof
    assume "catalog_key (lower p) n \<in> fst ` set (c_catalog c)"
    then obtain e where e: "e \<in> set rows" "e_enabled e" "catalog_key (lower p) n = entry_key e"
      unfolding cat loaded_keys [OF assms(1)] by blast
    then have "CHR '':'' \<notin> set (e_provider e)"
      using assms(1) known_provider_no_colon by (auto simp: wf_table_def wf_entry_def)
    then have "e_provider e = lower p \<and> e_model_name e = n"
      using e(3) colon by (simp add: entry_key_def catalog_key_inj)
    with e no n show False by blast
  qed
  then have "map_of (c_catalog c) (catalog_key (lower p) (strip m)) = None"
    "map_of (c_catalog c) (catalog_key (lower p) (strip (before_colon m))) = None"
    by (simp_all add: map_of_eq_None_iff)
  then show "catalog_get c p m = default_metadata c p m"
    by (simp add: catalog_get_def)
qed

lemma metadata_ok_default: "0 \<le> c_ollama_default_cost c \<Longrightarrow> metadata_ok (default_metadata c p m)"
  by (simp add: metadata_ok_def default_metadata_def Let_def)

definition wf_catalog :: "model_catalog \<Rightarrow> bool" where
  "wf_catalog c = (0 \<le> c_ollama_default_cost c \<and> list_all (\<lambda>(k, md). metadata_ok md) (c_catalog c))"

lemma catalog_get_ok: "wf_catalog c \<Longrightarrow> metadata_ok (catalog_get c p m)"
  by (auto simp: catalog_get_def wf_catalog_def list_all_iff metadata_ok_def default_metadata_def
      Let_def dest!: map_of_SomeD split: option.splits)

lemma load_rows_ok: "load_rows es d = Inr d' \<Longrightarrow> list_all (\<lambda>(k, md). metadata_ok md) d \<Longrightarrow>
    list_all (\<lambda>(k, md). metadata_ok md) d'"
proof (induction es arbitrary: d)
  case Nil
  then show ?case by simp
next
  case (Cons e es)
  obtain md where md: "metadata_of_row e = Inr md" "metadata_ok md"
    using Cons.prems(1)
    by (auto simp: metadata_of_row_def Let_def split: option.splits if_splits)
  have "set (AList.update k md d) \<subseteq> insert (k, md) (set d)" for k
    by (induction d) auto
  then have "list_all (\<lambda>(k, md). metadata_ok md)
      (AList.update (catalog_key (e_provider e) (e_model_name e)) md d)"
    using Cons.prems(2) md(2) by (fastforce simp: list_all_iff)
  with Cons.prems(1) md(1) show ?case
    by (auto intro: Cons.IH)
qed

lemma load_wf_catalog: "load_from_db rows c = Inr c' \<Longrightarrow> wf_catalog c \<Longrightarrow> wf_catalog c'"
  using load_rows_ok [of _ "[]"] by (auto simp: load_from_db_def wf_catalog_def split: sum.splits)

definition example_catalog :: model_catalog where
  "example_catalog = new_catalog\<lparr>c_catalog :=
     map (\<lambda>e. (entry_key e, row_metadata e)) (get_all_for_catalog example_table)\<rparr>"

lemma example_catalog_synced: "synced example_table example_catalog"
  by (simp add: synced_def load_from_db_wf [OF example_table_wf] example_catalog_def)

theorem catalog_lookup_witness:
  "Inr (catalog_get example_catalog ''GROQ'' '' m1 '') = metadata_of_row (example_entry ''2'' ''groq'' ''m1'') \<and>
   catalog_get example_catalog ''openai'' ''m1:latest'' = default_metadata example_catalog ''openai'' ''m1:latest''"
proof -
  have names: "lower ''GROQ'' = ''groq''" "strip '' m1 '' = ''m1''" "lower ''openai'' = ''openai''"
    by code_simp+
  show ?thesis
    using catalog_lookup [OF example_table_wf example_catalog_synced, of "''GROQ''" "'' m1 ''"]
      catalog_lookup [OF example_table_wf example_catalog_synced, of "''openai''" "''m1:latest''"]
    unfolding names by (auto simp: example_table_def example_entry_def)
qed

section \<open>The admin endpoints\<close>

text \<open>
  The state is the committed table and the process-wide catalog. A handler that raises rolls its
  session back, so the table is unchanged, but a refresh it already made is not undone. A response is
  represented by its row: the further field \<open>cost_per_1k_tokens\<close> is \<open>e_cost_per_1k_tokens\<close> of it.
\<close>

record models_api =
  a_rows :: registry_table
  a_catalog :: model_catalog

definition trigger_catalog_refresh :: "registry_table \<Rightarrow> model_catalog \<Rightarrow> model_catalog" where
  "trigger_catalog_refresh rows c = (case load_from_db rows c of Inl err \<Rightarrow> c | Inr c' \<Rightarrow> c')"

definition from_orm :: "registry_entry \<Rightarrow> exn + registry_entry" where
  "from_orm e = (case e_capabilities e of
     None \<Rightarrow> Inl (Exn ValueErrorC ''ModelRegistryResponse.capabilities'') | Some cs \<Rightarrow> Inr e)"

text \<open>Refresh with the flushed rows, build the response, commit if that succeeds.\<close>

definition respond :: "registry_table \<Rightarrow> registry_entry \<Rightarrow> models_api \<Rightarrow> (exn + registry_entry) \<times> models_api" where
  "respond rows' e st =
     (let st' = st\<lparr>a_catalog := trigger_catalog_refresh rows' (a_catalog st)\<rparr> in
      case from_orm e of Inl err \<Rightarrow> (Inl err, st') | Inr r \<Rightarrow> (Inr r, st'\<lparr>a_rows := rows'\<rparr>))"

definition post_model ::
  "string \<times> registry_create \<Rightarrow> models_api \<Rightarrow> (exn + registry_entry) \<times> models_api" where
  "post_model = (\<lambda>(new_id, body) st. case validate_create body of
     Inl err \<Rightarrow> (Inl err, st)
   | Inr d \<Rightarrow> (case create_model new_id d (a_rows st) (a_rows st) of
         (Inl err, rows') \<Rightarrow> (Inl (HTTPException 409 (message_of err)), st)
       | (Inr e, rows') \<Rightarrow> respond rows' e st))"

definition patch_model ::
  "string \<Rightarrow> registry_update \<Rightarrow> models_api \<Rightarrow> (exn + registry_entry) \<times> models_api" where
  "patch_model i body st = (case validate_update body of
     Inl err \<Rightarrow> (Inl err, st)
   | Inr u \<Rightarrow> (case update_model i u (a_rows st) of
         (Inl err, rows') \<Rightarrow>
           (Inl (if isinstance err [ModelNotFoundErrorC] then HTTPException 404 (message_of err) else err), st)
       | (Inr e, rows') \<Rightarrow> respond rows' e st))"

definition remove_model :: "string \<Rightarrow> models_api \<Rightarrow> (exn + unit) \<times> models_api" where
  "remove_model i st = (case delete_model i (a_rows st) of
     (Inl err, rows') \<Rightarrow> (Inl (HTTPException 404 (message_of err)), st)
   | (Inr u, rows') \<Rightarrow>
       (Inr u, st\<lparr>a_rows := rows', a_catalog := trigger_catalog_refresh rows' (a_catalog st)\<rparr>))"

definition read_model :: "models_api \<Rightarrow> string \<Rightarrow> registry_entry option" where
  "read_model st i = (case get_model i (a_rows st) of Inl err \<Rightarrow> None | Inr e \<Rightarrow> Some e)"

subsection \<open>The endpoints are a table\<close>

lemma read_model_find: "read_model st i = List.find (\<lambda>e. e_id e = i) (a_rows st)"
  by (simp add: read_model_def get_model_def split: option.splits)

lemma find_append: "List.find P (xs @ ys) = (case List.find P xs of None \<Rightarrow> List.find P ys | Some x \<Rightarrow> Some x)"
  by (induction xs) auto

lemma find_replace_other: "e_id e' = i \<Longrightarrow> j \<noteq> i \<Longrightarrow>
  List.find (\<lambda>e. e_id e = j) (map (\<lambda>r. if e_id r = i then e' else r) rows) = List.find (\<lambda>e. e_id e = j) rows"
  by (induction rows) auto

lemma find_replace:
  assumes "e_id e' = i" "List.find (\<lambda>e. e_id e = i) rows \<noteq> None"
  shows "(\<lambda>j. List.find (\<lambda>e. e_id e = j) (map (\<lambda>r. if e_id r = i then e' else r) rows)) =
    (\<lambda>j. List.find (\<lambda>e. e_id e = j) rows)(i \<mapsto> e')"
proof
  fix j
  have "List.find (\<lambda>e. e_id e = i) (map (\<lambda>r. if e_id r = i then e' else r) rows) = Some e'"
    using assms by (induction rows) (auto split: if_splits)
  then show "List.find (\<lambda>e. e_id e = j) (map (\<lambda>r. if e_id r = i then e' else r) rows) =
    ((\<lambda>j. List.find (\<lambda>e. e_id e = j) rows)(i \<mapsto> e')) j"
    using find_replace_other [OF assms(1)] by (cases "j = i") auto
qed

lemma find_delete:
  "List.find (\<lambda>e. e_id e = j) (filter (\<lambda>r. e_id r \<noteq> i) rows) =
    ((\<lambda>j. List.find (\<lambda>e. e_id e = j) rows)(i := None)) j"
  by (induction rows) auto

lemma create_model_Inr:
  assumes "create_model i d rows rows = (Inr e, rows')"
  shows "e = entry_of i d \<and> rows' = rows @ [e] \<and> i \<notin> e_id ` set rows"
  using assms by (auto simp: create_model_def Let_def split: option.splits if_splits)

lemma update_model_Inr:
  assumes "update_model i u rows = (Inr e', rows')"
  shows "\<exists>e. get_model i rows = Inr e \<and> apply_update u e = Some e' \<and> e_id e' = i \<and>
    rows' = map (\<lambda>r. if e_id r = i then e' else r) rows"
  using assms apply_update_key get_model_Inr
  by (fastforce simp: update_model_def split: sum.splits option.splits)

lemma from_orm_cases: "from_orm e = Inr r \<longleftrightarrow> e_capabilities e \<noteq> None \<and> r = e"
  by (auto simp: from_orm_def split: option.splits)

lemma respond_cases:
  "respond rows' e st =
     (if e_capabilities e = None
      then (Inl (Exn ValueErrorC ''ModelRegistryResponse.capabilities''),
            st\<lparr>a_catalog := trigger_catalog_refresh rows' (a_catalog st)\<rparr>)
      else (Inr e, st\<lparr>a_catalog := trigger_catalog_refresh rows' (a_catalog st), a_rows := rows'\<rparr>))"
  by (simp add: respond_def from_orm_def Let_def split: option.splits)

lemma post_model_Inr:
  assumes "post_model (i, body) st = (Inr r, st')"
  shows "i \<notin> e_id ` set (a_rows st) \<and> e_id r = i \<and> a_rows st' = a_rows st @ [r] \<and>
    a_catalog st' = trigger_catalog_refresh (a_rows st') (a_catalog st)"
  using assms create_model_Inr
  by (fastforce simp: post_model_def respond_cases entry_of_def split: sum.splits prod.splits if_splits)

lemma post_model_Inl: "post_model a st = (Inl err, st') \<Longrightarrow> st' = st"
  using create_model_Inr
  by (fastforce simp: post_model_def respond_cases entry_of_def split: sum.splits prod.splits if_splits)

lemma patch_model_Inr:
  assumes "patch_model i body st = (Inr r, st')"
  shows "e_id r = i \<and> read_model st i \<noteq> None \<and>
    a_rows st' = map (\<lambda>x. if e_id x = i then r else x) (a_rows st) \<and>
    a_catalog st' = trigger_catalog_refresh (a_rows st') (a_catalog st)"
  using assms update_model_Inr
  by (fastforce simp: patch_model_def respond_cases read_model_def split: sum.splits prod.splits if_splits)

lemma patch_model_Inl: "patch_model i body st = (Inl err, st') \<Longrightarrow> a_rows st' = a_rows st"
  by (auto simp: patch_model_def respond_cases split: sum.splits prod.splits if_splits)

lemma remove_model_Inr:
  assumes "remove_model i st = (Inr u, st')"
  shows "read_model st i \<noteq> None \<and> a_rows st' = filter (\<lambda>r. e_id r \<noteq> i) (a_rows st) \<and>
    a_catalog st' = trigger_catalog_refresh (a_rows st') (a_catalog st)"
  using assms by (auto simp: remove_model_def delete_model_def read_model_def split: sum.splits prod.splits)

lemma remove_model_Inl: "remove_model i st = (Inl err, st') \<Longrightarrow> st' = st \<and> read_model st i = None"
  by (auto simp: remove_model_def delete_model_def read_model_def split: sum.splits prod.splits)

lemma post_model_wf:
  assumes "wf_table (a_rows st)"
  shows "wf_table (a_rows (snd (post_model (i, body) st)))"
proof (cases "validate_create body")
  case (Inl err)
  with assms show ?thesis by (simp add: post_model_def)
next
  case (Inr d)
  have "wf_table (snd (create_model i d (a_rows st) (a_rows st)))"
    using Inr assms by (rule create_model_wf)
  then show ?thesis
    using Inr assms by (auto simp: post_model_def respond_cases split: sum.splits prod.splits)
qed

lemma update_model_null_caps:
  assumes "update_model i u rows = (Inr e, rows')" "sends_null_capabilities u"
  shows "e_capabilities e = None"
  using assms
  by (auto simp: update_model_def apply_update_def sends_null_capabilities_def set_nullable_def
      split: sum.splits option.splits)

lemma patch_model_wf:
  assumes "wf_table (a_rows st)"
  shows "wf_table (a_rows (snd (patch_model i body st)))"
proof (cases "patch_model i body st")
  case (Pair res st')
  show ?thesis
  proof (cases res)
    case (Inl err)
    with Pair patch_model_Inl show ?thesis
      using assms by simp
  next
    case (Inr r)
    with Pair obtain u rows' where u: "validate_update body = Inr u"
      "update_model i u (a_rows st) = (Inr r, rows')" "e_capabilities r \<noteq> None" "a_rows st' = rows'"
      by (auto simp: patch_model_def respond_cases split: sum.splits prod.splits if_splits)
    then have "\<not> sends_null_capabilities u"
      using update_model_null_caps [OF u(2)] by auto
    with u Pair show ?thesis
      using update_model_wf [OF u(1) _ assms, of i] by simp
  qed
qed

lemma remove_model_wf: "wf_table (a_rows st) \<Longrightarrow> wf_table (a_rows (snd (remove_model i st)))"
  using delete_model_wf [of "a_rows st" i]
  by (auto simp: remove_model_def split: sum.splits prod.splits)

lemma find_none: "List.find (\<lambda>e. e_id e = i) rows = None \<longleftrightarrow> i \<notin> e_id ` set rows"
  by (auto simp: find_None_iff)

interpretation models_table: crud read_model e_id "\<lambda>st. wf_table (a_rows st)" post_model patch_model
  remove_model
proof (unfold_locales, goal_cases)
  case (1 s i r)
  then show ?case by (auto simp: read_model_find find_Some_iff)
next
  case (2 s a r s')
  obtain i body where a: "a = (i, body)" by (cases a) auto
  have "e_id r = i" "List.find (\<lambda>e. e_id e = i) (a_rows s) = None" "a_rows s' = a_rows s @ [r]"
    using post_model_Inr [OF 2(2) [unfolded a]] by (auto simp: find_none)
  then show ?case
    by (auto simp: read_model_find fun_eq_iff find_append split: option.splits)
next
  case (5 s i u e s')
  then show ?case
    using patch_model_Inl by (simp add: read_model_find fun_eq_iff)
next
  case (4 s i u r s')
  then show ?case
    using patch_model_Inr [OF 4(2)] find_replace [of r i "a_rows s"] by (simp add: read_model_find fun_eq_iff)
next
  case (6 s i d s')
  then show ?case
    using remove_model_Inr [OF 6(2)] by (simp add: read_model_find fun_eq_iff find_delete)
next
  case (7 s i e s')
  then show ?case
    using remove_model_Inl by blast
next
  case (3 s a e s')
  then show ?case
    using post_model_Inl by blast
qed (use post_model_wf patch_model_wf remove_model_wf in \<open>auto split: prod.splits\<close>)

text \<open>
  C17: the model endpoints are a keyed table: after any sequence of create, patch and delete requests
  the table is well formed and reads back as the old contents with the successful requests' changes
  applied in order; failed requests change no row.
\<close>

theorem models_admin_refines_table:
  assumes "wf_table (a_rows st)"
    and "crud_run e_id post_model patch_model remove_model ops st = (cs, st')"
  shows "wf_table (a_rows st') \<and> read_model st' = fold apply_change cs (read_model st)"
  using assms by (rule models_table.run_refines)

definition example_api :: models_api where
  "example_api = \<lparr>a_rows = example_table, a_catalog = example_catalog\<rparr>"

lemma example_api_wf: "wf_table (a_rows example_api)"
  by (simp add: example_api_def example_table_wf)

lemma example_api_run:
  "\<exists>st'. crud_run e_id post_model patch_model remove_model [Delete ''1'', Delete ''1''] example_api =
     ([Drop ''1''], st')"
  by (simp add: remove_model_def delete_model_def get_model_def example_api_def example_table_def
      example_entry_def split: prod.splits)

theorem models_admin_refines_table_witness:
  "\<exists>st'. crud_run e_id post_model patch_model remove_model [Delete ''1'', Delete ''1''] example_api =
     ([Drop ''1''], st') \<and> read_model st' ''1'' = None \<and> read_model st' ''2'' = read_model example_api ''2''"
proof -
  obtain st' where run: "crud_run e_id post_model patch_model remove_model [Delete ''1'', Delete ''1'']
      example_api = ([Drop ''1''], st')"
    using example_api_run by blast
  then show ?thesis
    using models_admin_refines_table [OF example_api_wf run] by simp
qed

lemma refresh_synced: "wf_table rows \<Longrightarrow> synced rows (trigger_catalog_refresh rows c)"
  by (simp add: trigger_catalog_refresh_def load_from_db_wf synced_wf)

lemma patch_model_not_null:
  assumes "patch_model i body st = (Inl err, st')" "wf_table (a_rows st)" "\<not> sends_null_capabilities body"
  shows "st' = st"
proof -
  have "e_capabilities e \<noteq> None" if "validate_update body = Inr u"
    "update_model i u (a_rows st) = (Inr e, rows')" for u e rows'
  proof -
    have "wf_table rows'"
      using update_model_wf [OF that(1), of "a_rows st" i] validate_update_null [OF that(1)] that(2) assms
      by simp
    moreover have "e \<in> set rows'"
      using update_model_Inr [OF that(2)] get_model_Inr by fastforce
    ultimately show ?thesis
      by (auto simp: wf_table_def wf_entry_def split: option.splits)
  qed
  then show ?thesis
    using assms(1) by (fastforce simp: patch_model_def respond_cases split: sum.splits prod.splits if_splits)
qed

lemma step_synced:
  assumes "wf_table (a_rows st)" "synced (a_rows st) (a_catalog st)"
    and "\<forall>i u. op = Update i u \<longrightarrow> \<not> sends_null_capabilities u"
  shows "synced (a_rows (snd (crud_step e_id post_model patch_model remove_model op st)))
    (a_catalog (snd (crud_step e_id post_model patch_model remove_model op st)))"
proof -
  let ?s = "snd (crud_step e_id post_model patch_model remove_model op st)"
  have wf: "wf_table (a_rows ?s)"
    using models_table.step_inv [OF assms(1)] .
  have "?s = st \<or> a_catalog ?s = trigger_catalog_refresh (a_rows ?s) (a_catalog st)"
  proof (cases op)
    case (Create a)
    obtain i body where a: "a = (i, body)" by (cases a) auto
    obtain res st' where post: "post_model (i, body) st = (res, st')" by (meson surj_pair)
    then show ?thesis
      unfolding Create a snd_crud_step using post_model_Inr post_model_Inl by (cases res) force+
  next
    case (Update i u)
    have nn: "\<not> sends_null_capabilities u" using assms(3) Update by simp
    obtain res st' where patch: "patch_model i u st = (res, st')" by (meson surj_pair)
    then show ?thesis
      unfolding Update snd_crud_step
      using patch_model_Inr patch_model_not_null [OF _ assms(1) nn] by (cases res) force+
  next
    case (Delete i)
    obtain res st' where remove: "remove_model i st = (res, st')" by (meson surj_pair)
    then show ?thesis
      unfolding Delete snd_crud_step using remove_model_Inr remove_model_Inl by (cases res) force+
  qed
  then show ?thesis
    using assms(2) refresh_synced [OF wf] by auto
qed

text \<open>
  C26: routing never sees stale model data after an administrative request: as long as no PATCH sends
  null capabilities, every sequence of requests leaves the catalog equal to a fresh load of the table.
\<close>

theorem catalog_follows_admin:
  assumes "wf_table (a_rows st)" "synced (a_rows st) (a_catalog st)"
    and "\<forall>i u. Update i u \<in> set ops \<longrightarrow> \<not> sends_null_capabilities u"
    and "crud_run e_id post_model patch_model remove_model ops st = (cs, st')"
  shows "synced (a_rows st') (a_catalog st')"
  using assms
proof (induction ops arbitrary: st cs)
  case Nil
  then show ?case by simp
next
  case (Cons op ops)
  let ?s = "snd (crud_step e_id post_model patch_model remove_model op st)"
  obtain ds where run: "crud_run e_id post_model patch_model remove_model ops ?s = (ds, st')"
    using Cons.prems(4) by (auto simp: Let_def split: prod.splits)
  have "synced (a_rows ?s) (a_catalog ?s)"
    using Cons.prems by (intro step_synced) auto
  then show ?case
    using Cons.IH [OF models_table.step_inv [OF Cons.prems(1)] _ _ run] Cons.prems(3) by auto
qed

theorem catalog_follows_admin_witness:
  "\<exists>st'. crud_run e_id post_model patch_model remove_model [Delete ''1'', Delete ''1''] example_api =
     ([Drop ''1''], st') \<and> synced (a_rows st') (a_catalog st')"
proof -
  obtain st' where run: "crud_run e_id post_model patch_model remove_model [Delete ''1'', Delete ''1'']
      example_api = ([Drop ''1''], st')"
    using example_api_run by blast
  have "synced (a_rows example_api) (a_catalog example_api)"
    by (simp add: example_api_def example_catalog_synced)
  with run show ?thesis
    using catalog_follows_admin [OF example_api_wf _ _ run] by simp
qed

definition null_disable :: registry_update where
  "null_disable = \<lparr>u_display_name = None, u_input_cost_per_1k = None, u_output_cost_per_1k = None,
     u_capabilities = Some None, u_context_window = None, u_baseline_latency_ms = None,
     u_enabled = Some (Some False)\<rparr>"

text \<open>
  The exception to C16. A PATCH of an enabled model that sends null capabilities and disables it is
  answered with an error and changes no row, yet the model is gone from the catalog: the refresh ran
  on rows that were then rolled back.
\<close>

theorem null_patch_desyncs_catalog:
  assumes "wf_table (a_rows st)" "e \<in> set (a_rows st)" "e_enabled e"
  shows "\<exists>err st'. patch_model (e_id e) null_disable st = (Inl err, st') \<and> a_rows st' = a_rows st \<and>
    entry_key e \<notin> fst ` set (c_catalog (a_catalog st')) \<and> \<not> synced (a_rows st') (a_catalog st')"
proof -
  let ?rows = "a_rows st" and ?e' = "e\<lparr>e_capabilities := None, e_enabled := False\<rparr>"
  let ?rows' = "map (\<lambda>r. if e_id r = e_id e then ?e' else r) ?rows"
  let ?rest = "filter (\<lambda>r. e_id r \<noteq> e_id e) ?rows"
  have get: "get_model (e_id e) ?rows = Inr e"
    using assms(1,2) by (simp add: get_model_mem wf_table_def)
  have upd: "update_model (e_id e) null_disable ?rows = (Inr ?e', ?rows')"
    by (simp add: update_model_def get apply_update_def null_disable_def set_field_def set_nullable_def)
  have "filter e_enabled (map (\<lambda>r. if e_id r = e_id e then ?e' else r) xs) =
      filter e_enabled (filter (\<lambda>r. e_id r \<noteq> e_id e) xs)" for xs
    by (induction xs) auto
  then have same: "get_all_for_catalog ?rows' = get_all_for_catalog ?rest"
    by (simp add: get_all_for_catalog_def list_models_def Let_def)
  have rest: "wf_table ?rest"
    using assms(1) by (rule wf_table_filter)
  define c' where "c' = trigger_catalog_refresh ?rows' (a_catalog st)"
  have c': "c_catalog c' = map (\<lambda>e. (entry_key e, row_metadata e)) (get_all_for_catalog ?rest)"
    using load_from_db_wf [OF rest, of "a_catalog st"]
    by (simp add: c'_def trigger_catalog_refresh_def load_from_db_def same split: sum.splits)
  have gone: "entry_key e \<notin> fst ` set (c_catalog c')"
  proof
    assume "entry_key e \<in> fst ` set (c_catalog c')"
    then obtain r where r: "r \<in> set ?rows" "e_id r \<noteq> e_id e" "entry_key e = entry_key r"
      unfolding c' loaded_keys [OF rest] by auto
    then have "row_key e = row_key r"
      using assms(1,2) entry_key_inj by (auto simp: wf_table_def)
    then have "r = e"
      using assms(1,2) r(1) by (auto simp: wf_table_def distinct_map inj_on_def)
    with r(2) show False by simp
  qed
  then have "\<not> synced ?rows c'"
    using assms loaded_keys [OF assms(1)] by (auto simp: synced_wf)
  moreover have "patch_model (e_id e) null_disable st =
      (Inl (Exn ValueErrorC ''ModelRegistryResponse.capabilities''), st\<lparr>a_catalog := c'\<rparr>)"
    using upd by (simp add: patch_model_def validate_update_def null_disable_def opt_ok_def
        respond_cases c'_def)
  ultimately show ?thesis
    using gone by simp
qed

theorem null_patch_desyncs_catalog_witness:
  "\<exists>err st'. patch_model ''2'' null_disable example_api = (Inl err, st') \<and>
     \<not> synced (a_rows st') (a_catalog st')"
  using null_patch_desyncs_catalog [OF example_api_wf, of "example_entry ''2'' ''groq'' ''m1''"]
  by (auto simp: example_api_def example_table_def example_entry_def)

end
