(* ===== verification/Keyed.thy ===== *)
theory Keyed
  imports Prelude
begin

text \<open>
  The interface of the gateway's in-memory per-key state (circuit breakers per provider, runtime
  statistics per provider and model): a store of cells addressed by a normalised key, created on
  first use, where an operation acts on one cell. The laws say that an operation is seen by every
  name that normalises to the same key and by no other; the lemmas lift this to any sequence of
  operations: the store projects to independent cells.
\<close>

locale keyed_cells =
  fixes key :: "'k \<Rightarrow> 'n"
    and cell :: "'s \<Rightarrow> 'k \<Rightarrow> 'c"
    and upd :: "('c \<Rightarrow> 'r \<times> 'c) \<Rightarrow> 'k \<Rightarrow> 's \<Rightarrow> 'r \<times> 's"
  assumes cell_upd: "cell (snd (upd f k s)) j = (if key j = key k then snd (f (cell s k)) else cell s j)"
    and result_upd: "fst (upd f k s) = fst (f (cell s k))"
    and cell_key: "key j = key k \<Longrightarrow> cell s j = cell s k"
begin

lemma cell_upd_same: "cell (snd (upd f k s)) k = snd (f (cell s k))"
  by (simp add: cell_upd)

lemma cell_upd_other: "key j \<noteq> key k \<Longrightarrow> cell (snd (upd f k s)) j = cell s j"
  by (simp add: cell_upd)

text \<open>A run of operations, and its projection to the cell of one name.\<close>

lemma cell_run:
  "cell (fold (\<lambda>(k, f) s. snd (upd f k s)) ops s) j =
     fold (\<lambda>(k, f) c. if key k = key j then snd (f c) else c) ops (cell s j)"
proof (induction ops arbitrary: s)
  case Nil
  then show ?case by simp
next
  case (Cons op ops)
  obtain k f where op: "op = (k, f)" by (cases op)
  have "cell (snd (upd f k s)) j = (if key k = key j then snd (f (cell s j)) else cell s j)"
    using cell_key [of j k s] by (simp add: cell_upd eq_commute)
  with Cons show ?case
    by (simp add: op)
qed

lemma cell_run_other:
  assumes "\<forall>(k, f) \<in> set ops. key k \<noteq> key j"
  shows "cell (fold (\<lambda>(k, f) s. snd (upd f k s)) ops s) j = cell s j"
  using assms
proof (induction ops arbitrary: s)
  case Nil
  then show ?case by simp
next
  case (Cons op ops)
  then show ?case by (cases op) (auto simp: cell_upd)
qed

lemma cell_run_inv:
  assumes "I (cell s j)" and "\<And>k f c. (k, f) \<in> set ops \<Longrightarrow> I c \<Longrightarrow> I (snd (f c))"
  shows "I (cell (fold (\<lambda>(k, f) s. snd (upd f k s)) ops s) j)"
  using assms
proof (induction ops arbitrary: s)
  case Nil
  then show ?case by simp
next
  case (Cons op ops)
  obtain k f where op: "op = (k, f)" by (cases op)
  have "I (snd (f (cell s j)))"
    using Cons.prems(1) Cons.prems(2) [of k f "cell s j"] op by simp
  then have "I (cell (snd (upd f k s)) j)"
    using Cons.prems(1) cell_key [of j k s] by (auto simp: cell_upd)
  with Cons op show ?case by auto
qed

end

end
