(* ===== verification/Stats.thy ===== *)
theory Stats
  imports Keyed
begin

text \<open>
  Runtime statistics (\<open>app/routing/stats.py\<close>): \<open>ModelStats\<close> with its two bounded windows, and the
  \<open>ProviderStatsTracker\<close> that keeps one per normalised (provider, model) pair. A
  \<open>deque(maxlen=50)\<close> is a list that keeps its last 50 elements.
\<close>

section \<open>One model\<close>

record model_stats =
  ms_provider :: string
  ms_model :: string
  total_requests :: nat
  successful_requests :: nat
  failed_requests :: nat
  last_latency_ms :: "real option"
  average_latency_ms :: "real option"
  recent_outcomes :: "bool list"
  recent_latencies :: "real list"

definition new_stats :: "string \<Rightarrow> string \<Rightarrow> model_stats" where
  "new_stats p m = \<lparr>ms_provider = p, ms_model = m, total_requests = 0, successful_requests = 0,
     failed_requests = 0, last_latency_ms = None, average_latency_ms = None, recent_outcomes = [],
     recent_latencies = []\<rparr>"

definition last_n :: "nat \<Rightarrow> 'a list \<Rightarrow> 'a list" where
  "last_n n xs = drop (length xs - n) xs"

definition window :: nat where
  "window = 50"

definition deque_append :: "'a \<Rightarrow> 'a list \<Rightarrow> 'a list" where
  "deque_append x xs = last_n window (xs @ [x])"

definition success_rate :: "model_stats \<Rightarrow> real" where
  "success_rate s =
     (if recent_outcomes s = [] then 1
      else real (length (filter (\<lambda>x. x) (recent_outcomes s))) / real (length (recent_outcomes s)))"

definition latency_ms :: "model_stats \<Rightarrow> real option" where
  "latency_ms s =
     (if recent_latencies s \<noteq> []
      then Some (sum_list (recent_latencies s) / real (length (recent_latencies s)))
      else last_latency_ms s)"

definition stats_success :: "real \<Rightarrow> model_stats \<Rightarrow> model_stats" where
  "stats_success lat s = s\<lparr>total_requests := total_requests s + 1,
     successful_requests := successful_requests s + 1, last_latency_ms := Some lat,
     recent_outcomes := deque_append True (recent_outcomes s),
     recent_latencies := deque_append lat (recent_latencies s),
     average_latency_ms := Some (case average_latency_ms s of None \<Rightarrow> lat
       | Some avg \<Rightarrow> 2 / 10 * lat + 8 / 10 * avg)\<rparr>"

definition stats_failure :: "model_stats \<Rightarrow> model_stats" where
  "stats_failure s = s\<lparr>total_requests := total_requests s + 1, failed_requests := failed_requests s + 1,
     recent_outcomes := deque_append False (recent_outcomes s)\<rparr>"

section \<open>The tracker\<close>

type_synonym stats_tracker = "string \<times> string \<Rightarrow> model_stats option"

definition stats_key :: "string \<times> string \<Rightarrow> string \<times> string" where
  "stats_key = (\<lambda>(p, m). (strip (lower p), strip m))"

definition get_or_create :: "string \<times> string \<Rightarrow> stats_tracker \<Rightarrow> model_stats \<times> stats_tracker" where
  "get_or_create k t = (case t (stats_key k) of
     Some s \<Rightarrow> (s, t)
   | None \<Rightarrow> (let s = new_stats (fst (stats_key k)) (snd (stats_key k)) in (s, t(stats_key k \<mapsto> s))))"

definition on_stats ::
  "(model_stats \<Rightarrow> unit \<times> model_stats) \<Rightarrow> string \<times> string \<Rightarrow> stats_tracker \<Rightarrow> unit \<times> stats_tracker" where
  "on_stats f k t = (let (s, t) = get_or_create k t; (r, s') = f s in (r, t(stats_key k \<mapsto> s')))"

definition tracker_success :: "string \<Rightarrow> string \<Rightarrow> real \<Rightarrow> stats_tracker \<Rightarrow> stats_tracker" where
  "tracker_success p m lat t = snd (on_stats (\<lambda>s. ((), stats_success lat s)) (p, m) t)"

definition tracker_failure :: "string \<Rightarrow> string \<Rightarrow> stats_tracker \<Rightarrow> stats_tracker" where
  "tracker_failure p m t = snd (on_stats (\<lambda>s. ((), stats_failure s)) (p, m) t)"

definition get_stats :: "string \<Rightarrow> string \<Rightarrow> stats_tracker \<Rightarrow> model_stats option" where
  "get_stats p m t = t (stats_key (p, m))"

definition tracker_reset :: "stats_tracker \<Rightarrow> stats_tracker" where
  "tracker_reset t = (\<lambda>k. None)"

section \<open>What the windows hold\<close>

datatype outcome = Succeeded real | Failed

fun apply_outcome :: "outcome \<Rightarrow> model_stats \<Rightarrow> model_stats" where
  "apply_outcome (Succeeded lat) s = stats_success lat s"
| "apply_outcome Failed s = stats_failure s"

fun is_success :: "outcome \<Rightarrow> bool" where
  "is_success (Succeeded lat) = True"
| "is_success Failed = False"

fun latencies_of :: "outcome list \<Rightarrow> real list" where
  "latencies_of [] = []"
| "latencies_of (Succeeded lat # xs) = lat # latencies_of xs"
| "latencies_of (Failed # xs) = latencies_of xs"

lemma last_n_append: "last_n n (last_n n xs @ [x]) = last_n n (xs @ [x])"
  by (cases "length xs \<le> n") (auto simp: last_n_def Suc_diff_le)

lemma last_n_Nil_iff [simp]: "0 < n \<Longrightarrow> last_n n xs = [] \<longleftrightarrow> xs = []"
  by (cases xs) (auto simp: last_n_def)

lemma last_n_length [simp]: "length (last_n n xs) = min n (length xs)"
  by (simp add: last_n_def)

lemma last_n_subset: "set (last_n n xs) \<subseteq> set xs"
  by (simp add: last_n_def set_drop_subset)

lemma latencies_of_append: "latencies_of (xs @ ys) = latencies_of xs @ latencies_of ys"
  by (induction xs rule: latencies_of.induct) auto

abbreviation stats_of :: "string \<Rightarrow> string \<Rightarrow> outcome list \<Rightarrow> model_stats" where
  "stats_of p m xs \<equiv> fold apply_outcome xs (new_stats p m)"

lemma run_windows:
  "recent_outcomes (stats_of p m xs) = last_n window (map is_success xs) \<and>
    recent_latencies (stats_of p m xs) = last_n window (latencies_of xs) \<and>
    total_requests (stats_of p m xs) = length xs \<and>
    successful_requests (stats_of p m xs) = length (filter is_success xs) \<and>
    failed_requests (stats_of p m xs) = length (filter (\<lambda>x. \<not> is_success x) xs) \<and>
    last_latency_ms (stats_of p m xs) =
      (if latencies_of xs = [] then None else Some (last (latencies_of xs)))"
proof (induction xs rule: rev_induct)
  case Nil
  then show ?case by (simp add: new_stats_def last_n_def)
next
  case (snoc x xs)
  then show ?case
    by (cases x) (simp_all add: stats_success_def stats_failure_def deque_append_def last_n_append
        latencies_of_append)
qed

lemma filter_True_le: "length (filter (\<lambda>x. x) xs) \<le> length xs"
  by simp

lemma success_rate_bounds [bounds]: "0 \<le> success_rate s \<and> success_rate s \<le> 1"
  using filter_True_le [of "recent_outcomes s"] by (auto simp: success_rate_def divide_le_eq_1)

text \<open>
  After any sequence of recorded outcomes the statistics are those of the sequence: the counters
  count all of it, the success rate is the share of successes among its last 50 outcomes, and the
  latency is the mean of the last 50 successful latencies.
\<close>

theorem stats_follow_outcomes:
  "total_requests (stats_of p m xs) = length xs \<and>
   successful_requests (stats_of p m xs) + failed_requests (stats_of p m xs) = length xs \<and>
   success_rate (stats_of p m xs) =
     (let os = last_n 50 (map is_success xs) in
      if os = [] then 1 else real (length (filter (\<lambda>x. x) os)) / real (length os)) \<and>
   latency_ms (stats_of p m xs) =
     (let ls = last_n 50 (latencies_of xs) in
      if ls = [] then None else Some (sum_list ls / real (length ls)))"
proof -
  have "length (filter is_success xs) + length (filter (\<lambda>x. \<not> is_success x) xs) = length xs"
    by (rule sum_length_filter_compl)
  then show ?thesis
    using run_windows [of xs p m] by (simp add: success_rate_def latency_ms_def window_def Let_def)
qed

text \<open>Averages stay within the range of the recorded latencies.\<close>

lemma mean_between:
  assumes "xs \<noteq> []" "\<forall>x \<in> set xs. lo \<le> x \<and> x \<le> hi"
  shows "lo \<le> sum_list xs / real (length xs) \<and> sum_list xs / real (length xs) \<le> hi"
proof -
  have "real (length xs) * lo \<le> sum_list xs \<and> sum_list xs \<le> real (length xs) * hi"
    using assms(2) by (induction xs) (auto simp: algebra_simps)
  moreover have "0 < real (length xs)"
    using assms(1) by simp
  ultimately show ?thesis
    by (simp add: field_simps)
qed

lemma average_between:
  assumes "\<forall>x \<in> set (latencies_of xs). lo \<le> x \<and> x \<le> hi"
  shows "case average_latency_ms (stats_of p m xs) of
    None \<Rightarrow> latencies_of xs = [] | Some avg \<Rightarrow> lo \<le> avg \<and> avg \<le> hi"
  using assms
proof (induction xs rule: rev_induct)
  case Nil
  then show ?case by (simp add: new_stats_def)
next
  case (snoc x xs)
  then show ?case
    by (cases x) (auto simp: latencies_of_append stats_success_def stats_failure_def split: option.splits)
qed

text \<open>
  Both latency estimates of a model, the windowed mean and the moving average, stay between the
  smallest and the largest latency recorded.
\<close>

theorem latency_estimates_between:
  assumes "\<forall>x \<in> set (latencies_of xs). lo \<le> x \<and> x \<le> hi" "latencies_of xs \<noteq> []"
  shows "\<exists>l avg. latency_ms (stats_of p m xs) = Some l \<and>
    average_latency_ms (stats_of p m xs) = Some avg \<and>
    lo \<le> l \<and> l \<le> hi \<and> lo \<le> avg \<and> avg \<le> hi"
proof -
  have win: "recent_latencies (stats_of p m xs) = last_n window (latencies_of xs)"
    using run_windows [of xs p m] by blast
  have ne: "last_n window (latencies_of xs) \<noteq> []"
    using assms(2) by (simp add: window_def)
  have "\<forall>x \<in> set (last_n window (latencies_of xs)). lo \<le> x \<and> x \<le> hi"
    using assms(1) last_n_subset [of window "latencies_of xs"] by (meson subsetD)
  note mean = mean_between [OF ne this]
  obtain avg where "average_latency_ms (stats_of p m xs) = Some avg" "lo \<le> avg" "avg \<le> hi"
    using average_between [OF assms(1), of p m] assms(2) by (auto split: option.splits)
  then show ?thesis
    using mean ne by (simp add: latency_ms_def win)
qed

theorem latency_estimates_between_witness:
  "\<exists>l avg. latency_ms (stats_of ''groq'' ''m'' [Succeeded 10, Failed, Succeeded 30]) = Some l \<and>
    average_latency_ms (stats_of ''groq'' ''m'' [Succeeded 10, Failed, Succeeded 30]) = Some avg \<and>
    10 \<le> l \<and> l \<le> 30 \<and> 10 \<le> avg \<and> avg \<le> 30"
  by (rule latency_estimates_between) auto

section \<open>The tracker as a store of cells\<close>

definition stats_at :: "stats_tracker \<Rightarrow> string \<times> string \<Rightarrow> model_stats" where
  "stats_at t k = fst (get_or_create k t)"

interpretation tracker_cells: keyed_cells stats_key stats_at on_stats
proof
  fix f :: "model_stats \<Rightarrow> unit \<times> model_stats" and k j t
  show "stats_at (snd (on_stats f k t)) j =
      (if stats_key j = stats_key k then snd (f (stats_at t k)) else stats_at t j)"
    by (auto simp: stats_at_def on_stats_def get_or_create_def Let_def split: option.splits prod.splits)
  show "fst (on_stats f k t) = fst (f (stats_at t k))"
    by (auto simp: stats_at_def on_stats_def Let_def split: prod.splits)
next
  fix j k t
  assume "stats_key j = stats_key k"
  then show "stats_at t j = stats_at t k"
    by (simp add: stats_at_def get_or_create_def Let_def split: option.splits)
qed

definition record_outcome :: "(string \<times> string) \<times> outcome \<Rightarrow> stats_tracker \<Rightarrow> stats_tracker" where
  "record_outcome = (\<lambda>((p, m), x) t. case x of
     Succeeded lat \<Rightarrow> tracker_success p m lat t | Failed \<Rightarrow> tracker_failure p m t)"

lemma record_outcome_cell: "record_outcome (k, x) t = snd (on_stats (\<lambda>s. ((), apply_outcome x s)) k t)"
  by (cases k; cases x) (simp_all add: record_outcome_def tracker_success_def tracker_failure_def)

lemma fold_record_outcome:
  "fold record_outcome xs t =
     fold (\<lambda>(k, f) t. snd (on_stats f k t)) (map (\<lambda>(k, x). (k, \<lambda>s. ((), apply_outcome x s))) xs) t"
  by (induction xs arbitrary: t) (auto simp: record_outcome_cell)

lemma fold_cell_filter:
  "fold (\<lambda>(k, f) c. if K k then snd (f c) else c) (map (\<lambda>(k, x). (k, \<lambda>s. ((), apply_outcome x s))) xs) s =
     fold apply_outcome (map snd (filter (\<lambda>(k, x). K k) xs)) s"
  by (induction xs arbitrary: s) auto

text \<open>
  The tracker isolates models: after any interleaving of outcomes of all models, a model's
  statistics are those of its own outcomes in order, under whatever spelling of its name.
\<close>

theorem tracker_isolates_models:
  "stats_at (fold record_outcome xs (\<lambda>k. None)) (p, m) =
     fold apply_outcome (map snd (filter (\<lambda>(k, x). stats_key k = stats_key (p, m)) xs))
       (new_stats (strip (lower p)) (strip m))"
  using tracker_cells.cell_run [of "map (\<lambda>(k, x). (k, \<lambda>s. ((), apply_outcome x s))) xs" "\<lambda>k. None" "(p, m)"]
  by (simp add: fold_record_outcome fold_cell_filter stats_at_def get_or_create_def stats_key_def Let_def)

end
