(* ===== verification/Scorer.thy ===== *)
theory Scorer
  imports Stats "HOL-Library.Multiset"
begin

text \<open>
  The scoring engine (\<open>app/routing/scorer.py\<close>) with the candidate of \<open>app/routing/models.py\<close> and the
  weight profiles of \<open>app/routing/policies.py\<close>; and the interface of a ranking, which the router and
  the failover selector use: a permutation of the pool, sorted by a key, independent of the order of
  the pool.
\<close>

section \<open>Rankings\<close>

locale ranking =
  fixes rank :: "'a list \<Rightarrow> 's list" and item :: "'s \<Rightarrow> 'a" and key :: "'s \<Rightarrow> 'k::linorder"
  assumes items: "mset (map item (rank xs)) = mset xs"
    and ranked: "sorted (map key (rank xs))"
    and pool: "mset xs = mset ys \<Longrightarrow> mset (rank xs) = mset (rank ys)"
begin

lemma rank_Nil_iff: "rank xs = [] \<longleftrightarrow> xs = []"
  by (metis items mset_zero_iff map_is_Nil_conv)

lemma item_mem: "s \<in> set (rank xs) \<Longrightarrow> item s \<in> set xs"
  by (metis (no_types, lifting) image_eqI items list.set_map mset_eq_setD)

lemma mem_item: "x \<in> set xs \<Longrightarrow> \<exists>s \<in> set (rank xs). item s = x"
  by (metis (no_types, lifting) imageE items list.set_map mset_eq_setD)

lemma best_mem: "xs \<noteq> [] \<Longrightarrow> hd (rank xs) \<in> set (rank xs) \<and> item (hd (rank xs)) \<in> set xs"
  using rank_Nil_iff item_mem by (metis hd_in_set)

lemma best_least: "s \<in> set (rank xs) \<Longrightarrow> key (hd (rank xs)) \<le> key s"
  using ranked [of xs] by (cases "rank xs") auto

text \<open>With pairwise different keys the ranking does not depend on the order of the pool.\<close>

lemma order_irrelevant:
  assumes "mset xs = mset ys" "inj_on key (set (rank xs))" "distinct (rank xs)"
  shows "rank xs = rank ys"
proof -
  have eq: "mset (rank xs) = mset (rank ys)"
    using assms(1) by (rule pool)
  then have "set (rank xs) = set (rank ys)" "distinct (rank ys)"
    using assms(3) by (metis set_mset_mset) (metis eq assms(3) mset_eq_imp_distinct_iff)
  then show ?thesis
    using assms(2,3) ranked
    by (intro map_sorted_distinct_set_unique [of key]) (auto simp: distinct_map)
qed

end

section \<open>Candidates and weights\<close>

record routing_candidate =
  rc_provider :: string
  rc_model :: string
  rc_capabilities :: "string list"
  rc_context_window :: int
  rc_cost_per_1k_tokens :: real
  rc_is_healthy :: bool
  rc_baseline_latency_ms :: real
  rc_runtime_latency_ms :: "real option"
  rc_runtime_success_rate :: real
  rc_total_requests :: nat

definition effective_latency_ms :: "routing_candidate \<Rightarrow> real" where
  "effective_latency_ms c = (case rc_runtime_latency_ms c of
     Some l \<Rightarrow> if l > 0 then l else rc_baseline_latency_ms c
   | None \<Rightarrow> rc_baseline_latency_ms c)"

record policy_weights =
  health_weight :: real
  success_rate_weight :: real
  latency_weight :: real
  cost_weight :: real

definition weights :: "real \<Rightarrow> real \<Rightarrow> real \<Rightarrow> real \<Rightarrow> policy_weights" where
  "weights h s l c = \<lparr>health_weight = h, success_rate_weight = s, latency_weight = l, cost_weight = c\<rparr>"

definition policy_weights_table :: "(string \<times> policy_weights) list" where
  "policy_weights_table =
    [(''auto'', weights (30/100) (30/100) (20/100) (20/100)),
     (''lowest_cost'', weights (15/100) (15/100) (10/100) (60/100)),
     (''lowest_latency'', weights (15/100) (15/100) (60/100) (10/100)),
     (''best_available'', weights (40/100) (40/100) (10/100) (10/100)),
     (''capability_based'', weights (30/100) (30/100) (20/100) (20/100)),
     (''manual'', weights (25/100) (25/100) (25/100) (25/100))]"

text \<open>\<open>RoutingPolicyRegistry\<close> with its optional weights for the mode auto.\<close>

definition get_weights :: "policy_weights option \<Rightarrow> string \<Rightarrow> policy_weights" where
  "get_weights default_auto mode =
     (let auto = (case default_auto of Some w \<Rightarrow> w | None \<Rightarrow> weights (30/100) (30/100) (20/100) (20/100))
      in if mode = ''auto'' then auto
         else case map_of policy_weights_table mode of Some w \<Rightarrow> w | None \<Rightarrow> auto)"

section \<open>Scoring\<close>

definition normalize_weights :: "policy_weights \<Rightarrow> policy_weights" where
  "normalize_weights w =
     (let total = health_weight w + success_rate_weight w + latency_weight w + cost_weight w in
      if total \<le> 0 then weights (1/4) (1/4) (1/4) (1/4)
      else weights (health_weight w / total) (success_rate_weight w / total)
             (latency_weight w / total) (cost_weight w / total))"

record scored_candidate =
  sc_candidate :: routing_candidate
  sc_total_score :: real
  sc_breakdown :: "(string \<times> real) list"

definition clamp :: "real \<Rightarrow> real" where
  "clamp x = max 0 (min 1 x)"

definition latency_score :: "real \<Rightarrow> real \<Rightarrow> real \<Rightarrow> real" where
  "latency_score min_lat max_lat c_lat =
     (if max_lat = min_lat then 1 else if c_lat > 0 then min_lat / c_lat else 1)"

definition cost_score :: "real \<Rightarrow> real \<Rightarrow> real \<Rightarrow> real \<Rightarrow> real" where
  "cost_score min_cost max_cost min_paid c_cost =
     (if max_cost = min_cost \<or> c_cost = 0 then 1
      else if min_cost = 0 \<and> min_paid > 0 then max (5/100) (75/100 * (min_paid / c_cost))
      else if min_cost > 0 then min_cost / c_cost
      else 1)"

record pool_bounds =
  pb_min_lat :: real
  pb_max_lat :: real
  pb_min_cost :: real
  pb_max_cost :: real
  pb_min_paid_cost :: real

definition pool_bounds_of :: "routing_candidate list \<Rightarrow> pool_bounds" where
  "pool_bounds_of cs =
     (let latencies = map effective_latency_ms cs; costs = map rc_cost_per_1k_tokens cs;
          paid = filter (\<lambda>c. c > 0) costs in
      \<lparr>pb_min_lat = Min (set latencies), pb_max_lat = Max (set latencies),
       pb_min_cost = Min (set costs), pb_max_cost = Max (set costs),
       pb_min_paid_cost = (if paid = [] then 0 else Min (set paid))\<rparr>)"

definition score_one :: "policy_weights \<Rightarrow> pool_bounds \<Rightarrow> routing_candidate \<Rightarrow> scored_candidate" where
  "score_one w b c =
     (let h = (if rc_is_healthy c then 1 else 0);
          s = clamp (rc_runtime_success_rate c);
          l = latency_score (pb_min_lat b) (pb_max_lat b) (effective_latency_ms c);
          k = cost_score (pb_min_cost b) (pb_max_cost b) (pb_min_paid_cost b) (rc_cost_per_1k_tokens c);
          total = clamp (h * health_weight w + s * success_rate_weight w + l * latency_weight w +
                    k * cost_weight w)
      in \<lparr>sc_candidate = c, sc_total_score = py_round total 4,
          sc_breakdown = [(''health'', py_round h 4), (''success_rate'', py_round s 4),
            (''latency'', py_round l 4), (''cost'', py_round k 4)]\<rparr>)"

definition rank_key ::
  "scored_candidate \<Rightarrow> real \<times> int \<times> real \<times> real \<times> real \<times> string \<times> string" where
  "rank_key sc = (let c = sc_candidate sc in
     (- sc_total_score sc, - (if rc_is_healthy c then 1 else 0), - rc_runtime_success_rate c,
      effective_latency_ms c, rc_cost_per_1k_tokens c, rc_provider c, rc_model c))"

definition score_candidates :: "policy_weights \<Rightarrow> routing_candidate list \<Rightarrow> scored_candidate list" where
  "score_candidates w cs =
     (if cs = [] then []
      else sort_key rank_key (map (score_one (normalize_weights w) (pool_bounds_of cs)) cs))"

section \<open>Facts\<close>

lemma sc_candidate_score_one [simp]: "sc_candidate (score_one w b c) = c"
  by (simp add: score_one_def Let_def)

lemma pool_bounds_mset:
  assumes "mset xs = mset ys"
  shows "pool_bounds_of xs = pool_bounds_of ys"
proof -
  have "set xs = set ys"
    using assms by (metis set_mset_mset)
  then show ?thesis
    by (auto simp: pool_bounds_of_def Let_def filter_empty_conv)
qed

interpretation scorer: ranking "score_candidates w" sc_candidate rank_key
proof
  fix xs
  show "mset (map sc_candidate (score_candidates w xs)) = mset xs"
    by (simp add: score_candidates_def multiset.map_comp comp_def)
  show "sorted (map rank_key (score_candidates w xs))"
    by (simp add: score_candidates_def)
next
  fix xs ys :: "routing_candidate list"
  assume "mset xs = mset ys"
  then show "mset (score_candidates w xs) = mset (score_candidates w ys)"
    using pool_bounds_mset [of xs ys] by (auto simp: score_candidates_def)
qed

lemma score_candidates_mem:
  "sc \<in> set (score_candidates w cs) \<longleftrightarrow>
     cs \<noteq> [] \<and> sc \<in> score_one (normalize_weights w) (pool_bounds_of cs) ` set cs"
  by (auto simp: score_candidates_def)

definition nonneg_weights :: "policy_weights \<Rightarrow> bool" where
  "nonneg_weights w = (0 \<le> health_weight w \<and> 0 \<le> success_rate_weight w \<and> 0 \<le> latency_weight w \<and>
     0 \<le> cost_weight w)"

lemma normalize_weights_sum:
  "health_weight (normalize_weights w) + success_rate_weight (normalize_weights w) +
   latency_weight (normalize_weights w) + cost_weight (normalize_weights w) = 1"
proof (cases "health_weight w + success_rate_weight w + latency_weight w + cost_weight w \<le> 0")
  case True
  then show ?thesis by (simp add: normalize_weights_def weights_def)
next
  case False
  then show ?thesis
    by (simp add: normalize_weights_def weights_def Let_def add_divide_distrib [symmetric])
qed

lemma normalize_weights_nonneg: "nonneg_weights w \<Longrightarrow> nonneg_weights (normalize_weights w)"
  by (simp add: nonneg_weights_def normalize_weights_def weights_def Let_def)

lemma clamp_bounds [bounds]: "0 \<le> clamp x" "clamp x \<le> 1"
  by (auto simp: clamp_def)

lemma score_one_bounds [bounds]:
  "0 \<le> sc_total_score (score_one w b c) \<and> sc_total_score (score_one w b c) \<le> 1"
  by (simp add: score_one_def Let_def py_round_nonneg py_round_le_1 clamp_bounds)

definition wf_candidate :: "routing_candidate \<Rightarrow> bool" where
  "wf_candidate c = (0 \<le> rc_cost_per_1k_tokens c \<and> 0 < rc_baseline_latency_ms c)"

lemma effective_latency_pos: "wf_candidate c \<Longrightarrow> 0 < effective_latency_ms c"
  by (simp add: wf_candidate_def effective_latency_ms_def split: option.splits)

text \<open>What the bounds of a pool say of its members.\<close>

definition within_pool :: "pool_bounds \<Rightarrow> routing_candidate \<Rightarrow> bool" where
  "within_pool b c = (0 < pb_min_lat b \<and> pb_min_lat b \<le> effective_latency_ms c \<and>
     0 \<le> pb_min_cost b \<and> pb_min_cost b \<le> rc_cost_per_1k_tokens c \<and>
     rc_cost_per_1k_tokens c \<le> pb_max_cost b \<and> 0 \<le> pb_min_paid_cost b \<and>
     (0 < rc_cost_per_1k_tokens c \<longrightarrow>
       0 < pb_min_paid_cost b \<and> pb_min_paid_cost b \<le> rc_cost_per_1k_tokens c))"

lemma pool_bounds_within:
  assumes "\<forall>c \<in> set cs. wf_candidate c" "c \<in> set cs"
  shows "within_pool (pool_bounds_of cs) c"
proof -
  let ?lats = "set (map effective_latency_ms cs)" and ?costs = "set (map rc_cost_per_1k_tokens cs)"
  let ?paid = "set (filter (\<lambda>c. c > 0) (map rc_cost_per_1k_tokens cs))"
  have mem: "effective_latency_ms c \<in> ?lats" "rc_cost_per_1k_tokens c \<in> ?costs"
    using assms(2) by auto
  have ne: "?lats \<noteq> {}" "?costs \<noteq> {}"
    using mem by (metis empty_iff)+
  have lat: "0 < Min ?lats" "Min ?lats \<le> effective_latency_ms c"
    using Min_in [OF _ ne(1)] effective_latency_pos assms(1) Min_le [OF _ mem(1)] by auto
  have cost: "0 \<le> Min ?costs" "Min ?costs \<le> rc_cost_per_1k_tokens c" "rc_cost_per_1k_tokens c \<le> Max ?costs"
    using Min_in [OF _ ne(2)] assms(1) Min_le [OF _ mem(2)] Max_ge [OF _ mem(2)]
    by (auto simp: wf_candidate_def)
  have paid_pos: "?paid \<noteq> {} \<Longrightarrow> 0 < Min ?paid"
    using Min_in [of ?paid] by auto
  have paid_le: "0 < rc_cost_per_1k_tokens c \<Longrightarrow> ?paid \<noteq> {} \<and> Min ?paid \<le> rc_cost_per_1k_tokens c"
    using mem(2) Min_le [of ?paid "rc_cost_per_1k_tokens c"] by auto
  show ?thesis
    using lat cost paid_pos paid_le
    by (auto simp: within_pool_def pool_bounds_of_def Let_def filter_empty_conv less_imp_le)
qed

lemma latency_score_bounds:
  "within_pool b c \<Longrightarrow> latency_score (pb_min_lat b) (pb_max_lat b) (effective_latency_ms c) \<in> {0..1}"
  by (auto simp: within_pool_def latency_score_def divide_le_eq_1)

lemma cost_score_bounds:
  assumes "within_pool b c"
  shows "cost_score (pb_min_cost b) (pb_max_cost b) (pb_min_paid_cost b) (rc_cost_per_1k_tokens c) \<in> {0..1}"
proof -
  have "75/100 * (pb_min_paid_cost b / rc_cost_per_1k_tokens c) \<le> 1"
    if "0 < rc_cost_per_1k_tokens c" "pb_min_paid_cost b \<le> rc_cost_per_1k_tokens c"
  proof -
    have "pb_min_paid_cost b / rc_cost_per_1k_tokens c \<le> 1"
      using that by (simp add: divide_le_eq_1)
    then show ?thesis by linarith
  qed
  with assms show ?thesis
    by (auto simp: within_pool_def cost_score_def divide_le_eq_1)
qed

lemma latency_score_antimono:
  assumes "within_pool b c" "within_pool b d" "effective_latency_ms c \<le> effective_latency_ms d"
  shows "latency_score (pb_min_lat b) (pb_max_lat b) (effective_latency_ms d) \<le>
    latency_score (pb_min_lat b) (pb_max_lat b) (effective_latency_ms c)"
  using assms by (auto simp: within_pool_def latency_score_def intro!: divide_left_mono mult_pos_pos)

lemma cost_score_antimono:
  assumes "within_pool b c" "within_pool b d" "rc_cost_per_1k_tokens c \<le> rc_cost_per_1k_tokens d"
  shows "cost_score (pb_min_cost b) (pb_max_cost b) (pb_min_paid_cost b) (rc_cost_per_1k_tokens d) \<le>
    cost_score (pb_min_cost b) (pb_max_cost b) (pb_min_paid_cost b) (rc_cost_per_1k_tokens c)"
proof (cases "rc_cost_per_1k_tokens c = 0")
  case True
  then show ?thesis
    using cost_score_bounds [OF assms(2)] by (simp add: cost_score_def)
next
  case False
  then have pos: "0 < rc_cost_per_1k_tokens c" "0 < rc_cost_per_1k_tokens d"
    using assms by (auto simp: within_pool_def)
  have "x / rc_cost_per_1k_tokens d \<le> x / rc_cost_per_1k_tokens c" if "0 \<le> x" for x
    using that pos assms(3) by (intro divide_left_mono) auto
  note div = this
  have nn: "0 \<le> pb_min_cost b" "0 \<le> pb_min_paid_cost b"
    using assms(1) by (auto simp: within_pool_def)
  have "max (5/100) (75/100 * (pb_min_paid_cost b / rc_cost_per_1k_tokens d)) \<le>
      max (5/100) (75/100 * (pb_min_paid_cost b / rc_cost_per_1k_tokens c))"
    by (intro max.mono mult_left_mono div nn) simp_all
  then show ?thesis
    using pos div [OF nn(1)] unfolding cost_score_def by (simp only: if_False less_imp_neq [symmetric] split: if_split) auto
qed

section \<open>What the ranking guarantees\<close>

definition raw_score :: "policy_weights \<Rightarrow> pool_bounds \<Rightarrow> routing_candidate \<Rightarrow> real" where
  "raw_score w b c =
     (if rc_is_healthy c then 1 else 0) * health_weight w +
     clamp (rc_runtime_success_rate c) * success_rate_weight w +
     latency_score (pb_min_lat b) (pb_max_lat b) (effective_latency_ms c) * latency_weight w +
     cost_score (pb_min_cost b) (pb_max_cost b) (pb_min_paid_cost b) (rc_cost_per_1k_tokens c) * cost_weight w"

lemma total_score_raw: "sc_total_score (score_one w b c) = py_round (clamp (raw_score w b c)) 4"
  by (simp add: score_one_def raw_score_def Let_def)

lemma convex_bounds:
  fixes h s l k :: real
  assumes "nonneg_weights w" "health_weight w + success_rate_weight w + latency_weight w + cost_weight w = 1"
    and "h \<in> {0..1}" "s \<in> {0..1}" "l \<in> {0..1}" "k \<in> {0..1}"
  shows "h * health_weight w + s * success_rate_weight w + l * latency_weight w + k * cost_weight w \<in> {0..1}"
proof -
  have "0 \<le> x * v \<and> x * v \<le> v" if "x \<in> {0..1}" "0 \<le> v" for x v :: real
    using that mult_right_mono [of x 1 v] by simp
  note this [OF assms(3)] this [OF assms(4)] this [OF assms(5)] this [OF assms(6)]
  then show ?thesis
    using assms(1,2) unfolding nonneg_weights_def atLeastAtMost_iff by (smt (verit))
qed

lemma raw_score_bounds:
  assumes "nonneg_weights w" "within_pool b c"
  shows "raw_score (normalize_weights w) b c \<in> {0..1}"
  unfolding raw_score_def
  by (rule convex_bounds [OF normalize_weights_nonneg [OF assms(1)] normalize_weights_sum])
    (use latency_score_bounds [OF assms(2)] cost_score_bounds [OF assms(2)] clamp_bounds in auto)

text \<open>
  A score is the convex combination of four factors in [0, 1], rounded to four decimals: it lies
  in [0, 1], the clamping never bites, and it differs from the exact combination by at most 1/20000.
\<close>

theorem scores_are_convex:
  assumes "\<forall>c \<in> set cs. wf_candidate c" "nonneg_weights w" "sc \<in> set (score_candidates w cs)"
  shows "sc_candidate sc \<in> set cs \<and> 0 \<le> sc_total_score sc \<and> sc_total_score sc \<le> 1 \<and>
    \<bar>sc_total_score sc - raw_score (normalize_weights w) (pool_bounds_of cs) (sc_candidate sc)\<bar> \<le> 1 / 20000 \<and>
    (\<forall>(f, x) \<in> set (sc_breakdown sc). 0 \<le> x \<and> x \<le> 1)"
proof -
  obtain c where c: "c \<in> set cs" "sc = score_one (normalize_weights w) (pool_bounds_of cs) c"
    using assms(3) by (auto simp: score_candidates_mem)
  have within: "within_pool (pool_bounds_of cs) c"
    using assms(1) c(1) by (rule pool_bounds_within)
  have raw: "clamp (raw_score (normalize_weights w) (pool_bounds_of cs) c) =
      raw_score (normalize_weights w) (pool_bounds_of cs) c"
    using raw_score_bounds [OF assms(2) within] by (auto simp: clamp_def)
  have "\<forall>(f, x) \<in> set (sc_breakdown sc). 0 \<le> x \<and> x \<le> 1"
    using latency_score_bounds [OF within] cost_score_bounds [OF within]
    by (simp add: c(2) score_one_def Let_def py_round_nonneg py_round_le_1 clamp_bounds)
  then show ?thesis
    using c(1) c(2) score_one_bounds [of "normalize_weights w" "pool_bounds_of cs" c]
      py_round_near [of "raw_score (normalize_weights w) (pool_bounds_of cs) c" 4]
    by (simp add: total_score_raw raw)
qed

definition example_candidate :: "string \<Rightarrow> real \<Rightarrow> real \<Rightarrow> routing_candidate" where
  "example_candidate p lat cost = \<lparr>rc_provider = p, rc_model = ''m'', rc_capabilities = [''text''],
     rc_context_window = 8192, rc_cost_per_1k_tokens = cost, rc_is_healthy = True,
     rc_baseline_latency_ms = lat, rc_runtime_latency_ms = None, rc_runtime_success_rate = 1,
     rc_total_requests = 0\<rparr>"

definition example_pool :: "routing_candidate list" where
  "example_pool = [example_candidate ''groq'' 200 1, example_candidate ''openai'' 300 2]"

lemma example_pool_wf: "\<forall>c \<in> set example_pool. wf_candidate c"
  by (simp add: example_pool_def example_candidate_def wf_candidate_def)

lemma auto_weights_nonneg: "nonneg_weights (get_weights None ''auto'')"
  by (simp add: nonneg_weights_def get_weights_def weights_def)

theorem scores_are_convex_witness:
  "sc_total_score (hd (score_candidates (get_weights None ''auto'') example_pool)) \<le> 1"
  using scores_are_convex [OF example_pool_wf auto_weights_nonneg]
    scorer.best_mem [of example_pool "get_weights None ''auto''"]
  by (auto simp: example_pool_def)

text \<open>\<open>a\<close> is at least as good as \<open>b\<close> in every factor.\<close>

definition dominates :: "routing_candidate \<Rightarrow> routing_candidate \<Rightarrow> bool" where
  "dominates a b = ((rc_is_healthy b \<longrightarrow> rc_is_healthy a) \<and>
     rc_runtime_success_rate b \<le> rc_runtime_success_rate a \<and>
     effective_latency_ms a \<le> effective_latency_ms b \<and>
     rc_cost_per_1k_tokens a \<le> rc_cost_per_1k_tokens b)"

lemma raw_score_mono:
  assumes "nonneg_weights w" "within_pool p a" "within_pool p b" "dominates a b"
  shows "raw_score w p b \<le> raw_score w p a"
proof -
  have "clamp (rc_runtime_success_rate b) \<le> clamp (rc_runtime_success_rate a)"
    using assms(4) by (auto simp: dominates_def clamp_def)
  moreover have "(if rc_is_healthy b then 1 else 0 :: real) \<le> (if rc_is_healthy a then 1 else 0)"
    using assms(4) by (simp add: dominates_def)
  moreover have "effective_latency_ms a \<le> effective_latency_ms b"
    "rc_cost_per_1k_tokens a \<le> rc_cost_per_1k_tokens b"
    using assms(4) by (simp_all add: dominates_def)
  ultimately show ?thesis
    using latency_score_antimono [OF assms(2,3)] cost_score_antimono [OF assms(2,3)] assms(1)
    unfolding raw_score_def nonneg_weights_def by (intro add_mono mult_right_mono) auto
qed

lemma total_score_mono:
  assumes "nonneg_weights w" "within_pool p a" "within_pool p b" "dominates a b"
  shows "sc_total_score (score_one w p b) \<le> sc_total_score (score_one w p a)"
  using raw_score_mono [OF assms]
  by (auto simp: total_score_raw clamp_def intro!: py_round_mono)

text \<open>
  The ranking respects dominance: a candidate that is at least as good as another in health,
  success rate, latency and cost never scores lower, and the candidate ranked first is dominated by
  no candidate that is better in one of the four.
\<close>

theorem ranking_respects_dominance:
  assumes "\<forall>c \<in> set cs. wf_candidate c" "nonneg_weights w" "a \<in> set cs"
    and "dominates a (sc_candidate (hd (score_candidates w cs)))"
  shows "dominates (sc_candidate (hd (score_candidates w cs))) a"
proof -
  let ?best = "hd (score_candidates w cs)" and ?one = "score_one (normalize_weights w) (pool_bounds_of cs)"
  have ne: "cs \<noteq> []" using assms(3) by auto
  have best: "?best \<in> set (score_candidates w cs)" "sc_candidate ?best \<in> set cs"
    using scorer.best_mem [OF ne] by auto
  have best_eq: "?best = ?one (sc_candidate ?best)"
    using best(1) by (auto simp: score_candidates_mem)
  have "?one a \<in> set (score_candidates w cs)"
    using ne assms(3) by (auto simp: score_candidates_mem)
  then have "rank_key ?best \<le> rank_key (?one a)"
    by (rule scorer.best_least)
  moreover have "sc_total_score ?best \<le> sc_total_score (?one a)"
    using total_score_mono [OF normalize_weights_nonneg [OF assms(2)]
        pool_bounds_within [OF assms(1,3)] pool_bounds_within [OF assms(1) best(2)] assms(4)]
    by (metis best_eq)
  ultimately show ?thesis
    using assms(4) by (auto simp: rank_key_def dominates_def Let_def less_eq_prod_def split: if_splits)
qed

theorem ranking_respects_dominance_witness:
  "sc_candidate (hd (score_candidates (get_weights None ''auto'') example_pool)) =
   example_candidate ''groq'' 200 1"
proof -
  let ?best = "sc_candidate (hd (score_candidates (get_weights None ''auto'') example_pool))"
  have mem: "?best \<in> set example_pool"
    using scorer.best_mem [of example_pool "get_weights None ''auto''"] by (simp add: example_pool_def)
  then have "dominates (example_candidate ''groq'' 200 1) ?best"
    by (auto simp: example_pool_def dominates_def example_candidate_def effective_latency_ms_def)
  then have "dominates ?best (example_candidate ''groq'' 200 1)"
    using ranking_respects_dominance [OF example_pool_wf auto_weights_nonneg]
    by (simp add: example_pool_def)
  with mem show ?thesis
    by (auto simp: example_pool_def dominates_def example_candidate_def effective_latency_ms_def)
qed

text \<open>
  Selection is deterministic: when no two candidates have the same provider and model, the
  ranking does not depend on the order in which the candidates were discovered.
\<close>

theorem ranking_order_irrelevant:
  assumes "mset cs = mset ds" "distinct (map (\<lambda>c. (rc_provider c, rc_model c)) cs)"
  shows "score_candidates w cs = score_candidates w ds"
proof (rule scorer.order_irrelevant [OF assms(1)])
  have items: "mset (map sc_candidate (score_candidates w cs)) = mset cs"
    by (rule scorer.items)
  have "mset (map (\<lambda>s. (rc_provider (sc_candidate s), rc_model (sc_candidate s))) (score_candidates w cs)) =
      mset (map (\<lambda>c. (rc_provider c, rc_model c)) cs)"
    using arg_cong [OF items, of "image_mset (\<lambda>c. (rc_provider c, rc_model c))"]
    by (simp add: multiset.map_comp comp_def)
  then have dist: "distinct (map (\<lambda>s. (rc_provider (sc_candidate s), rc_model (sc_candidate s)))
      (score_candidates w cs))"
    using assms(2) mset_eq_imp_distinct_iff by blast
  then show "distinct (score_candidates w cs)"
    by (simp add: distinct_map)
  show "inj_on rank_key (set (score_candidates w cs))"
    using dist by (auto simp: inj_on_def rank_key_def Let_def distinct_map)
qed

theorem ranking_order_irrelevant_witness:
  "score_candidates (get_weights None ''auto'') example_pool =
   score_candidates (get_weights None ''auto'') (rev example_pool)"
  by (rule ranking_order_irrelevant) (simp_all add: example_pool_def example_candidate_def)

end
