(* ===== verification/Schemas.thy ===== *)
theory Schemas
  imports Errors
begin

text \<open>
  The data of \<open>app/schemas/chat.py\<close> (request with its validators, response with its metadata) and
  the \<open>RequestContext\<close> of \<open>app/auth/schemas.py\<close>. A request body is modelled after JSON decoding,
  with values of the declared types; the constraints and validators decide acceptance.
\<close>

section \<open>Requests\<close>

datatype message_role = SystemR | UserR | AssistantR

record chat_message =
  msg_role :: message_role
  msg_content :: string

record chat_request =
  q_provider :: "string option"
  q_model :: string
  q_messages :: "chat_message list"
  q_routing_mode :: "string option"
  q_required_capabilities :: "string list option"
  q_temperature :: "real option"
  q_max_tokens :: "int option"
  q_top_p :: "real option"
  q_stop :: "string list option"
  q_failover_enabled :: "bool option"
  q_stream :: "bool option"

definition valid_modes :: "string list" where
  "valid_modes = [''manual'', ''auto'', ''lowest_cost'', ''lowest_latency'', ''best_available'',
     ''capability_based'']"

definition content_not_empty :: "string \<Rightarrow> bool" where
  "content_not_empty v = (v \<noteq> [] \<and> strip v \<noteq> [])"

definition normalize_provider :: "string option \<Rightarrow> string option" where
  "normalize_provider v = (case v of None \<Rightarrow> None
     | Some s \<Rightarrow> (let val = lower (strip s) in if val \<noteq> [] then Some val else None))"

definition normalize_model :: "string \<Rightarrow> string" where
  "normalize_model v = strip v"

definition in_range :: "real option \<Rightarrow> real \<Rightarrow> real \<Rightarrow> bool" where
  "in_range v lo hi = (case v of None \<Rightarrow> True | Some x \<Rightarrow> lo \<le> x \<and> x \<le> hi)"

text \<open>The fields whose value the schema rejects.\<close>

definition request_errors :: "chat_request \<Rightarrow> (string list \<times> string) list" where
  "request_errors q =
     (if list_all (\<lambda>m. content_not_empty (msg_content m)) (q_messages q) then []
      else [([''messages''], ''Message content cannot be empty.'')]) @
     (case q_routing_mode q of None \<Rightarrow> []
        | Some m \<Rightarrow> if List.member valid_modes m then [] else [([''routing_mode''], ''literal_error'')]) @
     (if in_range (q_temperature q) 0 2 then [] else [([''temperature''], ''range'')]) @
     (case q_max_tokens q of None \<Rightarrow> [] | Some n \<Rightarrow> if n > 0 then [] else [([''max_tokens''], ''greater_than'')]) @
     (if in_range (q_top_p q) 0 1 then [] else [([''top_p''], ''range'')])"

definition validate_request :: "chat_request \<Rightarrow> exn + chat_request" where
  "validate_request q =
     (let q' = q\<lparr>q_provider := normalize_provider (q_provider q), q_model := normalize_model (q_model q)\<rparr>
      in if request_errors q \<noteq> [] then Inl (RequestValidationError (request_errors q))
         else if q_messages q = [] then
           Inl (RequestValidationError [([''body''], ''The 'messages' list cannot be empty.'')])
         else Inr q')"

section \<open>Responses\<close>

record usage_metadata =
  prompt_tokens :: "int option"
  completion_tokens :: "int option"
  total_tokens :: "int option"

record choice =
  ch_index :: int
  ch_content :: string
  ch_finish_reason :: "string option"

record response_metadata =
  m_request_id :: string
  m_latency_ms :: real
  m_routing_mode :: "string option"
  m_selected_provider :: "string option"
  m_selected_model :: "string option"
  m_original_provider :: "string option"
  m_failover_triggered :: bool
  m_retry_count :: int
  m_failover_attempts :: int
  m_circuit_breaker_state :: "string option"
  m_estimated_cost :: "real option"
  m_actual_cost :: "real option"
  m_remaining_budget :: "real option"
  m_budget_warning :: bool
  m_budget_downgraded :: bool
  m_rate_limit_remaining :: "int option"
  m_cache_hit :: bool
  m_experiment_id :: "string option"
  m_experiment_version :: "int option"
  m_experiment_arm :: "string option"

record chat_response =
  p_provider :: string
  p_model :: string
  p_choices :: "choice list"
  p_usage :: usage_metadata
  p_metadata :: response_metadata

text \<open>A freshly built \<open>ResponseMetadata(request_id=.., latency_ms=..)\<close>: every other field default.\<close>

definition new_metadata :: "string \<Rightarrow> real \<Rightarrow> response_metadata" where
  "new_metadata rid lat = \<lparr>m_request_id = rid, m_latency_ms = lat, m_routing_mode = None,
     m_selected_provider = None, m_selected_model = None, m_original_provider = None,
     m_failover_triggered = False, m_retry_count = 0, m_failover_attempts = 0,
     m_circuit_breaker_state = None, m_estimated_cost = None, m_actual_cost = None,
     m_remaining_budget = None, m_budget_warning = False, m_budget_downgraded = False,
     m_rate_limit_remaining = None, m_cache_hit = False, m_experiment_id = None,
     m_experiment_version = None, m_experiment_arm = None\<rparr>"

section \<open>Request context\<close>

record request_context =
  ctx_organization_id :: string
  ctx_team_id :: string
  ctx_api_key_id :: string
  ctx_role :: string

section \<open>Facts\<close>

definition wf_request :: "chat_request \<Rightarrow> bool" where
  "wf_request q =
     (q_messages q \<noteq> [] \<and> (\<forall>m \<in> set (q_messages q). msg_content m \<noteq> []) \<and>
      (case q_provider q of None \<Rightarrow> True | Some p \<Rightarrow> p \<noteq> [] \<and> lower p = p \<and> strip p = p) \<and>
      strip (q_model q) = q_model q \<and>
      (case q_routing_mode q of None \<Rightarrow> True | Some m \<Rightarrow> m \<in> set valid_modes) \<and>
      (case q_max_tokens q of None \<Rightarrow> True | Some n \<Rightarrow> 0 < n))"

lemma strip_Nil [simp]: "strip [] = []"
  by (simp add: strip_def lstrip_def)

lemma normalize_provider_idem [simp]: "normalize_provider (normalize_provider v) = normalize_provider v"
  by (simp add: normalize_provider_def Let_def split: option.splits)

text \<open>
  Validation accepts a request exactly when no constraint is violated and there is a
  message, and what it hands on is well formed (a provider name is lower case, trimmed and not empty,
  a model name trimmed, a routing mode known, a token limit positive); validating the result again
  changes nothing.
\<close>

theorem validate_request_wf:
  assumes "validate_request q = Inr q'"
  shows "wf_request q' \<and> validate_request q' = Inr q' \<and> q_messages q' = q_messages q"
proof -
  from assms have ok: "request_errors q = []" "q_messages q \<noteq> []"
    and q': "q' = q\<lparr>q_provider := normalize_provider (q_provider q), q_model := strip (q_model q)\<rparr>"
    by (auto simp: validate_request_def Let_def normalize_model_def split: if_splits)
  have "request_errors q' = []"
    using ok(1) by (simp add: q' request_errors_def)
  then have "validate_request q' = Inr q'"
    using ok(2) by (simp add: validate_request_def Let_def normalize_model_def q')
  moreover have "wf_request q'"
    using ok by (auto simp: q' wf_request_def request_errors_def content_not_empty_def list_all_iff
        normalize_provider_def Let_def List.member_iff split: if_splits option.splits)
  ultimately show ?thesis
    by (simp add: q')
qed

definition example_request :: chat_request where
  "example_request = \<lparr>q_provider = Some '' Groq '', q_model = ''auto'',
     q_messages = [\<lparr>msg_role = UserR, msg_content = ''hi''\<rparr>], q_routing_mode = None,
     q_required_capabilities = None, q_temperature = None, q_max_tokens = Some 10, q_top_p = None,
     q_stop = None, q_failover_enabled = Some True, q_stream = Some False\<rparr>"

lemma example_request_valid:
  "validate_request example_request = Inr (example_request\<lparr>q_provider := Some ''groq''\<rparr>)"
  by code_simp

theorem validate_request_wf_witness:
  "wf_request (example_request\<lparr>q_provider := Some ''groq''\<rparr>)"
  using validate_request_wf [OF example_request_valid] by blast

end
