(* ===== verification/Routing.thy ===== *)
theory Routing
  imports Catalog Scorer Schemas
begin

text \<open>
  The routing engine: the provider registry (\<open>app/providers/registry.py\<close>), the candidate builder
  (\<open>app/routing/candidates.py\<close>) and the route selection (\<open>app/routing/router.py\<close>). A provider object
  is its \<open>name\<close>; what its \<open>health_check\<close> and \<open>list_models\<close> calls return (or raise) while one request is
  routed is the parameter \<open>probe\<close>. The probes of one request run concurrently and do not change the
  gateway's state, so their results are collected provider by provider.
\<close>

section \<open>Provider registry\<close>

type_synonym provider_registry = "(string \<times> string) list"

definition reg_register :: "string \<Rightarrow> provider_registry \<Rightarrow> provider_registry" where
  "reg_register provider_name reg = AList.update (lower provider_name) provider_name reg"

definition reg_get :: "string \<Rightarrow> provider_registry \<Rightarrow> exn + string" where
  "reg_get name reg = (let key = lower (strip name) in
     case map_of reg key of
       Some provider \<Rightarrow> Inr provider
     | None \<Rightarrow> Inl (Exn InvalidProviderErrorC
         (''Provider '' @ repr key @ '' is not available. Available providers: '' @
          repr_list (if reg = [] then [''none''] else map fst reg) @ ''.'')))"

definition is_registered :: "string \<Rightarrow> provider_registry \<Rightarrow> bool" where
  "is_registered name reg = (map_of reg (lower (strip name)) \<noteq> None)"

definition list_providers :: "provider_registry \<Rightarrow> string list" where
  "list_providers reg = sort (map fst reg)"

section \<open>Candidate builder\<close>

record provider_probe =
  pr_health :: "exn + bool"
  pr_models :: "exn + string list"

definition inspect_provider ::
  "(string \<Rightarrow> provider_probe) \<Rightarrow> provider_registry \<Rightarrow> string \<Rightarrow> (string \<times> bool \<times> string list) option" where
  "inspect_provider probe reg name = (case reg_get name reg of
     Inl err \<Rightarrow> None
   | Inr p \<Rightarrow> Some (p,
       (case pr_health (probe p) of Inl err \<Rightarrow> False | Inr ok \<Rightarrow> ok),
       (case pr_models (probe p) of Inl err \<Rightarrow> [] | Inr ms \<Rightarrow> ms)))"

definition resolve_ollama_models :: "string list \<Rightarrow> string list \<Rightarrow> string list" where
  "resolve_ollama_models live_models catalog_models =
     (let live = map strip live_models in
      filter (\<lambda>m. let normalized = strip m in
        if List.member live normalized then True
        else list_ex (\<lambda>lm. before_colon lm = before_colon normalized) live) catalog_models)"

definition models_for :: "model_catalog \<Rightarrow> string \<Rightarrow> string list \<Rightarrow> string list" where
  "models_for cat p live =
     (if p = ''ollama'' then resolve_ollama_models live (provider_model_names cat ''ollama'')
      else if live \<noteq> [] then live else provider_model_names cat p)"

definition candidate_of ::
  "model_catalog \<Rightarrow> stats_tracker \<Rightarrow> string \<Rightarrow> bool \<Rightarrow> string \<Rightarrow> routing_candidate" where
  "candidate_of cat stats p healthy m =
     (let meta = catalog_get cat p m; st = get_stats p m stats in
      \<lparr>rc_provider = p, rc_model = m, rc_capabilities = md_capabilities meta,
       rc_context_window = md_context_window meta, rc_cost_per_1k_tokens = md_cost_per_1k_tokens meta,
       rc_is_healthy = healthy, rc_baseline_latency_ms = md_baseline_latency_ms meta,
       rc_runtime_latency_ms = (case st of Some s \<Rightarrow> latency_ms s | None \<Rightarrow> None),
       rc_runtime_success_rate = (case st of Some s \<Rightarrow> success_rate s | None \<Rightarrow> 1),
       rc_total_requests = (case st of Some s \<Rightarrow> total_requests s | None \<Rightarrow> 0)\<rparr>)"

definition build_candidates ::
  "(string \<Rightarrow> provider_probe) \<Rightarrow> provider_registry \<Rightarrow> model_catalog \<Rightarrow> stats_tracker \<Rightarrow> routing_candidate list" where
  "build_candidates probe reg cat stats =
     concat (map (\<lambda>name. case inspect_provider probe reg name of
         None \<Rightarrow> []
       | Some (p, healthy, live) \<Rightarrow> map (candidate_of cat stats p healthy) (models_for cat p live))
       (list_providers reg))"

section \<open>Routing engine\<close>

record routing_decision =
  rd_provider :: string
  rd_model :: string
  rd_routing_mode :: string
  rd_score :: real
  rd_breakdown :: "(string \<times> real) list"
  rd_candidate :: "routing_candidate option"

record routing_engine =
  en_registry :: provider_registry
  en_stats :: stats_tracker
  en_catalog :: model_catalog
  en_auto_weights :: "policy_weights option"
  en_default_mode :: string

definition truthy :: "string option \<Rightarrow> bool" where
  "truthy v = (case v of None \<Rightarrow> False | Some s \<Rightarrow> s \<noteq> [])"

definition resolve_routing_mode :: "string \<Rightarrow> chat_request \<Rightarrow> exn + string" where
  "resolve_routing_mode default_mode q =
     (if truthy (q_routing_mode q) then
        (let mode = lower (the (q_routing_mode q)) in
         if List.member valid_modes mode then Inr mode
         else Inl (Exn InvalidRoutingModeErrorC
           (''Unknown routing mode '' @ repr (the (q_routing_mode q)) @ ''. Supported modes: '' @
            repr_list (sort valid_modes))))
      else if truthy (q_provider q) \<and> q_model q \<noteq> [] \<and> lower (q_model q) \<noteq> ''auto'' then Inr ''manual''
      else if q_required_capabilities q \<noteq> None \<and> q_required_capabilities q \<noteq> Some []
      then Inr ''capability_based''
      else Inr default_mode)"

definition has_capabilities :: "string list \<Rightarrow> routing_candidate \<Rightarrow> bool" where
  "has_capabilities required c =
     (let req = map (\<lambda>r. strip (lower r)) (filter (\<lambda>r. strip r \<noteq> []) required);
          caps = map (\<lambda>r. strip (lower r)) (rc_capabilities c)
      in list_all (List.member caps) req)"

definition filter_by_capabilities :: "routing_candidate list \<Rightarrow> string list \<Rightarrow> routing_candidate list" where
  "filter_by_capabilities cs required = filter (has_capabilities required) cs"

definition route_manual :: "routing_engine \<Rightarrow> chat_request \<Rightarrow> exn + routing_decision" where
  "route_manual en q =
     (if \<not> truthy (q_provider q) \<or> q_model q = [] \<or> lower (q_model q) = ''auto'' then
        Inl (Exn InvalidManualRoutingErrorC
          ''Manual routing mode requires both 'provider' and a concrete 'model' name.'')
      else let p = the (q_provider q) in
        if \<not> is_registered p (en_registry en) then
          Inl (Exn NoRoutableProviderErrorC (''Manual provider '' @ repr p @ '' is not registered or available.''))
        else let meta = catalog_get (en_catalog en) p (q_model q) in
          Inr \<lparr>rd_provider = p, rd_model = q_model q, rd_routing_mode = ''manual'', rd_score = 1,
            rd_breakdown = [(''manual'', 1)],
            rd_candidate = Some \<lparr>rc_provider = p, rc_model = q_model q,
              rc_capabilities = md_capabilities meta, rc_context_window = md_context_window meta,
              rc_cost_per_1k_tokens = md_cost_per_1k_tokens meta, rc_is_healthy = True,
              rc_baseline_latency_ms = md_baseline_latency_ms meta, rc_runtime_latency_ms = None,
              rc_runtime_success_rate = 1, rc_total_requests = 0\<rparr>\<rparr>)"

definition wants_provider :: "chat_request \<Rightarrow> bool" where
  "wants_provider q = (truthy (q_provider q) \<and> lower (the (q_provider q)) \<noteq> ''auto'')"

definition provider_pool :: "chat_request \<Rightarrow> routing_candidate list \<Rightarrow> routing_candidate list" where
  "provider_pool q cs = (if wants_provider q
     then filter (\<lambda>c. lower (rc_provider c) = lower (the (q_provider q))) cs else cs)"

definition required_caps :: "chat_request \<Rightarrow> string list" where
  "required_caps q = (case q_required_capabilities q of None \<Rightarrow> [] | Some r \<Rightarrow> r)"

definition capable_pool :: "chat_request \<Rightarrow> routing_candidate list \<Rightarrow> routing_candidate list" where
  "capable_pool q cs = (if required_caps q = [] then cs else filter_by_capabilities cs (required_caps q))"

definition healthy_pool :: "routing_candidate list \<Rightarrow> routing_candidate list" where
  "healthy_pool cs = (let healthy = filter rc_is_healthy cs in if healthy \<noteq> [] then healthy else cs)"

definition route ::
  "(string \<Rightarrow> provider_probe) \<Rightarrow> routing_engine \<Rightarrow> chat_request \<Rightarrow> exn + routing_decision" where
  "route probe en q = (case resolve_routing_mode (en_default_mode en) q of
     Inl err \<Rightarrow> Inl err
   | Inr mode \<Rightarrow>
      if mode = ''manual'' then route_manual en q
      else let cs = build_candidates probe (en_registry en) (en_catalog en) (en_stats en) in
        if cs = [] then Inl (Exn NoRoutableProviderErrorC ''No active providers are registered in the gateway.'')
        else let cs = provider_pool q cs in
        if cs = [] then Inl (Exn NoRoutableProviderErrorC
          (''Requested provider '' @ repr (the (q_provider q)) @ '' has no available candidates.''))
        else let cs = capable_pool q cs in
        if cs = [] then Inl (Exn NoCapableProviderErrorC
          (''No available provider/model supports all required capabilities: '' @ repr_list (required_caps q)))
        else let scored = score_candidates (get_weights (en_auto_weights en) mode) (healthy_pool cs) in
        if scored = [] then Inl (Exn NoRoutableProviderErrorC ''Failed to score any candidates for the request.'')
        else let best = hd scored in
          Inr \<lparr>rd_provider = rc_provider (sc_candidate best), rd_model = rc_model (sc_candidate best),
            rd_routing_mode = mode, rd_score = sc_total_score best, rd_breakdown = sc_breakdown best,
            rd_candidate = Some (sc_candidate best)\<rparr>)"

section \<open>Facts\<close>

text \<open>The candidates a request may be sent to: abstract reading of the filters.\<close>

definition eligible :: "(string \<Rightarrow> provider_probe) \<Rightarrow> routing_engine \<Rightarrow> chat_request \<Rightarrow> routing_candidate set" where
  "eligible probe en q = {c \<in> set (build_candidates probe (en_registry en) (en_catalog en) (en_stats en)).
     (wants_provider q \<longrightarrow> lower (rc_provider c) = lower (the (q_provider q))) \<and>
     has_capabilities (required_caps q) c}"

lemma has_no_requirements [simp]: "has_capabilities [] c"
  by (simp add: has_capabilities_def)

definition request_pool ::
  "(string \<Rightarrow> provider_probe) \<Rightarrow> routing_engine \<Rightarrow> chat_request \<Rightarrow> routing_candidate list" where
  "request_pool probe en q = capable_pool q (provider_pool q
     (build_candidates probe (en_registry en) (en_catalog en) (en_stats en)))"

lemma eligible_pool: "eligible probe en q = set (request_pool probe en q)"
  by (auto simp: eligible_def request_pool_def capable_pool_def provider_pool_def filter_by_capabilities_def)

lemma healthy_pool_set:
  "set (healthy_pool cs) = (if \<exists>c \<in> set cs. rc_is_healthy c then {c \<in> set cs. rc_is_healthy c} else set cs)"
  by (auto simp: healthy_pool_def Let_def filter_empty_conv)

lemma healthy_pool_Nil [simp]: "healthy_pool cs = [] \<longleftrightarrow> cs = []"
  by (auto simp: healthy_pool_def Let_def filter_empty_conv)

lemma pool_Nil [simp]: "capable_pool q [] = []" "provider_pool q [] = []"
  by (auto simp: capable_pool_def provider_pool_def filter_by_capabilities_def)

definition ranked_pool ::
  "(string \<Rightarrow> provider_probe) \<Rightarrow> routing_engine \<Rightarrow> chat_request \<Rightarrow> string \<Rightarrow> scored_candidate list" where
  "ranked_pool probe en q mode =
     score_candidates (get_weights (en_auto_weights en) mode) (healthy_pool (request_pool probe en q))"

lemma route_pool:
  assumes "resolve_routing_mode (en_default_mode en) q = Inr mode" "mode \<noteq> ''manual''"
  shows "route probe en q = Inr d \<longleftrightarrow> request_pool probe en q \<noteq> [] \<and>
    (let best = hd (ranked_pool probe en q mode) in
     d = \<lparr>rd_provider = rc_provider (sc_candidate best), rd_model = rc_model (sc_candidate best),
            rd_routing_mode = mode, rd_score = sc_total_score best, rd_breakdown = sc_breakdown best,
            rd_candidate = Some (sc_candidate best)\<rparr>)"
  using assms by (auto simp: route_def Let_def scorer.rank_Nil_iff request_pool_def ranked_pool_def)

lemma route_best:
  assumes "resolve_routing_mode (en_default_mode en) q = Inr mode" "mode \<noteq> ''manual''"
    and "route probe en q = Inr d"
  obtains best where "best \<in> set (ranked_pool probe en q mode)" "rd_candidate d = Some (sc_candidate best)"
    "rd_provider d = rc_provider (sc_candidate best)" "rd_model d = rc_model (sc_candidate best)"
    "rd_score d = sc_total_score best" "rd_routing_mode d = mode"
    "sc_candidate best \<in> set (healthy_pool (request_pool probe en q))"
    "\<forall>s \<in> set (ranked_pool probe en q mode). rank_key best \<le> rank_key s"
proof -
  let ?best = "hd (ranked_pool probe en q mode)"
  have d: "request_pool probe en q \<noteq> []"
    "d = \<lparr>rd_provider = rc_provider (sc_candidate ?best), rd_model = rc_model (sc_candidate ?best),
            rd_routing_mode = mode, rd_score = sc_total_score ?best, rd_breakdown = sc_breakdown ?best,
            rd_candidate = Some (sc_candidate ?best)\<rparr>"
    using route_pool [OF assms(1,2), of probe d] assms(3) by (auto simp: Let_def)
  have "?best \<in> set (ranked_pool probe en q mode)"
    "sc_candidate ?best \<in> set (healthy_pool (request_pool probe en q))"
    using scorer.best_mem [of "healthy_pool (request_pool probe en q)"] d(1)
    by (auto simp: ranked_pool_def)
  moreover have "\<forall>s \<in> set (ranked_pool probe en q mode). rank_key ?best \<le> rank_key s"
    using scorer.best_least by (auto simp: ranked_pool_def)
  ultimately show ?thesis
    using that [of ?best] by (simp add: d)
qed

section \<open>Properties of routing\<close>

text \<open>
  C20: a routed request goes to an eligible candidate: one the builder found, of the requested
  provider, with every required capability, healthy whenever some eligible candidate is healthy, and
  with the highest score of all the candidates it competed with; the score lies in [0, 1].
\<close>

theorem route_selects_best_eligible:
  assumes "resolve_routing_mode (en_default_mode en) q = Inr mode" "mode \<noteq> ''manual''"
    and "route probe en q = Inr d"
  shows "\<exists>c. rd_candidate d = Some c \<and> rd_provider d = rc_provider c \<and> rd_model d = rc_model c \<and>
    c \<in> eligible probe en q \<and>
    ((\<exists>e \<in> eligible probe en q. rc_is_healthy e) \<longrightarrow> rc_is_healthy c) \<and>
    0 \<le> rd_score d \<and> rd_score d \<le> 1 \<and>
    (\<forall>s \<in> set (ranked_pool probe en q mode). sc_total_score s \<le> rd_score d)"
proof -
  obtain best where best: "best \<in> set (ranked_pool probe en q mode)" "rd_candidate d = Some (sc_candidate best)"
    "rd_provider d = rc_provider (sc_candidate best)" "rd_model d = rc_model (sc_candidate best)"
    "rd_score d = sc_total_score best"
    "sc_candidate best \<in> set (healthy_pool (request_pool probe en q))"
    "\<forall>s \<in> set (ranked_pool probe en q mode). rank_key best \<le> rank_key s"
    using route_best [OF assms] by metis
  have "0 \<le> sc_total_score best \<and> sc_total_score best \<le> 1"
    using best(1) score_one_bounds by (auto simp: ranked_pool_def score_candidates_mem)
  moreover have "\<forall>s \<in> set (ranked_pool probe en q mode). sc_total_score s \<le> sc_total_score best"
    using best(7) by (auto simp: rank_key_def Let_def less_eq_prod_def)
  ultimately show ?thesis
    using best(2-6) by (auto simp: healthy_pool_set eligible_pool split: if_splits)
qed

definition example_engine :: routing_engine where
  "example_engine = \<lparr>en_registry = [(''groq'', ''groq'')], en_stats = (\<lambda>k. None), en_catalog = new_catalog,
     en_auto_weights = None, en_default_mode = ''auto''\<rparr>"

definition example_probe :: "string \<Rightarrow> provider_probe" where
  "example_probe p = \<lparr>pr_health = Inr True, pr_models = Inr [''m1'']\<rparr>"

definition auto_request :: chat_request where
  "auto_request = example_request\<lparr>q_provider := None\<rparr>"

lemma example_built:
  "build_candidates example_probe (en_registry example_engine) (en_catalog example_engine)
     (en_stats example_engine) = [candidate_of new_catalog (\<lambda>k. None) ''groq'' True ''m1'']"
proof -
  have "lower (strip ''groq'') = ''groq''" by code_simp
  then show ?thesis
    by (simp add: build_candidates_def list_providers_def inspect_provider_def reg_get_def Let_def
        example_engine_def example_probe_def models_for_def)
qed

lemma auto_request_mode: "resolve_routing_mode (en_default_mode example_engine) auto_request = Inr ''auto''"
  by (simp add: resolve_routing_mode_def auto_request_def example_request_def example_engine_def truthy_def)

lemma example_eligible: "candidate_of new_catalog (\<lambda>k. None) ''groq'' True ''m1'' \<in> eligible example_probe example_engine auto_request"
  by (simp add: eligible_def example_built wants_provider_def truthy_def required_caps_def
      auto_request_def example_request_def)

lemma example_routes: "\<exists>d. route example_probe example_engine auto_request = Inr d"
  using route_pool [OF auto_request_mode, of example_probe] example_eligible
  by (auto simp: eligible_pool Let_def)

theorem route_selects_best_eligible_witness:
  "\<exists>d c. route example_probe example_engine auto_request = Inr d \<and> rd_candidate d = Some c \<and>
     c \<in> eligible example_probe example_engine auto_request"
  using example_routes route_selects_best_eligible [OF auto_request_mode, of example_probe] by auto

text \<open>
  C21: routing is complete: outside manual mode it succeeds exactly when an eligible candidate
  exists; otherwise the error says which filter emptied the pool: \<open>NoCapableProviderError\<close> when a
  candidate of the requested provider exists, \<open>NoRoutableProviderError\<close> when none does.
\<close>

theorem route_complete:
  assumes "resolve_routing_mode (en_default_mode en) q = Inr mode" "mode \<noteq> ''manual''"
  shows "((\<exists>d. route probe en q = Inr d) \<longleftrightarrow> eligible probe en q \<noteq> {}) \<and>
    (eligible probe en q = {} \<longrightarrow> (\<exists>err. route probe en q = Inl err \<and>
      class_of err = (if \<exists>c \<in> set (build_candidates probe (en_registry en) (en_catalog en) (en_stats en)).
           wants_provider q \<longrightarrow> lower (rc_provider c) = lower (the (q_provider q))
         then NoCapableProviderErrorC else NoRoutableProviderErrorC)))"
proof -
  let ?built = "build_candidates probe (en_registry en) (en_catalog en) (en_stats en)"
  have some: "(\<exists>c \<in> set ?built. wants_provider q \<longrightarrow> lower (rc_provider c) = lower (the (q_provider q)))
      \<longleftrightarrow> provider_pool q ?built \<noteq> []"
    by (cases ?built) (auto simp: provider_pool_def filter_empty_conv)
  have "(\<exists>d. route probe en q = Inr d) \<longleftrightarrow> request_pool probe en q \<noteq> []"
    using route_pool [OF assms, of probe] by (auto simp: Let_def)
  moreover have "\<exists>err. route probe en q = Inl err \<and> class_of err =
      (if provider_pool q ?built \<noteq> [] then NoCapableProviderErrorC else NoRoutableProviderErrorC)"
    if "request_pool probe en q = []"
    using that assms by (auto simp: route_def Let_def request_pool_def)
  ultimately show ?thesis
    unfolding some eligible_pool by simp
qed

theorem route_complete_witness:
  "(\<exists>d. route example_probe example_engine auto_request = Inr d) \<and>
   (\<exists>err. route example_probe (example_engine\<lparr>en_registry := []\<rparr>) auto_request = Inl err \<and>
      class_of err = NoRoutableProviderErrorC)"
proof -
  have mode: "resolve_routing_mode (en_default_mode (example_engine\<lparr>en_registry := []\<rparr>)) auto_request = Inr ''auto''"
    using auto_request_mode by simp
  have none: "build_candidates p [] c st = []" for p c st
    by (simp add: build_candidates_def list_providers_def)
  show ?thesis
    using route_complete [OF auto_request_mode, of example_probe] example_eligible
      route_complete [OF mode, of example_probe] none by (auto simp: eligible_def)
qed

text \<open>
  Manual routing never substitutes: it returns the requested provider and model, as given,
  exactly when the provider is registered and the model is concrete, and fails otherwise; explicit
  provider and model imply it when no mode is given.
\<close>

theorem route_manual_exact:
  "(resolve_routing_mode (en_default_mode en) q = Inr ''manual'' \<longrightarrow>
     (case route probe en q of
        Inr d \<Rightarrow> q_provider q = Some (rd_provider d) \<and> rd_model d = q_model q \<and> rd_score d = 1 \<and>
          is_registered (rd_provider d) (en_registry en) \<and> lower (q_model q) \<noteq> ''auto''
      | Inl err \<Rightarrow> \<not> truthy (q_provider q) \<or> q_model q = [] \<or> lower (q_model q) = ''auto'' \<or>
          \<not> is_registered (the (q_provider q)) (en_registry en))) \<and>
   (\<not> truthy (q_routing_mode q) \<and> truthy (q_provider q) \<and> q_model q \<noteq> [] \<and> lower (q_model q) \<noteq> ''auto'' \<longrightarrow>
     resolve_routing_mode (en_default_mode en) q = Inr ''manual'')"
  by (auto simp: route_def route_manual_def resolve_routing_mode_def truthy_def Let_def
      split: option.splits sum.splits if_splits)

theorem route_manual_exact_witness:
  "\<exists>d. route example_probe example_engine (example_request\<lparr>q_provider := Some ''groq'', q_model := ''m9''\<rparr>) = Inr d \<and>
     rd_provider d = ''groq'' \<and> rd_model d = ''m9''"
proof -
  let ?q = "example_request\<lparr>q_provider := Some ''groq'', q_model := ''m9''\<rparr>"
  have names: "lower ''m9'' = ''m9''" "lower (strip ''groq'') = ''groq''"
    by code_simp+
  have "\<not> truthy (q_routing_mode ?q) \<and> truthy (q_provider ?q) \<and> q_model ?q \<noteq> [] \<and> lower (q_model ?q) \<noteq> ''auto''"
    by (simp add: example_request_def truthy_def names)
  moreover have "is_registered ''groq'' (en_registry example_engine)"
    by (simp add: is_registered_def names example_engine_def)
  ultimately show ?thesis
    using route_manual_exact [of example_engine ?q example_probe]
    by (auto split: sum.splits)
qed

lemma resolve_ollama_mem:
  "m \<in> set (resolve_ollama_models live cat) \<longleftrightarrow>
     m \<in> set cat \<and> (\<exists>lm \<in> set live. before_colon (strip lm) = before_colon (strip m))"
  by (auto simp: resolve_ollama_models_def Let_def List.member_iff list_ex_iff split: if_splits)

text \<open>
  The Ollama intersection ignores tags: a registered model counts as installed exactly when some
  installed model has the same name before the colon, so a registered \<open>llama3.2:3b\<close> is offered when
  only \<open>llama3.2:70b\<close> is installed.
\<close>

theorem ollama_intersection_ignores_tags:
  "set (resolve_ollama_models live cat) =
     {m \<in> set cat. before_colon (strip m) \<in> (\<lambda>lm. before_colon (strip lm)) ` set live} \<and>
   ''llama3.2:3b'' \<in> set (resolve_ollama_models [''llama3.2:70b''] [''llama3.2:3b''])"
proof (intro conjI)
  show "set (resolve_ollama_models live cat) =
     {m \<in> set cat. before_colon (strip m) \<in> (\<lambda>lm. before_colon (strip lm)) ` set live}"
    by (auto simp: resolve_ollama_mem image_iff) metis
  show "''llama3.2:3b'' \<in> set (resolve_ollama_models [''llama3.2:70b''] [''llama3.2:3b''])"
    by code_simp
qed

end
