(* ===== verification/App.thy ===== *)
theory App
  imports Routing
begin

text \<open>
  The path of a request through the application: the request-id and logging middleware
  (\<open>app/middleware\<close>) around the routes and the exception handlers (\<open>app/main.py\<close>,
  \<open>app/exceptions.py\<close>), and the endpoints that need no key: health, version and the provider listings
  (\<open>endpoints/health.py\<close>, \<open>endpoints/providers.py\<close>). What an endpoint answers is a parameter, a function of
  the request id it reads from the context variable. The handler of the class \<open>Exception\<close> is the one
  Starlette runs outside of every middleware; the others run inside.
\<close>

section \<open>Requests and answers\<close>

record http_request =
  rq_method :: string
  rq_path :: string
  rq_request_id :: "string option"
  rq_forwarded_for :: "string option"
  rq_client :: "string option"

text \<open>An answer: its status, its \<open>X-Request-ID\<close> header, the error envelope if it is one.\<close>

record app_response =
  ar_status :: int
  ar_request_id :: "string option"
  ar_error :: "http_response option"

record access_line =
  al_level :: string
  al_method :: string
  al_path :: string
  al_status :: int
  al_request_id :: string
  al_client_ip :: string

definition error_answer :: "http_response \<Rightarrow> app_response" where
  "error_answer r = \<lparr>ar_status = r_status r, ar_request_id = None, ar_error = Some r\<rparr>"

section \<open>Middleware\<close>

text \<open>
  A process's state as the middleware sees it: the context variable of the task and the access log. An
  application maps a request and a state to what it answers or raises and the state after.
\<close>

record task_state =
  ts_request_id :: string
  ts_access :: "access_line list"

type_synonym asgi_app = "http_request \<Rightarrow> task_state \<Rightarrow> (exn + app_response) \<times> task_state"

definition request_id_of :: "string \<Rightarrow> http_request \<Rightarrow> string" where
  "request_id_of fresh rq = (case rq_request_id rq of Some (c # cs) \<Rightarrow> c # cs | _ \<Rightarrow> fresh)"

definition request_id_middleware :: "string \<Rightarrow> asgi_app \<Rightarrow> asgi_app" where
  "request_id_middleware fresh call_next rq ts =
     (let rid = request_id_of fresh rq;
          token = ts_request_id ts;
          (res, ts) = call_next rq (ts\<lparr>ts_request_id := rid\<rparr>);
          ts = ts\<lparr>ts_request_id := token\<rparr>
      in case res of
           Inl e \<Rightarrow> (Inl e, ts)
         | Inr r \<Rightarrow> (Inr (r\<lparr>ar_request_id := Some rid\<rparr>), ts))"

definition before_comma :: "string \<Rightarrow> string" where
  "before_comma s = takeWhile (\<lambda>c. c \<noteq> CHR '','') s"

definition safe_client_ip :: "http_request \<Rightarrow> string" where
  "safe_client_ip rq = (case rq_forwarded_for rq of
     Some (c # cs) \<Rightarrow> strip (before_comma (c # cs))
   | _ \<Rightarrow> (case rq_client rq of Some host \<Rightarrow> host | None \<Rightarrow> ''unknown''))"

definition logging_middleware :: "asgi_app \<Rightarrow> asgi_app" where
  "logging_middleware call_next rq ts =
     (let (res, ts) = call_next rq ts in
      case res of
        Inl e \<Rightarrow> (Inl e, ts)
      | Inr r \<Rightarrow> (Inr r, ts\<lparr>ts_access := ts_access ts @
          [\<lparr>al_level = (if ar_status r \<ge> 400 then ''WARNING'' else ''INFO''), al_method = rq_method rq,
            al_path = rq_path rq, al_status = ar_status r, al_request_id = ts_request_id ts,
            al_client_ip = safe_client_ip rq\<rparr>]\<rparr>))"

text \<open>The handlers of \<open>exceptions.py\<close>, but the catch-all, sit right around the routes.\<close>

definition has_handler :: "exn \<Rightarrow> bool" where
  "has_handler e = (handler_for e \<noteq> None \<and> handler_for e \<noteq> Some ExceptionC)"

definition exception_middleware :: "(string \<Rightarrow> exn + app_response) \<Rightarrow> asgi_app" where
  "exception_middleware endpoint rq ts = (case endpoint (ts_request_id ts) of
     Inr r \<Rightarrow> (Inr r, ts)
   | Inl e \<Rightarrow> if has_handler e then (Inr (error_answer (handle_exception (ts_request_id ts) e)), ts) else (Inl e, ts))"

text \<open>The whole application. The middleware added last is the outermost but for the catch-all handler.\<close>

definition application :: "string \<Rightarrow> (string \<Rightarrow> exn + app_response) \<Rightarrow> http_request \<Rightarrow> task_state \<Rightarrow> app_response \<times> task_state" where
  "application fresh endpoint rq ts =
     (case request_id_middleware fresh (logging_middleware (exception_middleware endpoint)) rq ts of
        (Inr r, ts) \<Rightarrow> (r, ts)
      | (Inl e, ts) \<Rightarrow> (error_answer (handle_exception (ts_request_id ts) e), ts))"

section \<open>System endpoints\<close>

text \<open>\<open>engine\<close>: whether \<open>init_db\<close> has run; \<open>answer\<close>: what the ping or the query raises or returns.\<close>

definition check_db_health :: "bool \<Rightarrow> exn option \<Rightarrow> string" where
  "check_db_health engine answer =
     (if \<not> engine then ''disconnected'' else case answer of None \<Rightarrow> ''connected'' | Some e \<Rightarrow> ''disconnected'')"

definition check_redis_health :: "bool \<Rightarrow> exn + bool \<Rightarrow> string" where
  "check_redis_health client answer =
     (if \<not> client then ''disconnected''
      else case answer of Inr result \<Rightarrow> if result then ''connected'' else ''disconnected'' | Inl e \<Rightarrow> ''disconnected'')"

record health_response =
  he_status :: string
  he_database :: string
  he_redis :: string
  he_version :: string

definition health :: "string \<Rightarrow> string \<Rightarrow> string \<Rightarrow> int \<times> health_response" where
  "health version db_status redis_status =
     (let all_healthy = (db_status = ''connected'' \<and> redis_status = ''connected'')
      in (if all_healthy then 200 else 503,
          \<lparr>he_status = (if all_healthy then ''healthy'' else ''degraded''), he_database = db_status,
           he_redis = redis_status, he_version = version\<rparr>))"

record root_response =
  ro_name :: string
  ro_version :: string
  ro_status :: string
  ro_description :: string
  ro_environment :: string

definition app_root :: "string \<Rightarrow> string \<Rightarrow> string \<Rightarrow> string \<Rightarrow> root_response" where
  "app_root app_name app_version app_description environment =
     \<lparr>ro_name = app_name, ro_version = app_version, ro_status = ''running'', ro_description = app_description,
      ro_environment = environment\<rparr>"

section \<open>Provider endpoints\<close>

record provider_info =
  pi_name :: string
  pi_enabled :: bool
  pi_available :: bool

definition provider_infos :: "provider_registry \<Rightarrow> provider_info list" where
  "provider_infos reg = map (\<lambda>n. \<lparr>pi_name = n, pi_enabled = True, pi_available = True\<rparr>) (list_providers reg)"

record provider_detail =
  pd_name :: string
  pd_enabled :: bool
  pd_available :: bool
  pd_capabilities :: "string list"

definition get_provider :: "provider_registry \<Rightarrow> string \<Rightarrow> exn + provider_detail" where
  "get_provider reg provider = (case reg_get provider reg of
     Inl e \<Rightarrow> Inl e
   | Inr p \<Rightarrow> Inr \<lparr>pd_name = p, pd_enabled = True, pd_available = True, pd_capabilities = [''chat'']\<rparr>)"

definition list_provider_models ::
  "(string \<Rightarrow> provider_probe) \<Rightarrow> provider_registry \<Rightarrow> string \<Rightarrow> exn + string \<times> string list" where
  "list_provider_models probe reg provider = (case reg_get provider reg of
     Inl e \<Rightarrow> Inl e
   | Inr p \<Rightarrow> (case pr_models (probe p) of Inl e \<Rightarrow> Inl e | Inr models \<Rightarrow> Inr (p, models)))"

section \<open>Facts\<close>

lemmas middleware_defs = application_def request_id_middleware_def logging_middleware_def exception_middleware_def
  error_answer_def Let_def

text \<open>Health: 200 exactly when both services answer, and never an exception.\<close>

lemma health_status:
  "fst (health v (check_db_health engine a) (check_redis_health client b)) =
     (if engine \<and> a = None \<and> client \<and> b = Inr True then 200 else 503)"
  by (auto simp: health_def check_db_health_def check_redis_health_def Let_def split: option.splits sum.splits)

text \<open>Every listed provider can be looked up under the name listed, and no other is listed.\<close>

definition wf_registry :: "provider_registry \<Rightarrow> bool" where
  "wf_registry reg = list_all (\<lambda>(k, p). k = lower p \<and> strip k = k) reg"

lemma register_wf: "strip p = p \<Longrightarrow> wf_registry reg \<Longrightarrow> wf_registry (reg_register p reg)"
proof (induction reg)
  case Nil
  then show ?case by (simp add: reg_register_def wf_registry_def strip_lower)
next
  case (Cons a reg)
  then show ?case by (cases a) (auto simp: reg_register_def wf_registry_def strip_lower)
qed

theorem listed_providers_found:
  assumes "wf_registry reg"
  shows "List.member (map pi_name (provider_infos reg)) n \<longleftrightarrow>
    lower (strip n) = n \<and> (\<exists>d. get_provider reg n = Inr d)"
proof -
  have keys: "k \<in> fst ` set reg \<Longrightarrow> lower (strip k) = k" for k
    using assms by (auto simp: wf_registry_def list_all_iff)
  have "(\<exists>d. get_provider reg n = Inr d) \<longleftrightarrow> lower (strip n) \<in> fst ` set reg"
    by (auto simp: get_provider_def reg_get_def Let_def map_of_eq_None_iff image_iff split: option.splits
        dest!: map_of_SomeD) (metis fst_conv not_None_eq weak_map_of_SomeI)+
  moreover have "List.member (map pi_name (provider_infos reg)) n \<longleftrightarrow> n \<in> fst ` set reg"
    by (simp add: provider_infos_def list_providers_def comp_def)
  ultimately show ?thesis
    using keys by metis
qed

section \<open>Properties\<close>

text \<open>
  C40: every answer but that of the catch-all handler can be traced. Whatever the endpoint does, the header
  of the answer carries one id, the caller's own when it sent one and a fresh one otherwise; the endpoint
  saw this id, an error envelope repeats it, and exactly one line with this id and the answer's status
  is added to the access log. Only an exception without a handler escapes: its answer is a 500 without
  the header, whose envelope holds the id from outside of the request, and the access log has no line.
  In either case the context variable is as it was.
\<close>

theorem request_id_traced:
  assumes "application fresh endpoint rq ts = (r, ts')"
  shows "ts_request_id ts' = ts_request_id ts \<and>
    (case endpoint (request_id_of fresh rq) of
       Inr a \<Rightarrow> r = a\<lparr>ar_request_id := Some (request_id_of fresh rq)\<rparr>
     | Inl e \<Rightarrow> if has_handler e
         then ar_error r = Some (handle_exception (request_id_of fresh rq) e) \<and>
           ar_status r = r_status (handle_exception (request_id_of fresh rq) e) \<and>
           ar_request_id r = Some (request_id_of fresh rq)
         else ar_request_id r = None \<and> ar_error r = Some (handle_exception (ts_request_id ts) e)) \<and>
    (if ar_request_id r \<noteq> None
     then \<exists>l. ts_access ts' = ts_access ts @ [l] \<and> Some (al_request_id l) = ar_request_id r \<and> al_status l = ar_status r \<and>
       (al_level l = ''WARNING'') = (ar_status r \<ge> 400)
     else ts_access ts' = ts_access ts)"
  using assms
  by (cases "endpoint (request_id_of fresh rq)") (auto simp: middleware_defs)

theorem request_id_traced_witness:
  "\<exists>r ts'. application ''fresh'' (\<lambda>rid. Inl (Exn CircuitOpenErrorC ''open''))
      \<lparr>rq_method = ''GET'', rq_path = ''/'', rq_request_id = Some ''mine'', rq_forwarded_for = None, rq_client = None\<rparr>
      \<lparr>ts_request_id = [], ts_access = []\<rparr> = (r, ts') \<and> ar_request_id r = Some ''mine'' \<and> length (ts_access ts') = 1"
proof -
  let ?rq = "\<lparr>rq_method = ''GET'', rq_path = ''/'', rq_request_id = Some ''mine'', rq_forwarded_for = None, rq_client = None\<rparr>"
  obtain r ts' where run: "application ''fresh'' (\<lambda>rid. Inl (Exn CircuitOpenErrorC ''open'')) ?rq
      \<lparr>ts_request_id = [], ts_access = []\<rparr> = (r, ts')"
    by (metis surj_pair)
  have "has_handler (Exn CircuitOpenErrorC ''open'')"
    by (simp add: has_handler_def handler_for_def handled_classes_def)
  then have "ar_request_id r = Some ''mine'' \<and> length (ts_access ts') = 1"
    using request_id_traced [OF run] by (auto simp: request_id_of_def)
  with run show ?thesis by blast
qed

end
