(* ===== verification/Calendar.thy ===== *)
theory Calendar
  imports Main "HOL-Library.Product_Lexorder"
begin

text \<open>
  The part of Python's \<open>datetime\<close> the budget periods use: a date in the proleptic Gregorian calendar with
  a time of day in microseconds, all in UTC; \<open>+ timedelta(days=n)\<close> by repeated successor, and
  \<open>replace(day=1, hour=0, ..)\<close>. Dates are ordered as in Python; years beyond 9999, where Python raises
  \<open>OverflowError\<close>, are not cut off.
\<close>

datatype datetime = DateTime (dt_year: int) (dt_month: int) (dt_day: int) (dt_time: int)

definition dt_tuple :: "datetime \<Rightarrow> int \<times> int \<times> int \<times> int" where
  "dt_tuple d = (dt_year d, dt_month d, dt_day d, dt_time d)"

instantiation datetime :: linorder
begin

definition less_eq_datetime :: "datetime \<Rightarrow> datetime \<Rightarrow> bool" where
  "less_eq_datetime a b = (dt_tuple a \<le> dt_tuple b)"

definition less_datetime :: "datetime \<Rightarrow> datetime \<Rightarrow> bool" where
  "less_datetime a b = (dt_tuple a < dt_tuple b)"

instance
  by standard (auto simp: less_eq_datetime_def less_datetime_def dt_tuple_def datetime.expand)

end

definition is_leap :: "int \<Rightarrow> bool" where
  "is_leap y = (y mod 4 = 0 \<and> (y mod 100 \<noteq> 0 \<or> y mod 400 = 0))"

definition days_in_month :: "int \<Rightarrow> int \<Rightarrow> int" where
  "days_in_month y m = (if m = 2 then (if is_leap y then 29 else 28)
     else if m = 4 \<or> m = 6 \<or> m = 9 \<or> m = 11 then 30 else 31)"

fun next_day :: "datetime \<Rightarrow> datetime" where
  "next_day (DateTime y m d t) =
     (if d < days_in_month y m then DateTime y m (d + 1) t
      else if m < 12 then DateTime y (m + 1) 1 t
      else DateTime (y + 1) 1 1 t)"

fun add_days :: "nat \<Rightarrow> datetime \<Rightarrow> datetime" where
  "add_days 0 d = d"
| "add_days (Suc n) d = add_days n (next_day d)"

fun first_of_month :: "datetime \<Rightarrow> datetime" where
  "first_of_month (DateTime y m d t) = DateTime y m 1 t"

fun midnight_of_first :: "datetime \<Rightarrow> datetime" where
  "midnight_of_first (DateTime y m d t) = DateTime y m 1 0"

definition day_micros :: int where
  "day_micros = 86400000000"

fun valid_datetime :: "datetime \<Rightarrow> bool" where
  "valid_datetime (DateTime y m d t) = (1 \<le> m \<and> m \<le> 12 \<and> 1 \<le> d \<and> d \<le> days_in_month y m \<and>
     0 \<le> t \<and> t < day_micros)"

lemma days_in_month_bounds: "28 \<le> days_in_month y m \<and> days_in_month y m \<le> 31"
  by (simp add: days_in_month_def)

lemma valid_next_day: "valid_datetime d \<Longrightarrow> valid_datetime (next_day d)"
  using days_in_month_bounds by (cases d) (auto intro: order_trans [of 1 28])

lemma valid_add_days: "valid_datetime d \<Longrightarrow> valid_datetime (add_days n d)"
  by (induction n arbitrary: d) (auto simp: valid_next_day)

lemma next_day_later: "d < next_day d"
  by (cases d) (auto simp: less_datetime_def dt_tuple_def)

lemma add_days_later: "0 < n \<Longrightarrow> d < add_days n d"
proof (induction n arbitrary: d)
  case 0
  then show ?case by simp
next
  case (Suc n)
  show ?case
  proof (cases n)
    case 0
    then show ?thesis using next_day_later by simp
  next
    case (Suc k)
    then have "next_day d < add_days n (next_day d)"
      using Suc.IH by simp
    then show ?thesis
      using next_day_later [of d] by (metis add_days.simps(2) order_less_trans)
  qed
qed

lemma add_days_add: "add_days (a + b) d = add_days b (add_days a d)"
  by (induction a arbitrary: d) auto

lemma add_days_in_month: "d + int n \<le> days_in_month y m \<Longrightarrow>
    add_days n (DateTime y m d t) = DateTime y m (d + int n) t"
  by (induction n arbitrary: d) auto

definition next_month :: "int \<Rightarrow> int \<Rightarrow> int \<times> int" where
  "next_month y m = (if m < 12 then (y, m + 1) else (y + 1, 1))"

text \<open>Adding 32 days to the first of a month lands in the following month.\<close>

lemma first_plus_32:
  "\<exists>d. add_days 32 (DateTime y m 1 t) = (case next_month y m of (y', m') \<Rightarrow> DateTime y' m' d t)"
proof -
  define k where "k = nat (days_in_month y m - 1)"
  have k: "int k = days_in_month y m - 1" "27 \<le> k" "k \<le> 30"
    using days_in_month_bounds [of y m] by (auto simp: k_def)
  have last: "add_days k (DateTime y m 1 t) = DateTime y m (days_in_month y m) t"
    using add_days_in_month [of 1 k y m t] k(1) by simp
  have "add_days (k + 1) (DateTime y m 1 t) = (case next_month y m of (y', m') \<Rightarrow> DateTime y' m' 1 t)"
    unfolding add_days_add last by (simp add: next_month_def)
  moreover have "add_days (31 - k) (DateTime y' m' 1 t) = DateTime y' m' (1 + int (31 - k)) t" for y' m'
    using k days_in_month_bounds [of y' m'] by (intro add_days_in_month) auto
  moreover have "(32 :: nat) = (k + 1) + (31 - k)"
    using k(3) by simp
  ultimately show ?thesis
    by (metis (no_types, lifting) add_days_add case_prod_unfold)
qed

end
