(* ===== verification/Auth.thy ===== *)
theory Auth
  imports Errors Schemas Calendar
begin

text \<open>
  Authentication and multi-tenancy (\<open>app/auth/models.py\<close>, \<open>schemas.py\<close>, \<open>security.py\<close>, \<open>service.py\<close>,
  \<open>dependencies.py\<close>): organizations, their teams, the teams' API keys, and the service over the three
  tables. A table is the list of its rows in the order a scan meets them. HMAC-SHA256 is the parameter
  \<open>hmac\<close> (pepper, then text, to hex digest); a failing flush is \<open>Inl\<close>, and the caller's transaction is
  rolled back then.
\<close>

section \<open>Tables (models.py)\<close>

record organization =
  og_id :: string
  og_name :: string
  og_slug :: string
  og_created_at :: datetime
  og_updated_at :: datetime

record team =
  tm_id :: string
  tm_organization_id :: string
  tm_name :: string
  tm_slug :: string
  tm_created_at :: datetime
  tm_updated_at :: datetime

record api_key =
  ak_id :: string
  ak_team_id :: string
  ak_name :: string
  ak_prefix :: string
  ak_hash :: string
  ak_role :: string
  ak_expires_at :: "datetime option"
  ak_revoked_at :: "datetime option"
  ak_created_at :: datetime
  ak_last_used_at :: "datetime option"

record auth_db =
  db_organizations :: "organization list"
  db_teams :: "team list"
  db_keys :: "api_key list"

definition is_active :: "datetime \<Rightarrow> api_key \<Rightarrow> bool" where
  "is_active now k =
     (if ak_revoked_at k \<noteq> None then False
      else case ak_expires_at k of Some e \<Rightarrow> now < e | None \<Rightarrow> True)"

section \<open>Keys (security.py)\<close>

definition generate_api_key :: "string \<Rightarrow> string" where
  "generate_api_key token = ''cxg_'' @ token"

definition extract_key_prefix :: "string \<Rightarrow> string" where
  "extract_key_prefix key = take 20 key"

definition hash_api_key :: "(string \<Rightarrow> string \<Rightarrow> string) \<Rightarrow> string \<Rightarrow> string \<Rightarrow> string" where
  "hash_api_key hmac plaintext pepper = hmac pepper plaintext"

definition verify_api_key :: "(string \<Rightarrow> string \<Rightarrow> string) \<Rightarrow> string \<Rightarrow> string \<Rightarrow> string \<Rightarrow> bool" where
  "verify_api_key hmac plaintext stored pepper = (hash_api_key hmac plaintext pepper = stored)"

section \<open>Request bodies (schemas.py)\<close>

definition slug_char :: "char \<Rightarrow> bool" where
  "slug_char c = (CHR ''a'' \<le> c \<and> c \<le> CHR ''z'' \<or> CHR ''0'' \<le> c \<and> c \<le> CHR ''9'' \<or> c = CHR ''-'')"

definition valid_name :: "string \<Rightarrow> bool" where
  "valid_name s = (1 \<le> length s \<and> length s \<le> 255)"

definition valid_slug :: "string \<Rightarrow> bool" where
  "valid_slug s = (1 \<le> length s \<and> length s \<le> 100 \<and> list_all slug_char s)"

record named_create =
  nc_name :: string
  nc_slug :: string

record key_create =
  kc_name :: string
  kc_role :: string
  kc_expires_at :: "datetime option"

record bootstrap_body =
  bo_organization_name :: string
  bo_organization_slug :: string
  bo_team_name :: string
  bo_team_slug :: string
  bo_key_name :: string

definition invalid_body :: exn where
  "invalid_body = RequestValidationError [([''body''], ''value_error'')]"

definition validate_named :: "named_create \<Rightarrow> exn + named_create" where
  "validate_named b = (if valid_name (nc_name b) \<and> valid_slug (nc_slug b) then Inr b else Inl invalid_body)"

definition validate_key :: "key_create \<Rightarrow> exn + key_create" where
  "validate_key b =
     (if valid_name (kc_name b) \<and> List.member [''admin'', ''member''] (kc_role b) \<and> strip (kc_name b) \<noteq> []
      then Inr (b\<lparr>kc_name := strip (kc_name b)\<rparr>) else Inl invalid_body)"

definition validate_bootstrap :: "bootstrap_body \<Rightarrow> exn + bootstrap_body" where
  "validate_bootstrap b =
     (if valid_name (bo_organization_name b) \<and> valid_slug (bo_organization_slug b) \<and> valid_name (bo_team_name b) \<and>
         valid_slug (bo_team_slug b) \<and> valid_name (bo_key_name b)
      then Inr b else Inl invalid_body)"

section \<open>Service (service.py)\<close>

text \<open>\<open>scalar_one_or_none\<close>\<close>

fun one_or_none :: "'a list \<Rightarrow> exn + 'a option" where
  "one_or_none [] = Inr None"
| "one_or_none [x] = Inr (Some x)"
| "one_or_none (x # y # zs) = Inl (Exn ExceptionC ''Multiple rows were found when one or none was required'')"

definition organizations_exist :: "auth_db \<Rightarrow> bool" where
  "organizations_exist db = (length (db_organizations db) > 0)"

text \<open>Inserts: the primary key and the unique and foreign-key constraints are checked by the flush.\<close>

definition integrity :: exn where
  "integrity = Exn IntegrityErrorC []"

definition create_organization ::
  "string \<Rightarrow> datetime \<Rightarrow> string \<Rightarrow> string \<Rightarrow> auth_db \<Rightarrow> (exn + organization) \<times> auth_db" where
  "create_organization new_id now name slug db =
     (if list_ex (\<lambda>og. og_id og = new_id \<or> og_slug og = slug) (db_organizations db) then (Inl integrity, db)
      else (let org = \<lparr>og_id = new_id, og_name = name, og_slug = slug, og_created_at = now, og_updated_at = now\<rparr>
        in (Inr org, db\<lparr>db_organizations := db_organizations db @ [org]\<rparr>)))"

definition get_organization :: "string \<Rightarrow> auth_db \<Rightarrow> exn + organization option" where
  "get_organization i db = one_or_none (filter (\<lambda>og. og_id og = i) (db_organizations db))"

definition create_team ::
  "string \<Rightarrow> datetime \<Rightarrow> string \<Rightarrow> string \<Rightarrow> string \<Rightarrow> auth_db \<Rightarrow> (exn + team) \<times> auth_db" where
  "create_team new_id now org name slug db =
     (if list_ex (\<lambda>t. tm_id t = new_id \<or> tm_organization_id t = org \<and> tm_slug t = slug) (db_teams db) \<or>
         \<not> list_ex (\<lambda>og. og_id og = org) (db_organizations db) then (Inl integrity, db)
      else (let t = \<lparr>tm_id = new_id, tm_organization_id = org, tm_name = name, tm_slug = slug,
              tm_created_at = now, tm_updated_at = now\<rparr>
        in (Inr t, db\<lparr>db_teams := db_teams db @ [t]\<rparr>)))"

definition get_team :: "string \<Rightarrow> auth_db \<Rightarrow> exn + team option" where
  "get_team i db = one_or_none (filter (\<lambda>t. tm_id t = i) (db_teams db))"

definition list_teams :: "string \<Rightarrow> auth_db \<Rightarrow> team list" where
  "list_teams org db = sort_key tm_created_at (filter (\<lambda>t. tm_organization_id t = org) (db_teams db))"

definition create_api_key ::
  "(string \<Rightarrow> string \<Rightarrow> string) \<Rightarrow> string \<Rightarrow> string \<Rightarrow> string \<Rightarrow> datetime \<Rightarrow> string \<Rightarrow> string \<Rightarrow> string \<Rightarrow>
   datetime option \<Rightarrow> auth_db \<Rightarrow> (exn + api_key \<times> string) \<times> auth_db" where
  "create_api_key hmac pepper token new_id now team name role expires db =
     (let plaintext = generate_api_key token;
          key = \<lparr>ak_id = new_id, ak_team_id = team, ak_name = name, ak_prefix = extract_key_prefix plaintext,
            ak_hash = hash_api_key hmac plaintext pepper, ak_role = role, ak_expires_at = expires,
            ak_revoked_at = None, ak_created_at = now, ak_last_used_at = None\<rparr>
      in if list_ex (\<lambda>k. ak_id k = new_id) (db_keys db) \<or> \<not> list_ex (\<lambda>t. tm_id t = team) (db_teams db)
         then (Inl integrity, db)
         else (Inr (key, plaintext), db\<lparr>db_keys := db_keys db @ [key]\<rparr>))"

definition list_api_keys :: "string \<Rightarrow> auth_db \<Rightarrow> api_key list" where
  "list_api_keys team db = sort_key ak_created_at (filter (\<lambda>k. ak_team_id k = team) (db_keys db))"

definition get_api_key :: "string \<Rightarrow> string \<Rightarrow> auth_db \<Rightarrow> exn + api_key option" where
  "get_api_key key team db = one_or_none (filter (\<lambda>k. ak_id k = key \<and> ak_team_id k = team) (db_keys db))"

definition set_key :: "string \<Rightarrow> (api_key \<Rightarrow> api_key) \<Rightarrow> auth_db \<Rightarrow> auth_db" where
  "set_key i f db = db\<lparr>db_keys := map (\<lambda>k. if ak_id k = i then f k else k) (db_keys db)\<rparr>"

definition revoke_api_key ::
  "datetime \<Rightarrow> string \<Rightarrow> string \<Rightarrow> auth_db \<Rightarrow> (exn + api_key option) \<times> auth_db" where
  "revoke_api_key now key team db = (case get_api_key key team db of
     Inl e \<Rightarrow> (Inl e, db)
   | Inr None \<Rightarrow> (Inr None, db)
   | Inr (Some k) \<Rightarrow> (Inr (Some (k\<lparr>ak_revoked_at := Some now\<rparr>)),
       set_key (ak_id k) (\<lambda>k. k\<lparr>ak_revoked_at := Some now\<rparr>) db))"

definition unauthenticated :: exn where
  "unauthenticated = Exn AuthenticationErrorC ''Authentication required. Provide a valid API key.''"

text \<open>The rows of the indexed lookup, joined to their team and organization\<close>

definition keys_with_hash :: "string \<Rightarrow> auth_db \<Rightarrow> api_key list" where
  "keys_with_hash h db = concat (map (\<lambda>k. concat (map (\<lambda>t. map (\<lambda>og. k)
       (filter (\<lambda>og. tm_organization_id t = og_id og) (db_organizations db)))
     (filter (\<lambda>t. ak_team_id k = tm_id t) (db_teams db)))) (filter (\<lambda>k. ak_hash k = h) (db_keys db)))"

definition authenticate ::
  "(string \<Rightarrow> string \<Rightarrow> string) \<Rightarrow> string \<Rightarrow> datetime \<Rightarrow> string \<Rightarrow> auth_db \<Rightarrow> exn + request_context" where
  "authenticate hmac pepper now plaintext db =
     (if plaintext = [] \<or> \<not> starts_with ''cxg_'' plaintext then Inl unauthenticated
      else case one_or_none (keys_with_hash (hash_api_key hmac plaintext pepper) db) of
          Inl e \<Rightarrow> Inl e
        | Inr None \<Rightarrow> Inl unauthenticated
        | Inr (Some k) \<Rightarrow>
            if \<not> verify_api_key hmac plaintext (ak_hash k) pepper then Inl unauthenticated
            else if \<not> is_active now k then Inl unauthenticated
            else (case get_team (ak_team_id k) db of
                Inl e \<Rightarrow> Inl e
              | Inr None \<Rightarrow> Inl unauthenticated
              | Inr (Some t) \<Rightarrow> (case get_organization (tm_organization_id t) db of
                  Inl e \<Rightarrow> Inl e
                | Inr None \<Rightarrow> Inl unauthenticated
                | Inr (Some og) \<Rightarrow> Inr \<lparr>ctx_organization_id = og_id og, ctx_team_id = tm_id t,
                    ctx_api_key_id = ak_id k, ctx_role = ak_role k\<rparr>)))"

definition update_last_used :: "datetime \<Rightarrow> string \<Rightarrow> auth_db \<Rightarrow> auth_db" where
  "update_last_used now key db = set_key key (\<lambda>k. k\<lparr>ak_last_used_at := Some now\<rparr>) db"

section \<open>Dependencies (dependencies.py)\<close>

definition get_request_context ::
  "(string \<Rightarrow> string \<Rightarrow> string) \<Rightarrow> string \<Rightarrow> datetime \<Rightarrow> string option \<Rightarrow> auth_db \<Rightarrow> exn + request_context" where
  "get_request_context hmac pepper now credentials db = (case credentials of
     None \<Rightarrow> Inl unauthenticated
   | Some c \<Rightarrow> authenticate hmac pepper now c db)"

definition require_admin :: "exn + request_context \<Rightarrow> exn + request_context" where
  "require_admin ctx = (case ctx of
     Inl e \<Rightarrow> Inl e
   | Inr c \<Rightarrow> if ctx_role c \<noteq> ''admin''
       then Inl (Exn AuthorizationErrorC ''This operation requires admin privileges.'') else Inr c)"

section \<open>Invariant of the tables\<close>

text \<open>Primary keys and unique constraints hold, and every foreign key is that of a row.\<close>

definition wf_auth :: "auth_db \<Rightarrow> bool" where
  "wf_auth db =
     (distinct (map og_id (db_organizations db)) \<and> distinct (map og_slug (db_organizations db)) \<and>
      distinct (map tm_id (db_teams db)) \<and> distinct (map (\<lambda>t. (tm_organization_id t, tm_slug t)) (db_teams db)) \<and>
      distinct (map ak_id (db_keys db)) \<and>
      (\<forall>t \<in> set (db_teams db). tm_organization_id t \<in> og_id ` set (db_organizations db)) \<and>
      (\<forall>k \<in> set (db_keys db). ak_team_id k \<in> tm_id ` set (db_teams db)))"

named_theorems auth_wf \<comment> \<open>operations keep the invariant\<close>

lemma filter_unique: "distinct (map f xs) \<Longrightarrow> x \<in> set xs \<Longrightarrow> filter (\<lambda>y. f y = f x) xs = [x]"
  by (induction xs) (auto simp: filter_empty_conv rev_image_eqI)

lemma filter_absent: "i \<notin> f ` set xs \<Longrightarrow> filter (\<lambda>y. f y = i) xs = []"
  by (auto simp: filter_empty_conv)

lemma distinct_map_eq: "distinct (map f xs) \<Longrightarrow> x \<in> set xs \<Longrightarrow> y \<in> set xs \<Longrightarrow> f x = f y \<Longrightarrow> x = y"
  by (auto simp: distinct_map dest: inj_onD)

lemma get_team_row: "wf_auth db \<Longrightarrow> t \<in> set (db_teams db) \<Longrightarrow> get_team (tm_id t) db = Inr (Some t)"
  by (simp add: get_team_def wf_auth_def filter_unique)

lemma get_organization_row:
  "wf_auth db \<Longrightarrow> og \<in> set (db_organizations db) \<Longrightarrow> get_organization (og_id og) db = Inr (Some og)"
  by (simp add: get_organization_def wf_auth_def filter_unique)

lemma team_of:
  assumes "wf_auth db" "k \<in> set (db_keys db)"
  obtains t where "t \<in> set (db_teams db)" "ak_team_id k = tm_id t"
proof -
  have "ak_team_id k \<in> tm_id ` set (db_teams db)"
    using assms by (simp add: wf_auth_def)
  then show thesis
    using that by blast
qed

lemma organization_of:
  assumes "wf_auth db" "t \<in> set (db_teams db)"
  obtains og where "og \<in> set (db_organizations db)" "tm_organization_id t = og_id og"
proof -
  have "tm_organization_id t \<in> og_id ` set (db_organizations db)"
    using assms by (simp add: wf_auth_def)
  then show thesis
    using that by blast
qed

lemma keys_with_hash_row:
  assumes "wf_auth db"
  shows "keys_with_hash h db = filter (\<lambda>k. ak_hash k = h) (db_keys db)"
proof -
  have "concat (map (\<lambda>t. map (\<lambda>og. k) (filter (\<lambda>og. tm_organization_id t = og_id og) (db_organizations db)))
      (filter (\<lambda>t. ak_team_id k = tm_id t) (db_teams db))) = [k]" if "k \<in> set (db_keys db)" for k
  proof -
    obtain t where t: "t \<in> set (db_teams db)" "ak_team_id k = tm_id t"
      using team_of [OF assms \<open>k \<in> set (db_keys db)\<close>] .
    obtain og where og: "og \<in> set (db_organizations db)" "tm_organization_id t = og_id og"
      using organization_of [OF assms t(1)] .
    have "filter (\<lambda>x. ak_team_id k = tm_id x) (db_teams db) = [t]"
      "filter (\<lambda>x. tm_organization_id t = og_id x) (db_organizations db) = [og]"
      using assms filter_unique [of tm_id "db_teams db" t] filter_unique [of og_id "db_organizations db" og] t og
      by (simp_all add: wf_auth_def eq_commute [of "tm_id t"] eq_commute [of "og_id og"])
    then show ?thesis by simp
  qed
  then have "concat (map (\<lambda>k. concat (map (\<lambda>t. map (\<lambda>og. k) (filter (\<lambda>og. tm_organization_id t = og_id og)
      (db_organizations db))) (filter (\<lambda>t. ak_team_id k = tm_id t) (db_teams db)))) ks) = ks"
    if "set ks \<subseteq> set (db_keys db)" for ks
    using that by (induction ks) simp_all
  then show ?thesis
    by (simp add: keys_with_hash_def)
qed

text \<open>Who a credential stands for\<close>

definition stands_for ::
  "(string \<Rightarrow> string \<Rightarrow> string) \<Rightarrow> string \<Rightarrow> datetime \<Rightarrow> string \<Rightarrow> auth_db \<Rightarrow> api_key \<Rightarrow> team \<Rightarrow> organization \<Rightarrow> bool" where
  "stands_for hmac pepper now plaintext db k t og =
     (starts_with ''cxg_'' plaintext \<and> filter (\<lambda>x. ak_hash x = hmac pepper plaintext) (db_keys db) = [k] \<and>
      is_active now k \<and> t \<in> set (db_teams db) \<and> ak_team_id k = tm_id t \<and>
      og \<in> set (db_organizations db) \<and> tm_organization_id t = og_id og)"

lemma authenticate_iff:
  assumes "wf_auth db"
  shows "authenticate hmac pepper now plaintext db = Inr ctx \<longleftrightarrow>
    (\<exists>k t og. stands_for hmac pepper now plaintext db k t og \<and>
       ctx = \<lparr>ctx_organization_id = og_id og, ctx_team_id = tm_id t, ctx_api_key_id = ak_id k, ctx_role = ak_role k\<rparr>)"
proof -
  let ?ks = "filter (\<lambda>x. ak_hash x = hmac pepper plaintext) (db_keys db)"
  consider "?ks = []" | k where "?ks = [k]" | x y zs where "?ks = x # y # zs"
    by (metis list.exhaust)
  then show ?thesis
  proof cases
    case 2
    then have "k \<in> set ?ks" by simp
    then have k: "k \<in> set (db_keys db)" and hash: "ak_hash k = hmac pepper plaintext"
      by simp_all
    obtain t where t: "t \<in> set (db_teams db)" "ak_team_id k = tm_id t"
      using team_of [OF assms k] .
    obtain og where og: "og \<in> set (db_organizations db)" "tm_organization_id t = og_id og"
      using organization_of [OF assms t(1)] .
    have only: "stands_for hmac pepper now plaintext db k' t' og' \<longleftrightarrow>
        starts_with ''cxg_'' plaintext \<and> is_active now k \<and> k' = k \<and> t' = t \<and> og' = og" for k' t' og'
    proof
      assume stands: "stands_for hmac pepper now plaintext db k' t' og'"
      have "k' = k"
        using 2 stands by (simp add: stands_for_def)
      moreover have "t' = t"
        using assms t stands \<open>k' = k\<close> by (auto simp: stands_for_def wf_auth_def intro: distinct_map_eq)
      moreover have "og' = og"
        using assms og stands \<open>t' = t\<close> by (auto simp: stands_for_def wf_auth_def intro: distinct_map_eq)
      ultimately show "starts_with ''cxg_'' plaintext \<and> is_active now k \<and> k' = k \<and> t' = t \<and> og' = og"
        using stands by (simp add: stands_for_def)
    next
      assume "starts_with ''cxg_'' plaintext \<and> is_active now k \<and> k' = k \<and> t' = t \<and> og' = og"
      then show "stands_for hmac pepper now plaintext db k' t' og'"
        using 2 t og by (simp add: stands_for_def)
    qed
    have "plaintext \<noteq> []" if "starts_with ''cxg_'' plaintext"
      using that by auto
    then have "authenticate hmac pepper now plaintext db =
        (if starts_with ''cxg_'' plaintext \<and> is_active now k then
           Inr \<lparr>ctx_organization_id = og_id og, ctx_team_id = tm_id t, ctx_api_key_id = ak_id k, ctx_role = ak_role k\<rparr>
         else Inl unauthenticated)"
      using get_team_row [OF assms t(1)] get_organization_row [OF assms og(1)] 2 hash t(2) og(2)
      by (simp add: authenticate_def keys_with_hash_row [OF assms] hash_api_key_def verify_api_key_def)
    then show ?thesis
      unfolding only by auto
  qed (auto simp: authenticate_def keys_with_hash_row [OF assms] hash_api_key_def stands_for_def)
qed

lemma authenticated:
  assumes "wf_auth db" "authenticate hmac pepper now plaintext db = Inr ctx"
  obtains k t og where "k \<in> set (db_keys db)" "ak_hash k = hmac pepper plaintext" "is_active now k"
    "t \<in> set (db_teams db)" "ak_team_id k = tm_id t" "og \<in> set (db_organizations db)"
    "tm_organization_id t = og_id og"
    "ctx = \<lparr>ctx_organization_id = og_id og, ctx_team_id = tm_id t, ctx_api_key_id = ak_id k, ctx_role = ak_role k\<rparr>"
proof -
  from assms obtain k t og where s: "stands_for hmac pepper now plaintext db k t og" and
    "ctx = \<lparr>ctx_organization_id = og_id og, ctx_team_id = tm_id t, ctx_api_key_id = ak_id k, ctx_role = ak_role k\<rparr>"
    by (auto simp: authenticate_iff)
  moreover have "k \<in> set (filter (\<lambda>x. ak_hash x = hmac pepper plaintext) (db_keys db))"
    using s unfolding stands_for_def by (metis list.set_intros(1))
  then have "k \<in> set (db_keys db)" "ak_hash k = hmac pepper plaintext"
    by simp_all
  ultimately show thesis
    using that [of k t og] by (simp add: stands_for_def)
qed

section \<open>Operations keep the invariant\<close>

lemma created_organization:
  assumes "create_organization i now name slug db = (Inr og, db')"
  shows "db' = db\<lparr>db_organizations := db_organizations db @ [og]\<rparr>" "og_id og = i" "og_slug og = slug"
    "i \<notin> og_id ` set (db_organizations db)" "slug \<notin> og_slug ` set (db_organizations db)"
  using assms by (auto simp: create_organization_def Let_def list_ex_iff split: if_splits)

lemma created_team:
  assumes "create_team i now org name slug db = (Inr t, db')"
  shows "db' = db\<lparr>db_teams := db_teams db @ [t]\<rparr>" "tm_id t = i" "tm_organization_id t = org" "tm_slug t = slug"
    "i \<notin> tm_id ` set (db_teams db)" "org \<in> og_id ` set (db_organizations db)"
    "(org, slug) \<notin> (\<lambda>t. (tm_organization_id t, tm_slug t)) ` set (db_teams db)"
  using assms by (auto simp: create_team_def Let_def list_ex_iff split: if_splits)

lemma created_key:
  assumes "create_api_key hmac pepper token i now team name role expires db = (Inr (k, plaintext), db')"
  shows "db' = db\<lparr>db_keys := db_keys db @ [k]\<rparr>" "ak_id k = i" "ak_team_id k = team" "ak_role k = role"
    "ak_revoked_at k = None" "ak_expires_at k = expires" "plaintext = generate_api_key token"
    "ak_hash k = hmac pepper plaintext" "i \<notin> ak_id ` set (db_keys db)" "team \<in> tm_id ` set (db_teams db)"
  using assms by (auto simp: create_api_key_def Let_def list_ex_iff hash_api_key_def split: if_splits)

lemma wf_create_organization [auth_wf]:
  "create_organization i now name slug db = (Inr og, db') \<Longrightarrow> wf_auth db \<Longrightarrow> wf_auth db'"
  using created_organization [of i now name slug db og db'] by (auto simp: wf_auth_def)

lemma wf_create_team [auth_wf]:
  "create_team i now org name slug db = (Inr t, db') \<Longrightarrow> wf_auth db \<Longrightarrow> wf_auth db'"
  using created_team [of i now org name slug db t db'] by (auto simp: wf_auth_def)

lemma wf_create_key [auth_wf]:
  assumes "create_api_key hmac pepper token i now team name role expires db = (Inr kp, db')" "wf_auth db"
  shows "wf_auth db'"
proof -
  obtain k p where "kp = (k, p)" by (cases kp)
  then show ?thesis
    using assms created_key [of hmac pepper token i now team name role expires db k p db'] by (auto simp: wf_auth_def)
qed

text \<open>An update of one key that keeps what the tables refer to\<close>

definition marks :: "(api_key \<Rightarrow> api_key) \<Rightarrow> bool" where
  "marks f = (\<forall>k. ak_id (f k) = ak_id k \<and> ak_team_id (f k) = ak_team_id k \<and> ak_hash (f k) = ak_hash k \<and>
     ak_role (f k) = ak_role k \<and> (ak_revoked_at k \<noteq> None \<longrightarrow> ak_revoked_at (f k) \<noteq> None))"

lemma marks_fields [simp]:
  "marks (\<lambda>k. k\<lparr>ak_revoked_at := Some t\<rparr>)" "marks (\<lambda>k. k\<lparr>ak_last_used_at := Some t\<rparr>)"
  by (simp_all add: marks_def)

lemma wf_set_key [auth_wf]:
  assumes "marks f" "wf_auth db"
  shows "wf_auth (set_key i f db)"
proof -
  have "ak_id \<circ> (\<lambda>k. if ak_id k = i then f k else k) = ak_id"
    using assms(1) by (auto simp: marks_def)
  then show ?thesis
    using assms by (auto simp: wf_auth_def set_key_def marks_def)
qed

lemma get_api_key_row:
  assumes "wf_auth db"
  shows "get_api_key key team db = Inr (Some k) \<longleftrightarrow> k \<in> set (db_keys db) \<and> ak_id k = key \<and> ak_team_id k = team"
    and "\<exists>v. get_api_key key team db = Inr v"
proof -
  have unique: "filter (\<lambda>k. ak_id k = key \<and> ak_team_id k = team) (db_keys db) =
      (if ak_team_id k = team then [k] else [])" if "k \<in> set (db_keys db)" "ak_id k = key" for k
  proof -
    have "filter (\<lambda>x. ak_id x = key) (db_keys db) = [k]"
      using filter_unique [of ak_id "db_keys db" k] assms that by (simp add: wf_auth_def)
    then have "filter (\<lambda>x. ak_team_id x = team) (filter (\<lambda>x. ak_id x = key) (db_keys db)) =
        (if ak_team_id k = team then [k] else [])"
      by simp
    then show ?thesis
      by (simp add: conj_commute)
  qed
  show "get_api_key key team db = Inr (Some k) \<longleftrightarrow> k \<in> set (db_keys db) \<and> ak_id k = key \<and> ak_team_id k = team"
  proof
    assume "get_api_key key team db = Inr (Some k)"
    then have "filter (\<lambda>k. ak_id k = key \<and> ak_team_id k = team) (db_keys db) = [k]"
      by (cases "filter (\<lambda>k. ak_id k = key \<and> ak_team_id k = team) (db_keys db)" rule: one_or_none.cases)
        (simp_all add: get_api_key_def)
    then have "k \<in> set (filter (\<lambda>k. ak_id k = key \<and> ak_team_id k = team) (db_keys db))" by simp
    then show "k \<in> set (db_keys db) \<and> ak_id k = key \<and> ak_team_id k = team" by simp
  qed (use unique [of k] in \<open>auto simp: get_api_key_def\<close>)
  show "\<exists>v. get_api_key key team db = Inr v"
  proof (cases "\<exists>k \<in> set (db_keys db). ak_id k = key")
    case True
    then show ?thesis
      using unique by (auto simp: get_api_key_def split: if_splits)
  next
    case False
    then have "filter (\<lambda>k. ak_id k = key \<and> ak_team_id k = team) (db_keys db) = []"
      by (auto simp: filter_empty_conv)
    then show ?thesis by (simp add: get_api_key_def)
  qed
qed

end
