(* ===== verification/Accounts.thy ===== *)
theory Accounts
  imports Auth
begin

text \<open>
  The endpoints of \<open>app/api/v1/endpoints/bootstrap.py\<close>, \<open>organizations.py\<close>, \<open>teams.py\<close>, \<open>api_keys.py\<close> and
  \<open>auth_me.py\<close>: each authenticates its caller, checks what the caller may touch and calls the service,
  in one transaction of the request (\<open>app/database/session.py\<close>): committed if the handler returns,
  rolled back if it raises. The theorems are about every sequence of such requests.
\<close>

section \<open>Requests and replies\<close>

text \<open>The settings of the server, and what a request draws from outside: the time, new ids and a token.\<close>

record auth_env =
  en_hmac :: "string \<Rightarrow> string \<Rightarrow> string"
  en_pepper :: string
  en_bootstrap_enabled :: bool
  en_bootstrap_token :: string

record draw =
  dr_now :: datetime
  dr_id :: "nat \<Rightarrow> string"
  dr_token :: string

text \<open>A handler returns its response or a \<open>JSONResponse\<close> of its own (status, code, message).\<close>

datatype 'a reply = Reply 'a | JsonReply int string string

definition run_session :: "'d \<Rightarrow> (exn + 'a) \<times> 'd \<Rightarrow> (exn + 'a) \<times> 'd" where
  "run_session db res = (case res of (Inl e, db') \<Rightarrow> (Inl e, db) | (Inr r, db') \<Rightarrow> (Inr r, db'))"

record key_response =
  kr_id :: string
  kr_name :: string
  kr_prefix :: string
  kr_role :: string
  kr_expires_at :: "datetime option"
  kr_revoked_at :: "datetime option"
  kr_created_at :: datetime
  kr_last_used_at :: "datetime option"

definition to_key_response :: "api_key \<Rightarrow> key_response" where
  "to_key_response k = \<lparr>kr_id = ak_id k, kr_name = ak_name k, kr_prefix = ak_prefix k, kr_role = ak_role k,
     kr_expires_at = ak_expires_at k, kr_revoked_at = ak_revoked_at k, kr_created_at = ak_created_at k,
     kr_last_used_at = ak_last_used_at k\<rparr>"

record created_response =
  cr_id :: string
  cr_name :: string
  cr_key :: string
  cr_prefix :: string
  cr_role :: string
  cr_expires_at :: "datetime option"
  cr_created_at :: datetime

definition to_created_response :: "api_key \<times> string \<Rightarrow> created_response" where
  "to_created_response kp = (case kp of (k, plaintext) \<Rightarrow> \<lparr>cr_id = ak_id k, cr_name = ak_name k, cr_key = plaintext,
     cr_prefix = ak_prefix k, cr_role = ak_role k, cr_expires_at = ak_expires_at k, cr_created_at = ak_created_at k\<rparr>)"

definition caller :: "auth_env \<Rightarrow> draw \<Rightarrow> string option \<Rightarrow> auth_db \<Rightarrow> exn + request_context" where
  "caller env dr cred db = get_request_context (en_hmac env) (en_pepper env) (dr_now dr) cred db"

definition access_denied :: exn where
  "access_denied = Exn AuthorizationErrorC ''Access denied.''"

definition new_key ::
  "auth_env \<Rightarrow> draw \<Rightarrow> nat \<Rightarrow> string \<Rightarrow> string \<Rightarrow> string \<Rightarrow> datetime option \<Rightarrow> auth_db \<Rightarrow>
   (exn + api_key \<times> string) \<times> auth_db" where
  "new_key env dr n team name role expires db =
     create_api_key (en_hmac env) (en_pepper env) (dr_token dr) (dr_id dr n) (dr_now dr) team name role expires db"

section \<open>Bootstrap\<close>

definition invalid_token :: exn where
  "invalid_token = Exn AuthenticationErrorC ''Invalid bootstrap token.''"

definition bootstrap_handler ::
  "auth_env \<Rightarrow> draw \<Rightarrow> string option \<Rightarrow> bootstrap_body \<Rightarrow> auth_db \<Rightarrow>
   (exn + (organization \<times> team \<times> created_response) reply) \<times> auth_db" where
  "bootstrap_handler env dr cred body db =
     (if \<not> en_bootstrap_enabled env then (Inr (JsonReply 503 ''BOOTSTRAP_DISABLED'' ''Bootstrap is disabled.''), db)
      else if cred = None \<or> cred = Some [] then (Inl invalid_token, db)
      else if en_bootstrap_token env = [] \<or> cred \<noteq> Some (en_bootstrap_token env) then (Inl invalid_token, db)
      else if organizations_exist db then
        (Inr (JsonReply 409 ''BOOTSTRAP_ALREADY_COMPLETED''
           ''Bootstrap has already been completed. An organization already exists.''), db)
      else (case create_organization (dr_id dr 0) (dr_now dr) (bo_organization_name body) (bo_organization_slug body) db of
          (Inl e, db) \<Rightarrow> (Inl e, db)
        | (Inr org, db) \<Rightarrow>
            (case create_team (dr_id dr 1) (dr_now dr) (og_id org) (bo_team_name body) (bo_team_slug body) db of
              (Inl e, db) \<Rightarrow> (Inl e, db)
            | (Inr t, db) \<Rightarrow> (case new_key env dr 2 (tm_id t) (bo_key_name body) ''admin'' None db of
                (Inl e, db) \<Rightarrow> (Inl e, db)
              | (Inr kp, db) \<Rightarrow> (Inr (Reply (org, t, to_created_response kp)), db)))))"

definition bootstrap ::
  "auth_env \<Rightarrow> draw \<Rightarrow> string option \<Rightarrow> bootstrap_body \<Rightarrow> auth_db \<Rightarrow>
   (exn + (organization \<times> team \<times> created_response) reply) \<times> auth_db" where
  "bootstrap env dr cred body db = (case validate_bootstrap body of
     Inl e \<Rightarrow> (Inl e, db) | Inr b \<Rightarrow> run_session db (bootstrap_handler env dr cred b db))"

section \<open>Organizations, teams and keys\<close>

definition post_organization ::
  "auth_env \<Rightarrow> draw \<Rightarrow> string option \<Rightarrow> named_create \<Rightarrow> auth_db \<Rightarrow> (exn + organization) \<times> auth_db" where
  "post_organization env dr cred body db = (case require_admin (caller env dr cred db) of
     Inl e \<Rightarrow> (Inl e, db)
   | Inr ctx \<Rightarrow> (case validate_named body of
       Inl e \<Rightarrow> (Inl e, db)
     | Inr b \<Rightarrow> run_session db (create_organization (dr_id dr 0) (dr_now dr) (nc_name b) (nc_slug b) db)))"

definition read_organization ::
  "auth_env \<Rightarrow> draw \<Rightarrow> string option \<Rightarrow> string \<Rightarrow> auth_db \<Rightarrow> exn + organization reply" where
  "read_organization env dr cred org db = (case caller env dr cred db of
     Inl e \<Rightarrow> Inl e
   | Inr ctx \<Rightarrow> if ctx_organization_id ctx \<noteq> org then Inl access_denied
       else (case get_organization org db of
           Inl e \<Rightarrow> Inl e
         | Inr None \<Rightarrow> Inr (JsonReply 404 ''NOT_FOUND'' ''Organization not found.'')
         | Inr (Some og) \<Rightarrow> Inr (Reply og)))"

definition post_team ::
  "auth_env \<Rightarrow> draw \<Rightarrow> string option \<Rightarrow> string \<Rightarrow> named_create \<Rightarrow> auth_db \<Rightarrow> (exn + team) \<times> auth_db" where
  "post_team env dr cred org body db = (case require_admin (caller env dr cred db) of
     Inl e \<Rightarrow> (Inl e, db)
   | Inr ctx \<Rightarrow> (case validate_named body of
       Inl e \<Rightarrow> (Inl e, db)
     | Inr b \<Rightarrow> if ctx_organization_id ctx \<noteq> org then (Inl access_denied, db)
         else run_session db (create_team (dr_id dr 0) (dr_now dr) org (nc_name b) (nc_slug b) db)))"

definition read_teams :: "auth_env \<Rightarrow> draw \<Rightarrow> string option \<Rightarrow> string \<Rightarrow> auth_db \<Rightarrow> exn + team list" where
  "read_teams env dr cred org db = (case require_admin (caller env dr cred db) of
     Inl e \<Rightarrow> Inl e
   | Inr ctx \<Rightarrow> if ctx_organization_id ctx \<noteq> org then Inl access_denied else Inr (list_teams org db))"

definition post_key ::
  "auth_env \<Rightarrow> draw \<Rightarrow> string option \<Rightarrow> string \<Rightarrow> key_create \<Rightarrow> auth_db \<Rightarrow> (exn + created_response) \<times> auth_db" where
  "post_key env dr cred team body db = (case require_admin (caller env dr cred db) of
     Inl e \<Rightarrow> (Inl e, db)
   | Inr ctx \<Rightarrow> (case validate_key body of
       Inl e \<Rightarrow> (Inl e, db)
     | Inr b \<Rightarrow> if ctx_team_id ctx \<noteq> team then (Inl access_denied, db)
         else run_session db (case new_key env dr 0 team (kc_name b) (kc_role b) (kc_expires_at b) db of
             (Inl e, db) \<Rightarrow> (Inl e, db) | (Inr kp, db) \<Rightarrow> (Inr (to_created_response kp), db))))"

definition read_keys :: "auth_env \<Rightarrow> draw \<Rightarrow> string option \<Rightarrow> string \<Rightarrow> auth_db \<Rightarrow> exn + key_response list" where
  "read_keys env dr cred team db = (case require_admin (caller env dr cred db) of
     Inl e \<Rightarrow> Inl e
   | Inr ctx \<Rightarrow> if ctx_team_id ctx \<noteq> team then Inl access_denied
       else Inr (map to_key_response (list_api_keys team db)))"

definition revoke_key ::
  "auth_env \<Rightarrow> draw \<Rightarrow> string option \<Rightarrow> string \<Rightarrow> string \<Rightarrow> auth_db \<Rightarrow> (exn + key_response reply) \<times> auth_db" where
  "revoke_key env dr cred team key db = (case require_admin (caller env dr cred db) of
     Inl e \<Rightarrow> (Inl e, db)
   | Inr ctx \<Rightarrow> if ctx_team_id ctx \<noteq> team then (Inl access_denied, db)
       else run_session db (case revoke_api_key (dr_now dr) key team db of
           (Inl e, db) \<Rightarrow> (Inl e, db)
         | (Inr None, db) \<Rightarrow> (Inr (JsonReply 404 ''NOT_FOUND'' ''API key not found in this team.''), db)
         | (Inr (Some k), db) \<Rightarrow> (Inr (Reply (to_key_response k)), db)))"

definition get_me :: "auth_env \<Rightarrow> draw \<Rightarrow> string option \<Rightarrow> auth_db \<Rightarrow> exn + request_context" where
  "get_me env dr cred db = caller env dr cred db"

section \<open>Any sequence of requests\<close>

datatype auth_request =
    Bootstrap "string option" bootstrap_body
  | PostOrganization "string option" named_create
  | PostTeam "string option" string named_create
  | PostKey "string option" string key_create
  | RevokeKey "string option" string string
  | TouchKey string  \<comment> \<open>the task an authenticated request leaves behind\<close>

fun auth_step :: "auth_env \<Rightarrow> draw \<Rightarrow> auth_request \<Rightarrow> auth_db \<Rightarrow> auth_db" where
  "auth_step env dr (Bootstrap cred body) db = snd (bootstrap env dr cred body db)"
| "auth_step env dr (PostOrganization cred body) db = snd (post_organization env dr cred body db)"
| "auth_step env dr (PostTeam cred org body) db = snd (post_team env dr cred org body db)"
| "auth_step env dr (PostKey cred team body) db = snd (post_key env dr cred team body db)"
| "auth_step env dr (RevokeKey cred team key) db = snd (revoke_key env dr cred team key db)"
| "auth_step env dr (TouchKey key) db = update_last_used (dr_now dr) key db"

inductive auth_run :: "auth_env \<Rightarrow> auth_db \<Rightarrow> auth_db \<Rightarrow> bool" for env where
  start: "auth_run env db db"
| serve: "auth_run env db db' \<Longrightarrow> auth_run env db (auth_step env dr req db')"

definition empty_db :: auth_db where
  "empty_db = \<lparr>db_organizations = [], db_teams = [], db_keys = []\<rparr>"

section \<open>What a request can change\<close>

text \<open>A caller with administrator rights\<close>

definition admin_caller :: "auth_env \<Rightarrow> auth_db \<Rightarrow> request_context \<Rightarrow> bool" where
  "admin_caller env db ctx =
     (ctx_role ctx = ''admin'' \<and> (\<exists>now cred. authenticate (en_hmac env) (en_pepper env) now cred db = Inr ctx))"

text \<open>The changes the tenancy contract allows; every request refines it.\<close>

inductive auth_change :: "auth_env \<Rightarrow> auth_db \<Rightarrow> auth_db \<Rightarrow> bool" for env db where
  unchanged: "auth_change env db db"
| founded: "db_organizations db = [] \<Longrightarrow> tm_organization_id t = og_id og \<Longrightarrow> ak_team_id k = tm_id t \<Longrightarrow>
    ak_role k = ''admin'' \<Longrightarrow> ak_revoked_at k = None \<Longrightarrow>
    auth_change env db \<lparr>db_organizations = [og], db_teams = [t], db_keys = [k]\<rparr>"
| organization: "admin_caller env db ctx \<Longrightarrow> og_id og \<notin> og_id ` set (db_organizations db) \<Longrightarrow>
    auth_change env db (db\<lparr>db_organizations := db_organizations db @ [og]\<rparr>)"
| team: "admin_caller env db ctx \<Longrightarrow> tm_organization_id t = ctx_organization_id ctx \<Longrightarrow>
    tm_id t \<notin> tm_id ` set (db_teams db) \<Longrightarrow> auth_change env db (db\<lparr>db_teams := db_teams db @ [t]\<rparr>)"
| key: "admin_caller env db ctx \<Longrightarrow> ak_team_id k = ctx_team_id ctx \<Longrightarrow> ak_revoked_at k = None \<Longrightarrow>
    ak_id k \<notin> ak_id ` set (db_keys db) \<Longrightarrow> auth_change env db (db\<lparr>db_keys := db_keys db @ [k]\<rparr>)"
| mark: "marks f \<Longrightarrow> auth_change env db (set_key i f db)"

lemma no_organizations:
  assumes "wf_auth db" "db_organizations db = []"
  shows "db_teams db = []" "db_keys db = []"
proof -
  show "db_teams db = []"
    using assms by (cases "db_teams db") (auto simp: wf_auth_def)
  then show "db_keys db = []"
    using assms by (cases "db_keys db") (auto simp: wf_auth_def)
qed

lemma admin_required:
  assumes "require_admin (caller env dr cred db) = Inr ctx"
  shows "admin_caller env db ctx" "\<exists>c. cred = Some c \<and> authenticate (en_hmac env) (en_pepper env) (dr_now dr) c db = Inr ctx"
  using assms by (auto simp: admin_caller_def require_admin_def caller_def get_request_context_def
      split: sum.splits if_splits option.splits)

lemma session_cases:
  assumes "run_session db res = (out, db')"
  obtains e where "out = Inl e" "db' = db" | r where "out = Inr r" "res = (Inr r, db')"
  using assms by (auto simp: run_session_def split: prod.splits sum.splits)

lemma post_organization_cases:
  assumes "post_organization env dr cred body db = (out, db')"
  obtains e where "out = Inl e" "db' = db"
  | ctx b og where "require_admin (caller env dr cred db) = Inr ctx" "validate_named body = Inr b" "out = Inr og"
      "create_organization (dr_id dr 0) (dr_now dr) (nc_name b) (nc_slug b) db = (Inr og, db')"
  using assms by (auto simp: post_organization_def split: sum.splits elim: session_cases)

lemma post_team_cases:
  assumes "post_team env dr cred org body db = (out, db')"
  obtains e where "out = Inl e" "db' = db"
  | ctx b t where "require_admin (caller env dr cred db) = Inr ctx" "validate_named body = Inr b" "out = Inr t"
      "ctx_organization_id ctx = org"
      "create_team (dr_id dr 0) (dr_now dr) org (nc_name b) (nc_slug b) db = (Inr t, db')"
  using assms by (auto simp: post_team_def split: sum.splits if_splits elim: session_cases)

lemma post_key_cases:
  assumes "post_key env dr cred team body db = (out, db')"
  obtains e where "out = Inl e" "db' = db"
  | ctx b k p where "require_admin (caller env dr cred db) = Inr ctx" "validate_key body = Inr b"
      "out = Inr (to_created_response (k, p))" "ctx_team_id ctx = team"
      "new_key env dr 0 team (kc_name b) (kc_role b) (kc_expires_at b) db = (Inr (k, p), db')"
  using assms by (auto simp: post_key_def split: sum.splits if_splits prod.splits elim!: session_cases)

lemma revoke_key_cases:
  assumes "wf_auth db" "revoke_key env dr cred team key db = (out, db')"
  obtains e where "out = Inl e" "db' = db"
  | "out = Inr (JsonReply 404 ''NOT_FOUND'' ''API key not found in this team.'')" "db' = db"
      "get_api_key key team db = Inr None"
  | ctx k where "require_admin (caller env dr cred db) = Inr ctx" "ctx_team_id ctx = team"
      "out = Inr (Reply (to_key_response (k\<lparr>ak_revoked_at := Some (dr_now dr)\<rparr>)))"
      "k \<in> set (db_keys db)" "ak_id k = key" "ak_team_id k = team"
      "db' = set_key key (\<lambda>k. k\<lparr>ak_revoked_at := Some (dr_now dr)\<rparr>) db"
proof (cases "require_admin (caller env dr cred db)")
  case (Inl e)
  then show ?thesis
    using assms(2) that(1) by (auto simp: revoke_key_def)
next
  case (Inr ctx)
  obtain v where v: "get_api_key key team db = Inr v"
    using get_api_key_row(2) [OF assms(1)] by blast
  show ?thesis
  proof (cases "ctx_team_id ctx = team")
    case False
    then show ?thesis
      using assms(2) that(1) Inr by (auto simp: revoke_key_def)
  next
    case own: True
    show ?thesis
    proof (cases v)
      case None
      then show ?thesis
        using assms(2) that(2) Inr own v by (simp add: revoke_key_def revoke_api_key_def run_session_def)
    next
      case (Some k)
      then have "k \<in> set (db_keys db)" "ak_id k = key" "ak_team_id k = team"
        using v get_api_key_row(1) [OF assms(1)] by blast+
      then show ?thesis
        using assms(2) that(3) [of ctx k] Inr own v Some
        by (simp add: revoke_key_def revoke_api_key_def run_session_def)
    qed
  qed
qed

lemma bootstrap_step:
  assumes "wf_auth db"
  shows "auth_change env db (snd (bootstrap env dr cred body db)) \<and> wf_auth (snd (bootstrap env dr cred body db))"
proof (cases "snd (bootstrap env dr cred body db) = db")
  case True
  then show ?thesis
    using assms by (simp add: unchanged)
next
  case False
  then have none: "db_organizations db = []"
    by (auto simp: bootstrap_def bootstrap_handler_def run_session_def organizations_exist_def
        split: sum.splits if_splits)
  from False obtain b :: bootstrap_body and og db1 t db2 kp where steps:
    "create_organization (dr_id dr 0) (dr_now dr) (bo_organization_name b) (bo_organization_slug b) db = (Inr og, db1)"
    "create_team (dr_id dr 1) (dr_now dr) (og_id og) (bo_team_name b) (bo_team_slug b) db1 = (Inr t, db2)"
    "new_key env dr 2 (tm_id t) (bo_key_name b) ''admin'' None db2 = (Inr kp, snd (bootstrap env dr cred body db))"
    by (auto simp: bootstrap_def bootstrap_handler_def run_session_def simp del: One_nat_def
        split: sum.splits if_splits prod.splits)
  obtain k p where kp: "kp = (k, p)" by (cases kp)
  note made = created_organization [OF steps(1)] created_team [OF steps(2)]
    created_key [OF steps(3) [unfolded new_key_def kp]]
  have "snd (bootstrap env dr cred body db) = \<lparr>db_organizations = [og], db_teams = [t], db_keys = [k]\<rparr>"
    using made no_organizations [OF assms none] none by (cases db) simp
  moreover have "wf_auth (snd (bootstrap env dr cred body db))"
    using wf_create_key [OF steps(3) [unfolded new_key_def]] wf_create_team [OF steps(2)]
      wf_create_organization [OF steps(1)] assms by blast
  ultimately show ?thesis
    using founded [OF none, of t og k env] made by simp
qed

lemma auth_step_change:
  assumes "wf_auth db"
  shows "auth_change env db (auth_step env dr req db) \<and> wf_auth (auth_step env dr req db)"
proof (cases req)
  case (Bootstrap cred body)
  then show ?thesis
    using bootstrap_step [OF assms] by simp
next
  case (PostOrganization cred body)
  obtain out db' where run: "post_organization env dr cred body db = (out, db')" by fastforce
  then have db': "auth_step env dr req db = db'" by (simp add: PostOrganization)
  from run have "auth_change env db db' \<and> wf_auth db'"
  proof (cases rule: post_organization_cases)
    case (2 ctx b og)
    then show ?thesis
      using created_organization [OF 2(4)] wf_create_organization [OF 2(4) assms]
        organization [OF admin_required(1) [OF 2(1)], of og] by simp
  qed (use assms unchanged in auto)
  then show ?thesis by (simp add: db')
next
  case (PostTeam cred org body)
  obtain out db' where run: "post_team env dr cred org body db = (out, db')" by fastforce
  then have db': "auth_step env dr req db = db'" by (simp add: PostTeam)
  from run have "auth_change env db db' \<and> wf_auth db'"
  proof (cases rule: post_team_cases)
    case (2 ctx b t)
    then show ?thesis
      using created_team [OF 2(5)] wf_create_team [OF 2(5) assms]
        team [OF admin_required(1) [OF 2(1)], of t] by simp
  qed (use assms unchanged in auto)
  then show ?thesis by (simp add: db')
next
  case (PostKey cred team body)
  obtain out db' where run: "post_key env dr cred team body db = (out, db')" by fastforce
  then have db': "auth_step env dr req db = db'" by (simp add: PostKey)
  from run have "auth_change env db db' \<and> wf_auth db'"
  proof (cases rule: post_key_cases)
    case (2 ctx b k p)
    then show ?thesis
      using created_key [OF 2(5) [unfolded new_key_def]] wf_create_key [OF 2(5) [unfolded new_key_def] assms]
        key [OF admin_required(1) [OF 2(1)], of k] by simp
  qed (use assms unchanged in auto)
  then show ?thesis by (simp add: db')
next
  case (RevokeKey cred team key)
  obtain out db' where run: "revoke_key env dr cred team key db = (out, db')" by fastforce
  then have db': "auth_step env dr req db = db'" by (simp add: RevokeKey)
  from assms run show ?thesis
    by (cases rule: revoke_key_cases) (use assms in \<open>simp_all add: db' unchanged mark wf_set_key\<close>)
next
  case (TouchKey key)
  then show ?thesis
    using assms by (simp add: update_last_used_def mark wf_set_key)
qed

section \<open>Runs\<close>

lemma run_invariant:
  assumes "auth_run env db db'" "wf_auth db" "P db"
    and step: "\<And>x y. wf_auth x \<Longrightarrow> P x \<Longrightarrow> auth_change env x y \<Longrightarrow> P y"
  shows "wf_auth db' \<and> P db'"
  using assms(1-3)
proof induction
  case (serve db db' dr req)
  then show ?case
    using step [of db' "auth_step env dr req db'"] auth_step_change [of db' env dr req] by simp
qed simp

lemma marked_row:
  assumes "marks f" "k \<in> set (db_keys db)"
  shows "\<exists>k' \<in> set (db_keys (set_key i f db)). ak_id k' = ak_id k \<and> (ak_revoked_at k \<noteq> None \<longrightarrow> ak_revoked_at k' \<noteq> None)"
proof
  show "(if ak_id k = i then f k else k) \<in> set (db_keys (set_key i f db))"
    using assms(2) by (simp add: set_key_def)
qed (use assms(1) in \<open>simp add: marks_def\<close>)

lemma revoked_row:
  assumes "k \<in> set (db_keys db)"
  shows "\<exists>k' \<in> set (db_keys (set_key (ak_id k) (\<lambda>k. k\<lparr>ak_revoked_at := Some now\<rparr>) db)).
    ak_id k' = ak_id k \<and> ak_revoked_at k' \<noteq> None"
  using assms by (auto simp: set_key_def intro!: bexI [of _ "k\<lparr>ak_revoked_at := Some now\<rparr>"] image_eqI [of _ _ k])

text \<open>
  Revoking a key is final: once the endpoint has answered that it revoked a key, no credential
  authenticates as that key any more, at any time, whatever requests are served in between.
\<close>

theorem revoked_key_never_authenticates:
  assumes "wf_auth db" "revoke_key env dr cred team key db = (Inr (Reply r), db1)" "auth_run env db1 db2"
    and "authenticate (en_hmac env) (en_pepper env) now c db2 = Inr ctx"
  shows "ctx_api_key_id ctx \<noteq> key"
proof -
  let ?P = "\<lambda>db. \<exists>k \<in> set (db_keys db). ak_id k = key \<and> ak_revoked_at k \<noteq> None"
  from assms(1,2) have revoked: "wf_auth db1 \<and> ?P db1"
  proof (cases rule: revoke_key_cases)
    case (3 ctx k)
    then show ?thesis
      using revoked_row [OF 3(4), of "dr_now dr"] wf_set_key [OF marks_fields(1) assms(1)] by simp
  qed simp_all
  have "wf_auth db2 \<and> ?P db2"
  proof (rule run_invariant [OF assms(3), of ?P])
    fix x y
    assume wf: "wf_auth x" and P: "?P x" and change: "auth_change env x y"
    from change show "?P y"
    proof cases
      case (mark f i)
      then show ?thesis
        using P marked_row [of f _ x i] by metis
    next
      case (founded t og k)
      then show ?thesis
        using P no_organizations(2) [OF wf] by simp
    qed (use P in auto)
  qed (use revoked in simp_all)
  then obtain k where k: "k \<in> set (db_keys db2)" "ak_id k = key" "ak_revoked_at k \<noteq> None" and wf: "wf_auth db2"
    by blast
  from wf assms(4) show ?thesis
  proof (rule authenticated)
    fix k' t og
    assume "k' \<in> set (db_keys db2)" "is_active now k'" and ctx: "ctx = \<lparr>ctx_organization_id = og_id og,
      ctx_team_id = tm_id t, ctx_api_key_id = ak_id k', ctx_role = ak_role k'\<rparr>"
    moreover have "distinct (map ak_id (db_keys db2))"
      using wf by (simp add: wf_auth_def)
    ultimately have "k' = k" if "ctx_api_key_id ctx = key"
      using k(1,2) that distinct_map_eq [of ak_id "db_keys db2" k' k] by simp
    then show ?thesis
      using k(3) \<open>is_active now k'\<close> by (auto simp: is_active_def)
  qed
qed

text \<open>
  Every key there ever is belongs to the team that bootstrap founded, and every team to its
  organization: starting from the empty database, all credentials the endpoints ever issue authenticate
  as one team of one organization. The teams and organizations administrators create stay without keys.
\<close>

theorem single_tenant:
  assumes "auth_run env empty_db db"
    and "authenticate (en_hmac env) (en_pepper env) now1 c1 db = Inr ctx1"
    and "authenticate (en_hmac env) (en_pepper env) now2 c2 db = Inr ctx2"
  shows "ctx_team_id ctx1 = ctx_team_id ctx2 \<and> ctx_organization_id ctx1 = ctx_organization_id ctx2"
proof -
  let ?P = "\<lambda>db. \<exists>team org. (\<forall>k \<in> set (db_keys db). ak_team_id k = team) \<and>
    (\<forall>t \<in> set (db_teams db). tm_organization_id t = org)"
  have "wf_auth db \<and> ?P db"
  proof (rule run_invariant [OF assms(1)])
    fix x y
    assume wf: "wf_auth x" and P: "?P x" and change: "auth_change env x y"
    have own: "ctx_team_id ctx \<in> ak_team_id ` set (db_keys x) \<and>
        ctx_organization_id ctx \<in> tm_organization_id ` set (db_teams x)" if "admin_caller env x ctx" for ctx
      using that by (auto simp: admin_caller_def elim!: authenticated [OF wf] intro: rev_image_eqI)
    from change P show "?P y"
    proof cases
      case (mark f i)
      then show ?thesis
        using P by (auto simp: set_key_def marks_def)
    qed (use P own in \<open>fastforce+\<close>)
  qed (auto simp: empty_db_def wf_auth_def)
  then obtain team org where all: "\<forall>k \<in> set (db_keys db). ak_team_id k = team"
      "\<forall>t \<in> set (db_teams db). tm_organization_id t = org" and wf: "wf_auth db"
    by blast
  have "ctx_team_id ctx = team \<and> ctx_organization_id ctx = org"
    if "authenticate (en_hmac env) (en_pepper env) now c db = Inr ctx" for now c ctx
    using wf that all by (auto elim!: authenticated)
  then show ?thesis
    using assms(2,3) by blast
qed

text \<open>
  Bootstrap happens once: as soon as an organization exists, no later bootstrap request creates
  anything, whatever was served before it and whatever token it carries.
\<close>

theorem bootstrap_only_once:
  assumes "wf_auth db" "organizations_exist db" "auth_run env db db'"
  shows "snd (bootstrap env dr cred body db') = db' \<and> (\<forall>r. fst (bootstrap env dr cred body db') \<noteq> Inr (Reply r))"
proof -
  have "wf_auth db' \<and> organizations_exist db'"
  proof (rule run_invariant [OF assms(3), of organizations_exist])
    fix x y
    assume "organizations_exist x" "auth_change env x y"
    from this(2,1) show "organizations_exist y"
      by cases (simp_all add: organizations_exist_def set_key_def)
  qed (use assms in simp_all)
  then show ?thesis
    by (auto simp: bootstrap_def bootstrap_handler_def run_session_def split: sum.splits)
qed

text \<open>
  C6: the key an administrator is handed works: until it expires, the returned plaintext authenticates
  as exactly the key that was created, with the role asked for, in the administrator's own team and
  organization, provided its digest is not that of an older key.
\<close>

theorem created_key_authenticates:
  assumes "wf_auth db" "post_key env dr cred team body db = (Inr r, db')"
    and "list_all (\<lambda>k. ak_hash k \<noteq> en_hmac env (en_pepper env) (cr_key r)) (db_keys db)"
    and "case kc_expires_at body of None \<Rightarrow> True | Some e \<Rightarrow> now < e"
  shows "\<exists>ctx. caller env dr cred db = Inr ctx \<and> ctx_role ctx = ''admin'' \<and> ctx_team_id ctx = team \<and>
    authenticate (en_hmac env) (en_pepper env) now (cr_key r) db' =
      Inr (ctx\<lparr>ctx_api_key_id := cr_id r, ctx_role := kc_role body\<rparr>)"
  using assms(2)
proof (cases rule: post_key_cases)
  case (2 ctx b k p)
  note new = created_key [OF 2(5) [unfolded new_key_def]]
  have b: "kc_role b = kc_role body" "kc_expires_at b = kc_expires_at body"
    using 2(2) by (auto simp: validate_key_def split: if_splits)
  have r: "cr_key r = p" "cr_id r = ak_id k"
    using 2(3) by (simp_all add: to_created_response_def)
  obtain c where ctx: "ctx_role ctx = ''admin''" "caller env dr cred db = Inr ctx"
    "authenticate (en_hmac env) (en_pepper env) (dr_now dr) c db = Inr ctx"
    using 2(1) by (auto simp: require_admin_def caller_def get_request_context_def split: sum.splits if_splits option.splits)
  from assms(1) ctx(3) obtain t og and k0 :: api_key where rows: "t \<in> set (db_teams db)" "og \<in> set (db_organizations db)"
    "tm_organization_id t = og_id og" and who: "ctx = \<lparr>ctx_organization_id = og_id og, ctx_team_id = tm_id t,
      ctx_api_key_id = ak_id k0, ctx_role = ak_role k0\<rparr>"
    by (rule authenticated) blast
  have "filter (\<lambda>x. ak_hash x = en_hmac env (en_pepper env) p) (db_keys db) = []"
    using assms(3) r by (auto simp: filter_empty_conv list_all_iff)
  then have "filter (\<lambda>x. ak_hash x = en_hmac env (en_pepper env) p) (db_keys db') = [k]"
    using new by simp
  then have "stands_for (en_hmac env) (en_pepper env) now p db' k t og"
    using new b assms(4) rows who 2(4)
    by (simp add: stands_for_def is_active_def generate_api_key_def starts_with_append)
  then have "authenticate (en_hmac env) (en_pepper env) now p db' =
      Inr \<lparr>ctx_organization_id = og_id og, ctx_team_id = tm_id t, ctx_api_key_id = ak_id k, ctx_role = ak_role k\<rparr>"
    using authenticate_iff [OF wf_create_key [OF 2(5) [unfolded new_key_def] assms(1)]] by blast
  then show ?thesis
    using ctx who 2(4) new b r by simp
qed simp

text \<open>The requests a credential makes, bootstrap apart\<close>

definition made_with :: "string option \<Rightarrow> auth_request \<Rightarrow> bool" where
  "made_with cred req = (case req of PostOrganization c b \<Rightarrow> c = cred | PostTeam c i b \<Rightarrow> c = cred
     | PostKey c i b \<Rightarrow> c = cred | RevokeKey c i k \<Rightarrow> c = cred | _ \<Rightarrow> False)"

lemma not_admin:
  assumes "caller env dr cred db = Inr ctx" "ctx_role ctx \<noteq> ''admin''"
  shows "require_admin (caller env dr cred db) = Inl (Exn AuthorizationErrorC ''This operation requires admin privileges.'')"
  using assms by (simp add: require_admin_def)

lemma admin_context: "caller env dr cred db = Inr ctx \<Longrightarrow> require_admin (caller env dr cred db) = Inr ctx' \<Longrightarrow> ctx' = ctx"
  by (simp add: require_admin_def split: if_splits)

lemma set_key_others:
  assumes "distinct (map ak_id (db_keys db))" "k \<in> set (db_keys db)" "ak_team_id k = team" "marks f"
  shows "filter (\<lambda>x. ak_team_id x \<noteq> team) (db_keys (set_key (ak_id k) f db)) = filter (\<lambda>x. ak_team_id x \<noteq> team) (db_keys db)"
proof -
  have "filter (\<lambda>x. ak_team_id x \<noteq> team) (map (\<lambda>x. if ak_id x = ak_id k then f x else x) ks) =
      filter (\<lambda>x. ak_team_id x \<noteq> team) ks" if "set ks \<subseteq> set (db_keys db)" for ks
    using that assms(3,4) distinct_map_eq [OF assms(1) _ assms(2)]
    by (induction ks) (auto simp: marks_def)
  then show ?thesis by (simp add: set_key_def)
qed

lemma writes_stay_in_tenant:
  assumes "wf_auth db" "caller env dr cred db = Inr ctx" "made_with cred req"
  shows "filter (\<lambda>t. tm_organization_id t \<noteq> ctx_organization_id ctx) (db_teams (auth_step env dr req db)) =
      filter (\<lambda>t. tm_organization_id t \<noteq> ctx_organization_id ctx) (db_teams db) \<and>
    filter (\<lambda>k. ak_team_id k \<noteq> ctx_team_id ctx) (db_keys (auth_step env dr req db)) =
      filter (\<lambda>k. ak_team_id k \<noteq> ctx_team_id ctx) (db_keys db) \<and>
    take (length (db_organizations db)) (db_organizations (auth_step env dr req db)) = db_organizations db"
proof -
  let ?t = "filter (\<lambda>t. tm_organization_id t \<noteq> ctx_organization_id ctx)"
    and ?k = "filter (\<lambda>k. ak_team_id k \<noteq> ctx_team_id ctx)" and ?db = "auth_step env dr req db"
  have distinct: "distinct (map ak_id (db_keys db))"
    using assms(1) by (simp add: wf_auth_def)
  show "?t (db_teams ?db) = ?t (db_teams db) \<and> ?k (db_keys ?db) = ?k (db_keys db) \<and>
      take (length (db_organizations db)) (db_organizations ?db) = db_organizations db"
  proof (cases req)
    case (PostOrganization c b)
    obtain out db' where run: "post_organization env dr cred b db = (out, db')" by fastforce
    then have "?db = db'" using assms(3) PostOrganization by (simp add: made_with_def)
    with run show ?thesis
      by (cases rule: post_organization_cases) (auto dest: created_organization(1))
  next
    case (PostTeam c i b)
    obtain out db' where run: "post_team env dr cred i b db = (out, db')" by fastforce
    then have "?db = db'" using assms(3) PostTeam by (simp add: made_with_def)
    with run show ?thesis
    proof (cases rule: post_team_cases)
      case (2 ctx' b' t)
      then show ?thesis
        using created_team(1,3) [OF 2(5)] admin_context [OF assms(2) 2(1)] \<open>?db = db'\<close> by simp
    qed simp
  next
    case (PostKey c i b)
    obtain out db' where run: "post_key env dr cred i b db = (out, db')" by fastforce
    then have "?db = db'" using assms(3) PostKey by (simp add: made_with_def)
    with run show ?thesis
    proof (cases rule: post_key_cases)
      case (2 ctx' b' k p)
      then show ?thesis
        using created_key(1,3) [OF 2(5) [unfolded new_key_def]] admin_context [OF assms(2) 2(1)] \<open>?db = db'\<close> by simp
    qed simp
  next
    case (RevokeKey c i key)
    obtain out db' where run: "revoke_key env dr cred i key db = (out, db')" by fastforce
    then have db': "?db = db'" using assms(3) RevokeKey by (simp add: made_with_def)
    from assms(1) run show ?thesis
    proof (cases rule: revoke_key_cases)
      case (3 ctx' k)
      then show ?thesis
        using db' set_key_others [OF distinct 3(4), of "ctx_team_id ctx"] admin_context [OF assms(2) 3(1)]
        by (simp add: set_key_def)
    qed (use db' in simp_all)
  qed (use assms(3) in \<open>simp_all add: made_with_def\<close>)
qed

text \<open>
  C8: a caller acts only in its own tenant: with a member key every administrative request leaves the
  database as it is; with an administrator's key the teams of other organizations and the keys of other
  teams stay as they are, no organization is changed, and the lists of teams and keys show exactly those
  of the caller's organization and team.
\<close>

theorem callers_stay_in_tenant:
  assumes "wf_auth db" "caller env dr cred db = Inr ctx" "made_with cred req"
  shows "let db' = auth_step env dr req db in
    (ctx_role ctx \<noteq> ''admin'' \<longrightarrow> db' = db) \<and>
    filter (\<lambda>t. tm_organization_id t \<noteq> ctx_organization_id ctx) (db_teams db') =
      filter (\<lambda>t. tm_organization_id t \<noteq> ctx_organization_id ctx) (db_teams db) \<and>
    filter (\<lambda>k. ak_team_id k \<noteq> ctx_team_id ctx) (db_keys db') = filter (\<lambda>k. ak_team_id k \<noteq> ctx_team_id ctx) (db_keys db) \<and>
    take (length (db_organizations db)) (db_organizations db') = db_organizations db \<and>
    (\<forall>org ts. read_teams env dr cred org db = Inr ts \<longrightarrow> org = ctx_organization_id ctx \<and>
       set ts = {t \<in> set (db_teams db). tm_organization_id t = org}) \<and>
    (\<forall>team ks. read_keys env dr cred team db = Inr ks \<longrightarrow> team = ctx_team_id ctx \<and>
       set ks = to_key_response ` {k \<in> set (db_keys db). ak_team_id k = team})"
proof -
  have lists: "read_teams env dr cred org db = Inr ts \<Longrightarrow> org = ctx_organization_id ctx \<and>
       set ts = {t \<in> set (db_teams db). tm_organization_id t = org}"
    "read_keys env dr cred team db = Inr ks \<Longrightarrow> team = ctx_team_id ctx \<and>
       set ks = to_key_response ` {k \<in> set (db_keys db). ak_team_id k = team}" for org ts team ks
    using assms(2) by (auto simp: read_teams_def read_keys_def require_admin_def list_teams_def list_api_keys_def
        split: if_splits)
  have member: "auth_step env dr req db = db" if "ctx_role ctx \<noteq> ''admin''"
    using assms(3) not_admin [OF assms(2) that]
    by (cases req) (simp_all add: made_with_def post_organization_def post_team_def post_key_def revoke_key_def)
  show ?thesis
    using lists member writes_stay_in_tenant [OF assms] by (simp add: Let_def)
qed

section \<open>Witnesses\<close>

definition example_env :: auth_env where
  "example_env = \<lparr>en_hmac = (\<lambda>pepper t. pepper @ t), en_pepper = ''p'', en_bootstrap_enabled = True,
     en_bootstrap_token = ''tok''\<rparr>"

definition new_year :: datetime where
  "new_year = DateTime 2026 1 1 0"

definition example_draw :: "string \<Rightarrow> draw" where
  "example_draw s = \<lparr>dr_now = new_year, dr_id = (\<lambda>n. s @ str_int (int n)), dr_token = s\<rparr>"

definition founding :: bootstrap_body where
  "founding = \<lparr>bo_organization_name = ''Acme'', bo_organization_slug = ''acme'', bo_team_name = ''Core'',
     bo_team_slug = ''core'', bo_key_name = ''root''\<rparr>"

definition member_key :: key_create where
  "member_key = \<lparr>kc_name = '' ci '', kc_role = ''member'', kc_expires_at = None\<rparr>"

definition tenant_db :: auth_db where
  "tenant_db = snd (bootstrap example_env (example_draw ''a'') (Some ''tok'') founding empty_db)"

definition root_context :: request_context where
  "root_context = \<lparr>ctx_organization_id = ''a0'', ctx_team_id = ''a1'', ctx_api_key_id = ''a2'', ctx_role = ''admin''\<rparr>"

lemma wf_empty: "wf_auth empty_db"
  by (simp add: wf_auth_def empty_db_def)

lemma tenant_db_run: "auth_run example_env empty_db tenant_db" "wf_auth tenant_db"
proof -
  have eq: "tenant_db = auth_step example_env (example_draw ''a'') (Bootstrap (Some ''tok'') founding) empty_db"
    by (simp add: tenant_db_def)
  show "auth_run example_env empty_db tenant_db"
    unfolding eq by (intro auth_run.intros)
  show "wf_auth tenant_db"
    unfolding eq using auth_step_change [OF wf_empty] by blast
qed

lemma root_authenticates: "caller example_env (example_draw d) (Some ''cxg_a'') tenant_db = Inr root_context"
  by code_simp

definition two_keys :: auth_db where
  "two_keys = snd (post_key example_env (example_draw ''b'') (Some ''cxg_a'') ''a1'' member_key tenant_db)"

lemma two_keys_wf: "wf_auth two_keys"
  using auth_step_change [OF tenant_db_run(2), of example_env "example_draw ''b''" "PostKey (Some ''cxg_a'') ''a1'' member_key"]
  by (simp add: two_keys_def)

definition revoked_db :: auth_db where
  "revoked_db = snd (revoke_key example_env (example_draw ''c'') (Some ''cxg_a'') ''a1'' ''b0'' two_keys)"

lemma revoked_reply:
  "\<exists>r. revoke_key example_env (example_draw ''c'') (Some ''cxg_a'') ''a1'' ''b0'' two_keys = (Inr (Reply r), revoked_db)"
proof -
  have "case fst (revoke_key example_env (example_draw ''c'') (Some ''cxg_a'') ''a1'' ''b0'' two_keys) of
      Inr (Reply r) \<Rightarrow> True | _ \<Rightarrow> False"
    by code_simp
  then show ?thesis
    by (auto simp: revoked_db_def prod_eq_iff split: sum.splits reply.splits)
qed

theorem revoked_key_never_authenticates_witness:
  "authenticate (en_hmac example_env) (en_pepper example_env) new_year ''cxg_a'' revoked_db = Inr root_context \<and>
   ctx_api_key_id root_context \<noteq> ''b0''"
proof
  show works: "authenticate (en_hmac example_env) (en_pepper example_env) new_year ''cxg_a'' revoked_db = Inr root_context"
    by code_simp
  obtain r where "revoke_key example_env (example_draw ''c'') (Some ''cxg_a'') ''a1'' ''b0'' two_keys = (Inr (Reply r), revoked_db)"
    using revoked_reply by blast
  then show "ctx_api_key_id root_context \<noteq> ''b0''"
    by (rule revoked_key_never_authenticates [OF two_keys_wf _ start works])
qed

theorem single_tenant_witness:
  "ctx_team_id root_context = ''a1'' \<and> ctx_organization_id root_context = ''a0''"
proof -
  have "authenticate (en_hmac example_env) (en_pepper example_env) new_year ''cxg_a'' tenant_db = Inr root_context"
    by code_simp
  from single_tenant [OF tenant_db_run(1) this this] show ?thesis
    by (simp add: root_context_def)
qed

theorem bootstrap_only_once_witness:
  "snd (bootstrap example_env (example_draw ''b'') (Some ''tok'') founding tenant_db) = tenant_db"
proof -
  have "organizations_exist tenant_db" by code_simp
  from bootstrap_only_once [OF tenant_db_run(2) this start] show ?thesis by simp
qed

theorem created_key_authenticates_witness:
  "\<exists>r. fst (post_key example_env (example_draw ''b'') (Some ''cxg_a'') ''a1'' member_key tenant_db) = Inr r \<and>
    authenticate (en_hmac example_env) (en_pepper example_env) new_year (cr_key r) two_keys =
      Inr (root_context\<lparr>ctx_api_key_id := cr_id r, ctx_role := ''member''\<rparr>)"
proof -
  have "case fst (post_key example_env (example_draw ''b'') (Some ''cxg_a'') ''a1'' member_key tenant_db) of
      Inr r \<Rightarrow> list_all (\<lambda>k. ak_hash k \<noteq> en_hmac example_env (en_pepper example_env) (cr_key r)) (db_keys tenant_db) | _ \<Rightarrow> False"
    by code_simp
  then obtain r where post: "post_key example_env (example_draw ''b'') (Some ''cxg_a'') ''a1'' member_key tenant_db =
      (Inr r, two_keys)" and fresh: "list_all (\<lambda>k. ak_hash k \<noteq> en_hmac example_env (en_pepper example_env) (cr_key r)) (db_keys tenant_db)"
    by (auto simp: two_keys_def prod_eq_iff split: sum.splits)
  have "case kc_expires_at member_key of None \<Rightarrow> True | Some e \<Rightarrow> new_year < e"
    by (simp add: member_key_def)
  from created_key_authenticates [OF tenant_db_run(2) post fresh this] post show ?thesis
    by (simp add: root_authenticates) (simp add: member_key_def)
qed

theorem callers_stay_in_tenant_witness:
  "take 1 (db_organizations (auth_step example_env (example_draw ''b'') (PostTeam (Some ''cxg_a'') ''a0''
      \<lparr>nc_name = ''Two'', nc_slug = ''two''\<rparr>) tenant_db)) = db_organizations tenant_db"
proof -
  have "made_with (Some ''cxg_a'') (PostTeam (Some ''cxg_a'') ''a0'' \<lparr>nc_name = ''Two'', nc_slug = ''two''\<rparr>)"
    by (simp add: made_with_def)
  moreover have "length (db_organizations tenant_db) = 1" by code_simp
  ultimately show ?thesis
    using callers_stay_in_tenant [OF tenant_db_run(2) root_authenticates] by (metis (no_types, lifting))
qed

end
