(* ===== verification/Breaker.thy ===== *)
theory Breaker
  imports Errors Keyed
begin

text \<open>
  \<open>app/reliability/circuit_breaker.py\<close> and the \<open>CircuitState\<close> of \<open>reliability/models.py\<close>: the
  three-state circuit breaker of one provider and the registry of breakers. Every read of
  \<open>time.monotonic()\<close> is an argument; an operation returns its result and the new breaker. The
  lock only wraps code without an await point, so an operation is one atomic step.
\<close>

section \<open>One breaker\<close>

datatype circuit_state = CLOSED | OPEN | HALF_OPEN

fun circuit_value :: "circuit_state \<Rightarrow> string" where
  "circuit_value CLOSED = ''CLOSED''"
| "circuit_value OPEN = ''OPEN''"
| "circuit_value HALF_OPEN = ''HALF_OPEN''"

record breaker =
  b_provider :: string
  failure_threshold :: int
  cooldown_seconds :: real
  half_open_trials :: int
  b_state :: circuit_state
  failure_count :: int
  last_failure_time :: "real option"
  half_open_trial_count :: int

definition new_breaker :: "string \<Rightarrow> int \<Rightarrow> real \<Rightarrow> int \<Rightarrow> breaker" where
  "new_breaker p thr cool trials =
     \<lparr>b_provider = strip (lower p), failure_threshold = thr, cooldown_seconds = cool,
      half_open_trials = trials, b_state = CLOSED, failure_count = 0,
      last_failure_time = None, half_open_trial_count = 0\<rparr>"

definition resolve_state :: "real \<Rightarrow> breaker \<Rightarrow> circuit_state \<times> breaker" where
  "resolve_state now b =
     (let b' = (if b_state b = OPEN then
                  (case last_failure_time b of
                     None \<Rightarrow> b
                   | Some t \<Rightarrow> if now - t \<ge> cooldown_seconds b
                              then b\<lparr>b_state := HALF_OPEN, half_open_trial_count := 0\<rparr> else b)
                else b)
      in (b_state b', b'))"

definition can_execute :: "real \<Rightarrow> breaker \<Rightarrow> bool \<times> breaker" where
  "can_execute now b =
     (let (st, b) = resolve_state now b in
      if st = CLOSED then (True, b)
      else if st = HALF_OPEN then
        (if half_open_trial_count b < half_open_trials b
         then (True, b\<lparr>half_open_trial_count := half_open_trial_count b + 1\<rparr>)
         else (False, b))
      else (False, b))"

definition record_success :: "real \<Rightarrow> breaker \<Rightarrow> breaker" where
  "record_success now b =
     (let (st, b) = resolve_state now b in
      if st = HALF_OPEN then
        b\<lparr>b_state := CLOSED, failure_count := 0, half_open_trial_count := 0, last_failure_time := None\<rparr>
      else if st = CLOSED then b\<lparr>failure_count := 0\<rparr>
      else b)"

text \<open>The lock-protected variant has the same body.\<close>

definition record_success_async :: "real \<Rightarrow> breaker \<Rightarrow> breaker" where
  "record_success_async now b =
     (let (st, b) = resolve_state now b in
      if st = HALF_OPEN then
        b\<lparr>b_state := CLOSED, failure_count := 0, half_open_trial_count := 0, last_failure_time := None\<rparr>
      else if st = CLOSED then b\<lparr>failure_count := 0\<rparr>
      else b)"

text \<open>\<open>record_failure\<close> reads the clock twice: for the timestamp and, in state OPEN, while resolving.\<close>

definition record_failure :: "real \<Rightarrow> real \<Rightarrow> exn \<Rightarrow> breaker \<Rightarrow> breaker" where
  "record_failure now now' e b =
     (if \<not> is_circuit_breaker_failure e then b
      else let (st, b) = resolve_state now' (b\<lparr>last_failure_time := Some now\<rparr>) in
        if st = HALF_OPEN then b\<lparr>b_state := OPEN\<rparr>
        else if st = CLOSED then
          (let b = b\<lparr>failure_count := failure_count b + 1\<rparr> in
           if failure_count b \<ge> failure_threshold b then b\<lparr>b_state := OPEN\<rparr> else b)
        else b)"

definition trip :: "real \<Rightarrow> breaker \<Rightarrow> breaker" where
  "trip now b = b\<lparr>b_state := OPEN, last_failure_time := Some now, failure_count := failure_threshold b\<rparr>"

definition reset :: "breaker \<Rightarrow> breaker" where
  "reset b = b\<lparr>b_state := CLOSED, failure_count := 0, half_open_trial_count := 0,
     last_failure_time := None\<rparr>"

lemmas breaker_defs = resolve_state_def can_execute_def record_success_def record_failure_def
  trip_def reset_def

section \<open>Runs of operations\<close>

datatype breaker_op =
    CanExecute real
  | GetState real
  | Success real
  | Failure real real exn
  | Trip real
  | Reset

text \<open>The observable result: whether \<open>can_execute\<close> admitted, what \<open>state\<close> returned.\<close>

datatype breaker_out = Admitted bool | State circuit_state | Done

fun breaker_step :: "breaker \<Rightarrow> breaker_op \<Rightarrow> breaker_out \<times> breaker" where
  "breaker_step b (CanExecute t) = (let (r, b') = can_execute t b in (Admitted r, b'))"
| "breaker_step b (GetState t) = (let (st, b') = resolve_state t b in (State st, b'))"
| "breaker_step b (Success t) = (Done, record_success t b)"
| "breaker_step b (Failure t t' e) = (Done, record_failure t t' e b)"
| "breaker_step b (Trip t) = (Done, trip t b)"
| "breaker_step b Reset = (Done, reset b)"

fun breaker_run :: "breaker \<Rightarrow> breaker_op list \<Rightarrow> breaker_out list \<times> breaker" where
  "breaker_run b [] = ([], b)"
| "breaker_run b (x # xs) =
     (let (r, b') = breaker_step b x; (rs, b'') = breaker_run b' xs in (r # rs, b''))"

lemma breaker_run_Cons:
  "snd (breaker_run b (x # xs)) = snd (breaker_run (snd (breaker_step b x)) xs)"
  "fst (breaker_run b (x # xs)) = fst (breaker_step b x) # fst (breaker_run (snd (breaker_step b x)) xs)"
  by (simp_all add: split_def Let_def)

declare breaker_run.simps(2) [simp del] breaker_run_Cons [simp]

text \<open>The states a breaker constructed with given settings can reach.\<close>

inductive breaker_reachable :: "string \<Rightarrow> int \<Rightarrow> real \<Rightarrow> int \<Rightarrow> breaker \<Rightarrow> bool"
  for p thr cool trials where
  init: "breaker_reachable p thr cool trials (new_breaker p thr cool trials)"
| step: "breaker_reachable p thr cool trials b \<Longrightarrow> b' = snd (breaker_step b x) \<Longrightarrow>
    breaker_reachable p thr cool trials b'"

section \<open>The invariant\<close>

definition breaker_inv :: "breaker \<Rightarrow> bool" where
  "breaker_inv b =
     (0 \<le> failure_count b \<and> 0 \<le> half_open_trial_count b \<and>
      half_open_trial_count b \<le> max 0 (half_open_trials b) \<and>
      (case b_state b of
         CLOSED \<Rightarrow> failure_count b < failure_threshold b
       | OPEN \<Rightarrow> last_failure_time b \<noteq> None \<and> failure_threshold b \<le> failure_count b
       | HALF_OPEN \<Rightarrow> failure_threshold b \<le> failure_count b))"

lemma breaker_inv_new: "1 \<le> thr \<Longrightarrow> breaker_inv (new_breaker p thr cool trials)"
  by (simp add: breaker_inv_def new_breaker_def)

lemma resolve_state_value [simp]: "b_state (snd (resolve_state t b)) = fst (resolve_state t b)"
  by (simp add: resolve_state_def Let_def)

lemma resolve_state_inv: "breaker_inv b \<Longrightarrow> breaker_inv (snd (resolve_state t b))"
  by (auto simp: breaker_inv_def resolve_state_def Let_def split: option.splits circuit_state.splits)

lemma breaker_step_config [frame]:
  "failure_threshold (snd (breaker_step b x)) = failure_threshold b \<and>
   cooldown_seconds (snd (breaker_step b x)) = cooldown_seconds b \<and>
   half_open_trials (snd (breaker_step b x)) = half_open_trials b \<and>
   b_provider (snd (breaker_step b x)) = b_provider b"
  by (cases x) (auto simp: breaker_defs Let_def split: option.splits)

lemma breaker_step_inv:
  assumes "breaker_inv b" and "1 \<le> failure_threshold b"
  shows "breaker_inv (snd (breaker_step b x))"
  using assms
  by (cases x)
    (auto simp: breaker_inv_def breaker_defs Let_def split: option.splits circuit_state.splits)


lemma breaker_reachable_config:
  "breaker_reachable p thr cool trials b \<Longrightarrow>
     failure_threshold b = thr \<and> cooldown_seconds b = cool \<and> half_open_trials b = trials \<and>
     b_provider b = strip (lower p)"
  by (induction rule: breaker_reachable.induct) (auto simp: new_breaker_def frame)

text \<open>
  Every state a breaker can reach, by any sequence of operations at any clock readings,
  is consistent: counters are non-negative, no more probes are outstanding than
  \<open>half_open_trials\<close> allows, a CLOSED breaker is below its threshold, and an OPEN one carries the
  time of a failure.
\<close>

theorem breaker_reachable_inv:
  assumes "breaker_reachable p thr cool trials b" and "1 \<le> thr"
  shows "breaker_inv b"
  using assms
proof (induction rule: breaker_reachable.induct)
  case init
  then show ?case by (rule breaker_inv_new)
next
  case (step b b' x)
  then show ?case
    using breaker_reachable_config [OF step.hyps(1)] by (auto intro: breaker_step_inv)
qed

lemma breaker_reachable_example:
  "breaker_reachable ''groq'' 1 30 1 (record_failure 0 0 (Exn ProviderTimeoutErrorC []) (new_breaker ''groq'' 1 30 1))"
  by (rule breaker_reachable.step [OF breaker_reachable.init, of _ _ _ _ _
        "Failure 0 0 (Exn ProviderTimeoutErrorC [])"]) simp

theorem breaker_reachable_inv_witness:
  "breaker_inv (record_failure 0 0 (Exn ProviderTimeoutErrorC []) (new_breaker ''groq'' 1 30 1))"
  by (rule breaker_reachable_inv [OF breaker_reachable_example]) simp

section \<open>Admission\<close>

text \<open>
  A request is admitted exactly when the breaker is CLOSED, or HALF_OPEN with a free probe
  slot, or OPEN with its cooldown over and at least one probe allowed; an OPEN breaker inside its
  cooldown always short-circuits.
\<close>

theorem can_execute_iff:
  "fst (can_execute now b) \<longleftrightarrow>
     b_state b = CLOSED \<or>
     b_state b = HALF_OPEN \<and> half_open_trial_count b < half_open_trials b \<or>
     b_state b = OPEN \<and> 0 < half_open_trials b \<and>
       (\<exists>t. last_failure_time b = Some t \<and> cooldown_seconds b \<le> now - t)"
  by (cases "b_state b") (auto simp: breaker_defs Let_def split: option.splits)

text \<open>Consecutive counted failures of a closed breaker.\<close>

definition counted :: "breaker_op \<Rightarrow> bool" where
  "counted x = (case x of Failure t t' e \<Rightarrow> is_circuit_breaker_failure e | _ \<Rightarrow> False)"

lemma counted_failures_closed:
  assumes "b_state b = CLOSED" and "list_all counted xs"
    and "failure_count b + int (length xs) < failure_threshold b"
  shows "b_state (snd (breaker_run b xs)) = CLOSED \<and>
    failure_count (snd (breaker_run b xs)) = failure_count b + int (length xs)"
  using assms
proof (induction xs arbitrary: b)
  case Nil
  then show ?case by simp
next
  case (Cons x xs)
  obtain t t' e where x: "x = Failure t t' e" and e: "is_circuit_breaker_failure e"
    using Cons.prems(2) by (cases x) (auto simp: counted_def)
  define b' where "b' = record_failure t t' e b"
  have b': "b_state b' = CLOSED" "failure_count b' = failure_count b + 1"
      "failure_threshold b' = failure_threshold b"
    using Cons.prems e by (auto simp: b'_def breaker_defs Let_def)
  have "b_state (snd (breaker_run b' xs)) = CLOSED \<and>
      failure_count (snd (breaker_run b' xs)) = failure_count b' + int (length xs)"
    using Cons.prems b' by (intro Cons.IH) auto
  with b' x show ?case
    by (simp add: b'_def)
qed

lemma breaker_run_append:
  "snd (breaker_run b (xs @ ys)) = snd (breaker_run (snd (breaker_run b xs)) ys)"
  by (induction xs arbitrary: b) auto

lemma breaker_run_config [frame]:
  "failure_threshold (snd (breaker_run b xs)) = failure_threshold b \<and>
   half_open_trials (snd (breaker_run b xs)) = half_open_trials b"
  by (induction xs arbitrary: b) (auto simp: frame)

text \<open>
  The threshold is exact. From a closed breaker with no failure on record, fewer than
  \<open>failure_threshold\<close> consecutive counted failures leave it CLOSED with that many on record,
  and the failure that reaches the threshold opens it and stamps the time the cooldown runs from.
\<close>

theorem opens_exactly_at_threshold:
  assumes "b_state b = CLOSED" and "failure_count b = 0" and "list_all counted xs"
    and "is_circuit_breaker_failure e" and "int (length xs) < failure_threshold b"
  shows "b_state (snd (breaker_run b xs)) = CLOSED \<and>
    failure_count (snd (breaker_run b xs)) = int (length xs) \<and>
    (int (length xs) + 1 = failure_threshold b \<longrightarrow>
      b_state (snd (breaker_run b (xs @ [Failure t t' e]))) = OPEN \<and>
      last_failure_time (snd (breaker_run b (xs @ [Failure t t' e]))) = Some t)"
proof -
  define b' where "b' = snd (breaker_run b xs)"
  have run: "b_state b' = CLOSED" "failure_count b' = int (length xs)"
    using counted_failures_closed [of b xs] assms by (simp_all add: b'_def)
  have thr: "failure_threshold b' = failure_threshold b"
    by (simp add: b'_def frame)
  show ?thesis
    using run thr assms(4)
    by (simp add: breaker_run_append b'_def [symmetric] breaker_defs Let_def)
qed

definition timeout_failure :: breaker_op where
  "timeout_failure = Failure 0 0 (Exn ProviderTimeoutErrorC [])"

lemma timeout_counts [simp]: "is_circuit_breaker_failure (Exn ProviderTimeoutErrorC m)"
  by (simp add: classify_defs)

theorem opens_exactly_at_threshold_witness:
  "b_state (snd (breaker_run (new_breaker ''groq'' 2 30 1) [timeout_failure, timeout_failure])) = OPEN"
  using opens_exactly_at_threshold [of "new_breaker ''groq'' 2 30 1" "[timeout_failure]"
      "Exn ProviderTimeoutErrorC []" 0 0]
  by (simp add: new_breaker_def timeout_failure_def counted_def)

section \<open>Probes in state HALF-OPEN\<close>

text \<open>The operations that do not record an outcome of a probe the breaker counts.\<close>

definition no_verdict :: "breaker_op \<Rightarrow> bool" where
  "no_verdict x = (case x of CanExecute t \<Rightarrow> True | GetState t \<Rightarrow> True
     | Failure t t' e \<Rightarrow> \<not> is_circuit_breaker_failure e | _ \<Rightarrow> False)"

definition admissions :: "breaker_out list \<Rightarrow> nat" where
  "admissions rs = length (filter (\<lambda>r. r = Admitted True) rs)"

lemma half_open_no_verdict_step:
  assumes "b_state b = HALF_OPEN" and "no_verdict x"
  shows "b_state (snd (breaker_step b x)) = HALF_OPEN"
    and "half_open_trial_count (snd (breaker_step b x)) =
      half_open_trial_count b + (if fst (breaker_step b x) = Admitted True then 1 else 0)"
    and "fst (breaker_step b x) = Admitted True \<longrightarrow> half_open_trial_count b < half_open_trials b"
  using assms by (cases x; auto simp: no_verdict_def breaker_defs Let_def)+

lemma half_open_probe_count:
  assumes "b_state b = HALF_OPEN" and "list_all no_verdict xs"
    and "half_open_trial_count b \<le> half_open_trials b"
  shows "b_state (snd (breaker_run b xs)) = HALF_OPEN \<and>
    half_open_trial_count b + int (admissions (fst (breaker_run b xs))) =
      half_open_trial_count (snd (breaker_run b xs)) \<and>
    half_open_trial_count (snd (breaker_run b xs)) \<le> half_open_trials b"
  using assms
proof (induction xs arbitrary: b)
  case Nil
  then show ?case by (simp add: admissions_def)
next
  case (Cons x xs)
  let ?b = "snd (breaker_step b x)"
  from Cons.prems have v: "no_verdict x" "list_all no_verdict xs" by simp_all
  note step = half_open_no_verdict_step [OF Cons.prems(1) v(1)]
  have "half_open_trials ?b = half_open_trials b"
    by (simp add: frame)
  with step Cons.prems(3) have "half_open_trial_count ?b \<le> half_open_trials ?b"
    by (auto split: if_splits)
  from Cons.IH [OF step(1) v(2) this] step(2) show ?case
    by (auto simp: admissions_def frame split: if_splits)
qed

text \<open>
  While a HALF_OPEN breaker waits for the verdict of its probes, at most
  \<open>half_open_trials\<close> minus the slots already used are admitted, over any number of requests and
  at any times.
\<close>

theorem half_open_probes_bounded:
  assumes "b_state b = HALF_OPEN" and "list_all no_verdict xs"
    and "half_open_trial_count b \<le> half_open_trials b"
  shows "int (admissions (fst (breaker_run b xs))) \<le> half_open_trials b - half_open_trial_count b"
  using half_open_probe_count [OF assms] by simp

definition half_open_example :: breaker where
  "half_open_example = (new_breaker ''groq'' 5 30 1)\<lparr>b_state := HALF_OPEN, failure_count := 5,
     last_failure_time := Some 100\<rparr>"

theorem half_open_probes_bounded_witness:
  "admissions (fst (breaker_run half_open_example [CanExecute 130, CanExecute 131])) \<le> 1"
  using half_open_probes_bounded [of half_open_example "[CanExecute 130, CanExecute 131]"]
  by (simp add: half_open_example_def new_breaker_def no_verdict_def)

text \<open>
  A probe slot is never given back. Once a HALF_OPEN breaker has used its slots, no request
  is admitted and the state stays HALF_OPEN for every later sequence of admission checks, state
  reads and failures that do not count (authentication, invalid model, upstream rate limit), at
  any times: no cooldown applies in this state, so a probe that ends without a counted verdict
  shuts the provider out until a success, a counted failure, \<open>trip\<close> or \<open>reset\<close>.
\<close>

theorem half_open_exhausted_is_stuck:
  assumes "b_state b = HALF_OPEN" and "half_open_trial_count b = half_open_trials b"
    and "list_all no_verdict xs"
  shows "b_state (snd (breaker_run b xs)) = HALF_OPEN \<and>
    admissions (fst (breaker_run b xs)) = 0 \<and> \<not> fst (can_execute t (snd (breaker_run b xs)))"
proof -
  note count = half_open_probe_count [OF assms(1,3)]
  from count assms(2) have "admissions (fst (breaker_run b xs)) = 0"
    and "half_open_trial_count (snd (breaker_run b xs)) = half_open_trials b"
    and "b_state (snd (breaker_run b xs)) = HALF_OPEN"
    by simp_all
  then show ?thesis
    by (simp add: breaker_defs frame)
qed

theorem half_open_exhausted_is_stuck_witness:
  "\<not> fst (can_execute 1000000 (snd (breaker_run
       (half_open_example\<lparr>half_open_trial_count := 1\<rparr>)
       [Failure 131 131 (Exn ProviderRateLimitErrorC []), CanExecute 500])))"
  using half_open_exhausted_is_stuck [of "half_open_example\<lparr>half_open_trial_count := 1\<rparr>"
      "[Failure 131 131 (Exn ProviderRateLimitErrorC []), CanExecute 500]" 1000000]
  by (simp add: half_open_example_def new_breaker_def no_verdict_def classify_defs)


section \<open>The abstract breaker\<close>

text \<open>
  What the breaker promises, without its bookkeeping: closed with a number of consecutive
  failures, open since a time, or half open with a number of probes out.
\<close>

datatype spec_breaker = SClosed int | SOpen real | SHalf int

fun spec_resolve :: "real \<Rightarrow> real \<Rightarrow> spec_breaker \<Rightarrow> spec_breaker" where
  "spec_resolve cool now (SOpen t) = (if cool \<le> now - t then SHalf 0 else SOpen t)"
| "spec_resolve cool now s = s"

fun spec_name :: "spec_breaker \<Rightarrow> circuit_state" where
  "spec_name (SClosed n) = CLOSED"
| "spec_name (SOpen t) = OPEN"
| "spec_name (SHalf k) = HALF_OPEN"

fun spec_step :: "int \<Rightarrow> real \<Rightarrow> int \<Rightarrow> spec_breaker \<Rightarrow> breaker_op \<Rightarrow> breaker_out \<times> spec_breaker" where
  "spec_step thr cool trials s (CanExecute now) = (case spec_resolve cool now s of
      SClosed n \<Rightarrow> (Admitted True, SClosed n)
    | SOpen t \<Rightarrow> (Admitted False, SOpen t)
    | SHalf k \<Rightarrow> if k < trials then (Admitted True, SHalf (k + 1)) else (Admitted False, SHalf k))"
| "spec_step thr cool trials s (GetState now) =
    (let s' = spec_resolve cool now s in (State (spec_name s'), s'))"
| "spec_step thr cool trials s (Success now) = (case spec_resolve cool now s of
      SOpen t \<Rightarrow> (Done, SOpen t) | _ \<Rightarrow> (Done, SClosed 0))"
| "spec_step thr cool trials s (Failure now now' e) =
    (if \<not> is_circuit_breaker_failure e then (Done, s)
     else case s of
      SClosed n \<Rightarrow> (Done, if n + 1 < thr then SClosed (n + 1) else SOpen now)
    | _ \<Rightarrow> (Done, SOpen now))"
| "spec_step thr cool trials s (Trip now) = (Done, SOpen now)"
| "spec_step thr cool trials s Reset = (Done, SClosed 0)"

fun spec_run :: "int \<Rightarrow> real \<Rightarrow> int \<Rightarrow> spec_breaker \<Rightarrow> breaker_op list \<Rightarrow> breaker_out list \<times> spec_breaker" where
  "spec_run thr cool trials s [] = ([], s)"
| "spec_run thr cool trials s (x # xs) =
     (let (r, s') = spec_step thr cool trials s x; (rs, s'') = spec_run thr cool trials s' xs
      in (r # rs, s''))"

definition abs_breaker :: "breaker \<Rightarrow> spec_breaker" where
  "abs_breaker b = (case b_state b of
     CLOSED \<Rightarrow> SClosed (failure_count b)
   | OPEN \<Rightarrow> SOpen (the (last_failure_time b))
   | HALF_OPEN \<Rightarrow> SHalf (half_open_trial_count b))"

lemma breaker_step_refines:
  assumes "breaker_inv b"
  shows "(fst (breaker_step b x), abs_breaker (snd (breaker_step b x))) =
    spec_step (failure_threshold b) (cooldown_seconds b) (half_open_trials b) (abs_breaker b) x"
  using assms
  by (cases x; cases "b_state b")
    (auto simp: breaker_inv_def abs_breaker_def breaker_defs Let_def split: option.splits)

text \<open>
  C16: the breaker refines its abstract specification: over any sequence of operations it
  gives the same admissions and states, and its abstraction is the specification's state.
\<close>

theorem breaker_refines_spec:
  assumes "breaker_inv b" and "1 \<le> failure_threshold b"
  shows "(fst (breaker_run b xs), abs_breaker (snd (breaker_run b xs))) =
    spec_run (failure_threshold b) (cooldown_seconds b) (half_open_trials b) (abs_breaker b) xs"
  using assms
proof (induction xs arbitrary: b)
  case Nil
  then show ?case by simp
next
  case (Cons x xs)
  let ?b = "snd (breaker_step b x)"
  have "(fst (breaker_run ?b xs), abs_breaker (snd (breaker_run ?b xs))) =
      spec_run (failure_threshold b) (cooldown_seconds b) (half_open_trials b) (abs_breaker ?b) xs"
    using Cons.IH [of ?b] Cons.prems by (simp add: breaker_step_inv frame)
  moreover note breaker_step_refines [OF Cons.prems(1), of x, symmetric]
  ultimately show ?case
    by (simp add: split_def Let_def prod_eq_iff)
qed

theorem breaker_refines_spec_witness:
  "(fst (breaker_run (new_breaker ''groq'' 2 30 1) [timeout_failure, timeout_failure, CanExecute 10, CanExecute 31]),
    abs_breaker (snd (breaker_run (new_breaker ''groq'' 2 30 1)
      [timeout_failure, timeout_failure, CanExecute 10, CanExecute 31]))) =
   ([Done, Done, Admitted False, Admitted True], SHalf 1)"
  by (subst breaker_refines_spec [OF breaker_inv_new])
    (simp_all add: new_breaker_def abs_breaker_def timeout_failure_def)

section \<open>The registry\<close>

record breaker_registry =
  reg_failure_threshold :: int
  reg_cooldown_seconds :: real
  reg_half_open_trials :: int
  breakers :: "string \<Rightarrow> breaker option"

definition new_registry :: "int \<Rightarrow> real \<Rightarrow> int \<Rightarrow> breaker_registry" where
  "new_registry thr cool trials = \<lparr>reg_failure_threshold = thr, reg_cooldown_seconds = cool,
     reg_half_open_trials = trials, breakers = Map.empty\<rparr>"

definition provider_key :: "string \<Rightarrow> string" where
  "provider_key p = strip (lower p)"

lemma provider_key_idem [simp, key_simps]: "provider_key (provider_key p) = provider_key p"
  by (simp add: provider_key_def flip: strip_lower)

lemma provider_key_lower [simp, key_simps]: "provider_key (lower p) = provider_key p"
  by (simp add: provider_key_def)

text \<open>\<open>get_breaker\<close> creates the breaker on first use.\<close>

definition get_breaker :: "string \<Rightarrow> breaker_registry \<Rightarrow> breaker \<times> breaker_registry" where
  "get_breaker p reg = (let key = provider_key p in
     case breakers reg key of
       Some b \<Rightarrow> (b, reg)
     | None \<Rightarrow> (let b = new_breaker key (reg_failure_threshold reg) (reg_cooldown_seconds reg)
                        (reg_half_open_trials reg)
               in (b, reg\<lparr>breakers := (breakers reg)(key \<mapsto> b)\<rparr>)))"

text \<open>A method call on the object \<open>get_breaker\<close> returned updates it in place.\<close>

definition on_breaker ::
  "(breaker \<Rightarrow> 'r \<times> breaker) \<Rightarrow> string \<Rightarrow> breaker_registry \<Rightarrow> 'r \<times> breaker_registry" where
  "on_breaker f p reg = (let (b, reg) = get_breaker p reg; (r, b') = f b in
     (r, reg\<lparr>breakers := (breakers reg)(provider_key p \<mapsto> b')\<rparr>))"

definition reg_can_execute :: "real \<Rightarrow> string \<Rightarrow> breaker_registry \<Rightarrow> bool \<times> breaker_registry" where
  "reg_can_execute now = on_breaker (can_execute now)"

definition reg_record_success :: "real \<Rightarrow> string \<Rightarrow> breaker_registry \<Rightarrow> breaker_registry" where
  "reg_record_success now p reg = snd (on_breaker (\<lambda>b. ((), record_success now b)) p reg)"

definition reg_record_failure :: "real \<Rightarrow> real \<Rightarrow> exn \<Rightarrow> string \<Rightarrow> breaker_registry \<Rightarrow> breaker_registry" where
  "reg_record_failure now now' e p reg = snd (on_breaker (\<lambda>b. ((), record_failure now now' e b)) p reg)"

definition reg_get_state :: "real \<Rightarrow> string \<Rightarrow> breaker_registry \<Rightarrow> circuit_state \<times> breaker_registry" where
  "reg_get_state now = on_breaker (resolve_state now)"

definition reset_all :: "breaker_registry \<Rightarrow> breaker_registry" where
  "reset_all reg = reg\<lparr>breakers := (\<lambda>k. map_option reset (breakers reg k))\<rparr>"

text \<open>The breaker a name stands for: the stored one, or the one first use would create.\<close>

definition breaker_at :: "breaker_registry \<Rightarrow> string \<Rightarrow> breaker" where
  "breaker_at reg p = fst (get_breaker p reg)"

lemma breaker_at_eq: "breaker_at reg p = (case breakers reg (provider_key p) of
     Some b \<Rightarrow> b | None \<Rightarrow> new_breaker (provider_key p) (reg_failure_threshold reg)
       (reg_cooldown_seconds reg) (reg_half_open_trials reg))"
  by (simp add: breaker_at_def get_breaker_def Let_def split: option.splits)

lemma get_breaker_config [frame]:
  "reg_failure_threshold (snd (get_breaker p reg)) = reg_failure_threshold reg"
  "reg_cooldown_seconds (snd (get_breaker p reg)) = reg_cooldown_seconds reg"
  "reg_half_open_trials (snd (get_breaker p reg)) = reg_half_open_trials reg"
  by (simp_all add: get_breaker_def Let_def split: option.splits)

lemma on_breaker_result: "fst (on_breaker f p reg) = fst (f (breaker_at reg p))"
  by (simp add: on_breaker_def breaker_at_def split_def Let_def)

lemma on_breaker_at: "breaker_at (snd (on_breaker f p reg)) q =
    (if provider_key q = provider_key p then snd (f (breaker_at reg p)) else breaker_at reg q)"
  by (auto simp: on_breaker_def breaker_at_eq get_breaker_def split_def Let_def split: option.splits)

interpretation breaker_cells: keyed_cells provider_key breaker_at on_breaker
  by unfold_locales (rule on_breaker_at, rule on_breaker_result, unfold breaker_at_eq, erule ssubst, rule refl)

text \<open>Calls on the registry, as pairs of a provider name and an operation of its breaker.\<close>

definition registry_run :: "(string \<times> breaker_op) list \<Rightarrow> breaker_registry \<Rightarrow> breaker_registry" where
  "registry_run calls reg =
     fold (\<lambda>(p, x) reg. snd (on_breaker (\<lambda>b. breaker_step b x) p reg)) calls reg"

lemma registry_run_fold: "registry_run calls reg =
    fold (\<lambda>(p, f) reg. snd (on_breaker f p reg)) (map (\<lambda>(p, x). (p, \<lambda>b. breaker_step b x)) calls) reg"
  by (simp add: registry_run_def fold_map split_def comp_def)

text \<open>
  Providers are isolated: after any calls on the registry, a provider's breaker is exactly
  what the calls whose name normalises to the same key (case and surrounding blanks ignored) made of
  it; calls about other providers have no effect on it.
\<close>

theorem registry_isolates_providers:
  "breaker_at (registry_run calls reg) p =
     snd (breaker_run (breaker_at reg p)
       (map snd (filter (\<lambda>(q, x). provider_key q = provider_key p) calls)))"
proof -
  have "fold (\<lambda>(q, f) c. if provider_key q = provider_key p then snd (f c) else c)
      (map (\<lambda>(q, x). (q, \<lambda>b. breaker_step b x)) calls) b =
    snd (breaker_run b (map snd (filter (\<lambda>(q, x). provider_key q = provider_key p) calls)))" for b
    by (induction calls arbitrary: b) (auto simp: split_def)
  then show ?thesis
    by (simp add: registry_run_fold breaker_cells.cell_run)
qed

end
