(* ===== verification/Providers.thy ===== *)
theory Providers
  imports Breaker Schemas "HOL-Library.List_Lexorder"
begin

text \<open>
  The provider adapters (\<open>app/providers/base.py\<close>, \<open>openai_provider.py\<close>, \<open>groq_provider.py\<close>,
  \<open>gemini_provider.py\<close>, \<open>ollama_provider.py\<close>): the payload built from a request, the translation of the
  upstream's answer into the gateway's response and of its failures into the gateway's exceptions. The
  SDKs and the HTTP client are parameters: what they answer to a payload, and how long it took. The
  \<open>details\<close> of an exception, which never reach a client, are left out.
\<close>

section \<open>Common parts\<close>

fun role_name :: "message_role \<Rightarrow> string" where
  "role_name SystemR = ''system''"
| "role_name UserR = ''user''"
| "role_name AssistantR = ''assistant''"

text \<open>\<open>if request.stop\<close>\<close>

definition given_list :: "'a list option \<Rightarrow> 'a list option" where
  "given_list v = (if v = Some [] then None else v)"

definition text_or_empty :: "string option \<Rightarrow> string" where
  "text_or_empty v = (case v of None \<Rightarrow> [] | Some s \<Rightarrow> s)"

definition normalized ::
  "string \<Rightarrow> string \<Rightarrow> choice list \<Rightarrow> usage_metadata \<Rightarrow> string \<Rightarrow> real \<Rightarrow> chat_response" where
  "normalized name model choices usage rid latency =
     \<lparr>p_provider = name, p_model = model, p_choices = choices, p_usage = usage,
      p_metadata = new_metadata rid (py_round latency 2)\<rparr>"

definition no_usage :: usage_metadata where
  "no_usage = \<lparr>prompt_tokens = None, completion_tokens = None, total_tokens = None\<rparr>"

section \<open>OpenAI and Groq\<close>

record payload =
  pl_model :: string
  pl_messages :: "(string \<times> string) list"
  pl_temperature :: "real option"
  pl_max_tokens :: "int option"
  pl_top_p :: "real option"
  pl_stop :: "string list option"

record completion =
  cp_model :: string
  cp_choices :: "(int \<times> string option \<times> string option) list"
  cp_usage :: "(int \<times> int \<times> int) option"

text \<open>What the SDK returns or raises: \<open>APITimeoutError\<close>, \<open>APIStatusError\<close> (status, message), ...\<close>

datatype 'a sdk_answer = Completed 'a | TimedOut | BadStatus int string | NoConnection | OtherFailure

definition to_payload :: "chat_request \<Rightarrow> payload" where
  "to_payload q = \<lparr>pl_model = q_model q,
     pl_messages = map (\<lambda>m. (role_name (msg_role m), msg_content m)) (q_messages q),
     pl_temperature = q_temperature q, pl_max_tokens = q_max_tokens q, pl_top_p = q_top_p q,
     pl_stop = given_list (q_stop q)\<rparr>"

definition raise_from_status :: "string \<Rightarrow> int \<Rightarrow> string \<Rightarrow> exn" where
  "raise_from_status label status msg =
     (if status = 401 \<or> status = 403 then
        Exn ProviderAuthErrorC (label @ '' authentication failed. Check your API key.'')
      else if status = 429 then
        Exn ProviderRateLimitErrorC (label @ '' rate limit reached. Please try again later.'')
      else if status = 404 then Exn InvalidModelErrorC (''Model not found on '' @ label @ '': '' @ msg)
      else if status \<ge> 500 then Exn ProviderUnavailableErrorC (label @ '' is currently unavailable.'')
      else Exn ProviderErrorC (label @ '' returned an error: '' @ msg))"

definition from_completion :: "string \<Rightarrow> string \<Rightarrow> real \<Rightarrow> completion \<Rightarrow> chat_response" where
  "from_completion name rid latency c =
     normalized name (cp_model c)
       (map (\<lambda>(i, content, finish). \<lparr>ch_index = i, ch_content = text_or_empty content, ch_finish_reason = finish\<rparr>) (cp_choices c))
       (case cp_usage c of None \<Rightarrow> no_usage | Some (p, k, t) \<Rightarrow>
          \<lparr>prompt_tokens = Some p, completion_tokens = Some k, total_tokens = Some t\<rparr>) rid latency"

definition compatible_chat ::
  "string \<Rightarrow> string \<Rightarrow> (payload \<Rightarrow> completion sdk_answer \<times> real) \<Rightarrow> chat_request \<Rightarrow> string \<Rightarrow> exn + chat_response" where
  "compatible_chat name label create q rid = (case create (to_payload q) of
     (TimedOut, t) \<Rightarrow> Inl (Exn ProviderTimeoutErrorC (label @ '' request timed out.''))
   | (BadStatus s msg, t) \<Rightarrow> Inl (raise_from_status label s msg)
   | (NoConnection, t) \<Rightarrow> Inl (Exn ProviderUnavailableErrorC (''Could not connect to '' @ label @ ''.''))
   | (OtherFailure, t) \<Rightarrow> Inl (Exn ProviderErrorC (''Unexpected error from '' @ label @ ''.''))
   | (Completed c, t) \<Rightarrow> Inr (from_completion name rid t c))"

definition openai_chat ::
  "(payload \<Rightarrow> completion sdk_answer \<times> real) \<Rightarrow> chat_request \<Rightarrow> string \<Rightarrow> exn + chat_response" where
  "openai_chat = compatible_chat ''openai'' ''OpenAI''"

definition groq_chat ::
  "(payload \<Rightarrow> completion sdk_answer \<times> real) \<Rightarrow> chat_request \<Rightarrow> string \<Rightarrow> exn + chat_response" where
  "groq_chat = compatible_chat ''groq'' ''Groq''"

text \<open>\<open>models\<close>: what listing the models answers\<close>

definition lists_models :: "'a sdk_answer \<Rightarrow> bool" where
  "lists_models models = (case models of Completed ms \<Rightarrow> True | _ \<Rightarrow> False)"

definition openai_models :: "string list sdk_answer \<Rightarrow> exn + string list" where
  "openai_models models = (case models of
     Completed ids \<Rightarrow> Inr (sort (filter (\<lambda>i. contains ''gpt'' (lower i)) ids))
   | BadStatus s msg \<Rightarrow> Inl (raise_from_status ''OpenAI'' s msg)
   | TimedOut \<Rightarrow> Inl (Exn ProviderTimeoutErrorC ''OpenAI model list timed out.'')
   | _ \<Rightarrow> Inl (Exn ProviderUnavailableErrorC ''Could not fetch OpenAI models.''))"

definition groq_known_models :: "string list" where
  "groq_known_models = [''llama-3.3-70b-versatile'', ''llama-3.1-8b-instant'', ''llama3-8b-8192'',
     ''llama3-70b-8192'', ''mixtral-8x7b-32768'', ''gemma2-9b-it'']"

definition groq_models :: "string list sdk_answer \<Rightarrow> exn + string list" where
  "groq_models models = (case models of
     Completed ids \<Rightarrow> Inr (sort ids)
   | BadStatus s msg \<Rightarrow> Inl (raise_from_status ''Groq'' s msg)
   | TimedOut \<Rightarrow> Inl (Exn ProviderTimeoutErrorC ''Groq model list timed out.'')
   | _ \<Rightarrow> Inr groq_known_models)"

section \<open>Gemini\<close>

datatype 'a gemini_answer =
    Responded 'a | DeadlineExceeded | Unauthenticated | PermissionDenied | ResourceExhausted | ServiceUnavailable
  | GoogleAPIError string | GeminiFailure

record gemini_payload =
  gp_model :: string
  gp_system :: "string option"
  gp_temperature :: "real option"
  gp_max_output_tokens :: "int option"
  gp_top_p :: "real option"
  gp_stop_sequences :: "string list option"
  gp_history :: "(string \<times> string) list"
  gp_message :: string

text \<open>The text of a blocked response is not readable; a usage field may be missing.\<close>

record gemini_response =
  gr_text :: "string option"
  gr_usage :: "(int option \<times> int option \<times> int option) option"
  gr_finish :: "string option"

text \<open>The loop over the messages: system instruction, history, last user message\<close>

fun split_messages ::
  "chat_message list \<Rightarrow> string option \<times> (string \<times> string) list \<times> string option \<Rightarrow>
   string option \<times> (string \<times> string) list \<times> string option" where
  "split_messages [] acc = acc"
| "split_messages (m # ms) (sys, hist, last_user) = split_messages ms (case msg_role m of
     SystemR \<Rightarrow> (Some (msg_content m), hist, last_user)
   | UserR \<Rightarrow> (sys, hist @ [(''user'', msg_content m)], Some (msg_content m))
   | AssistantR \<Rightarrow> (sys, hist @ [(''model'', msg_content m)], last_user))"

definition gemini_request :: "chat_request \<Rightarrow> gemini_payload option" where
  "gemini_request q = (case split_messages (q_messages q) (None, [], None) of
     (sys, hist, None) \<Rightarrow> None
   | (sys, hist, Some last_user) \<Rightarrow> Some
       \<lparr>gp_model = q_model q, gp_system = given_list sys, gp_temperature = q_temperature q,
        gp_max_output_tokens = q_max_tokens q, gp_top_p = q_top_p q, gp_stop_sequences = given_list (q_stop q),
        gp_history = butlast hist, gp_message = last_user\<rparr>)"

definition gemini_chat ::
  "(gemini_payload \<Rightarrow> gemini_response gemini_answer \<times> real) \<Rightarrow> chat_request \<Rightarrow> string \<Rightarrow> exn + chat_response" where
  "gemini_chat send q rid = (case gemini_request q of
     None \<Rightarrow> Inl (Exn ProviderErrorC ''At least one user message is required for Gemini.'')
   | Some payload \<Rightarrow> (case send payload of
        (DeadlineExceeded, t) \<Rightarrow> Inl (Exn ProviderTimeoutErrorC ''Gemini request timed out.'')
      | (Unauthenticated, t) \<Rightarrow> Inl (Exn ProviderAuthErrorC ''Gemini authentication failed. Check your API key.'')
      | (PermissionDenied, t) \<Rightarrow> Inl (Exn ProviderAuthErrorC ''Gemini authentication failed. Check your API key.'')
      | (ResourceExhausted, t) \<Rightarrow> Inl (Exn ProviderRateLimitErrorC ''Gemini rate limit reached. Please try again later.'')
      | (ServiceUnavailable, t) \<Rightarrow> Inl (Exn ProviderUnavailableErrorC ''Gemini is currently unavailable.'')
      | (GoogleAPIError msg, t) \<Rightarrow>
          if contains ''not found'' (lower msg) \<or> contains ''invalid'' (lower msg)
          then Inl (Exn InvalidModelErrorC (''Gemini model not found: '' @ q_model q))
          else Inl (Exn ProviderErrorC ''Gemini returned an error.'')
      | (GeminiFailure, t) \<Rightarrow> Inl (Exn ProviderErrorC ''Unexpected error from Gemini.'')
      | (Responded r, t) \<Rightarrow> Inr (normalized ''gemini'' (q_model q)
          [\<lparr>ch_index = 0, ch_content = text_or_empty (gr_text r), ch_finish_reason = map_option lower (gr_finish r)\<rparr>]
          (case gr_usage r of None \<Rightarrow> no_usage
           | Some (p, k, n) \<Rightarrow> \<lparr>prompt_tokens = p, completion_tokens = k, total_tokens = n\<rparr>) rid t)))"

text \<open>\<open>s.replace(p, "")\<close> for a non-empty \<open>p\<close>\<close>

function remove_all :: "string \<Rightarrow> string \<Rightarrow> string" where
  "remove_all p [] = []"
| "remove_all p (c # cs) = (if p \<noteq> [] \<and> starts_with p (c # cs) then remove_all p (drop (length p) (c # cs))
     else c # remove_all p cs)"
  by pat_completeness auto
termination
  by (relation "measure (\<lambda>(p, s). length s)") auto

definition gemini_known_models :: "string list" where
  "gemini_known_models = [''gemini-1.5-pro'', ''gemini-1.5-flash'', ''gemini-1.5-flash-8b'', ''gemini-2.0-flash'',
     ''gemini-2.0-flash-lite'']"

definition gemini_models :: "(string \<times> string list) list gemini_answer \<Rightarrow> exn + string list" where
  "gemini_models models = (case models of
     Responded ms \<Rightarrow> Inr (sort (map (\<lambda>(n, methods). remove_all ''models/'' n)
       (filter (\<lambda>(n, methods). List.member methods ''generateContent'' \<and> contains ''gemini'' (lower n)) ms)))
   | Unauthenticated \<Rightarrow> Inl (Exn ProviderAuthErrorC ''Gemini authentication failed. Check your API key.'')
   | PermissionDenied \<Rightarrow> Inl (Exn ProviderAuthErrorC ''Gemini authentication failed. Check your API key.'')
   | _ \<Rightarrow> Inr gemini_known_models)"

definition gemini_health :: "(string \<times> string list) list gemini_answer \<Rightarrow> bool" where
  "gemini_health models = (case models of Responded ms \<Rightarrow> length ms > 0 | _ \<Rightarrow> False)"

section \<open>Ollama\<close>

datatype 'a http_answer = Answered 'a | HttpTimeout | HttpConnect | HttpFailure

record ollama_payload =
  op_endpoint :: string
  op_model :: string
  op_messages :: "(string \<times> string) list"
  op_options :: "real option \<times> real option \<times> int option \<times> string list option"

text \<open>
  The body of an answer as JSON: not JSON, not an object, with a \<open>message\<close> that is no object, or an object
  whose fields have their types; absent fields are \<open>None\<close>.
\<close>

record ollama_data =
  od_content :: "string option"
  od_done_reason :: "string option"
  od_done :: bool
  od_prompt_eval_count :: "int option"
  od_eval_count :: "int option"
  od_model :: "string option"

datatype ollama_body = NotJson | NotObject | NoMessageObject | Decoded ollama_data

record 'b http_reply =
  hr_status :: int
  hr_text :: string
  hr_error :: "string option"
  hr_body :: 'b

definition handle_http_error :: "string \<Rightarrow> 'b http_reply \<Rightarrow> exn" where
  "handle_http_error model r =
     (let status = hr_status r; msg = (case hr_error r of None \<Rightarrow> hr_text r | Some e \<Rightarrow> e) in
      if status = 404 then
        (if contains ''model'' (lower msg) \<or> contains ''not found'' (lower msg)
         then Exn InvalidModelErrorC (''Model '' @ repr model @ '' not found in Ollama.'')
         else Exn ProviderUnavailableErrorC (''Ollama endpoint not found (HTTP '' @ str_int status @ '').''))
      else if status \<ge> 500 then
        Exn ProviderUnavailableErrorC (''Ollama service returned server error (HTTP '' @ str_int status @ '').'')
      else Exn ProviderErrorC (''Ollama returned HTTP '' @ str_int status @ '': '' @ msg))"

definition ollama_usage :: "ollama_data \<Rightarrow> usage_metadata" where
  "ollama_usage d = \<lparr>prompt_tokens = od_prompt_eval_count d, completion_tokens = od_eval_count d,
     total_tokens = (case (od_prompt_eval_count d, od_eval_count d) of (Some p, Some k) \<Rightarrow> Some (p + k) | _ \<Rightarrow> None)\<rparr>"

definition ollama_chat ::
  "string \<Rightarrow> (ollama_payload \<Rightarrow> ollama_body http_reply http_answer \<times> real) \<Rightarrow> chat_request \<Rightarrow> string \<Rightarrow> exn + chat_response" where
  "ollama_chat base_url post q rid =
     (case post \<lparr>op_endpoint = base_url @ ''/api/chat'', op_model = q_model q,
        op_messages = map (\<lambda>m. (role_name (msg_role m), msg_content m)) (q_messages q),
        op_options = (q_temperature q, q_top_p q, q_max_tokens q, given_list (q_stop q))\<rparr> of
      (HttpTimeout, t) \<Rightarrow> Inl (Exn ProviderTimeoutErrorC ''Ollama request timed out.'')
    | (HttpConnect, t) \<Rightarrow> Inl (Exn ProviderUnavailableErrorC ''Could not connect to Ollama service. Ensure Ollama is running.'')
    | (HttpFailure, t) \<Rightarrow> Inl (Exn ProviderErrorC ''Unexpected error communicating with Ollama.'')
    | (Answered r, t) \<Rightarrow>
        if hr_status r \<noteq> 200 then Inl (handle_http_error (q_model q) r)
        else (case hr_body r of
            NotJson \<Rightarrow> Inl (Exn ValueErrorC ''JSONDecodeError'')
          | NotObject \<Rightarrow> Inl (Exn AttributeErrorC ''get'')
          | NoMessageObject \<Rightarrow> Inl (Exn AttributeErrorC ''get'')
          | Decoded d \<Rightarrow> Inr (normalized ''ollama'' (case od_model d of None \<Rightarrow> q_model q | Some m \<Rightarrow> m)
              [\<lparr>ch_index = 0, ch_content = text_or_empty (od_content d),
                ch_finish_reason = (case od_done_reason d of
                    Some (c # cs) \<Rightarrow> Some (c # cs) | _ \<Rightarrow> if od_done d then Some ''stop'' else None)\<rparr>]
              (ollama_usage d) rid t)))"

definition ollama_health :: "'b http_reply http_answer \<Rightarrow> bool" where
  "ollama_health res = (case res of Answered r \<Rightarrow> hr_status r = 200 | _ \<Rightarrow> False)"

text \<open>The names the tags list, \<open>None\<close> for one without a name; no JSON is \<open>None\<close>\<close>

definition ollama_models :: "string option list option http_reply http_answer \<Rightarrow> exn + string list" where
  "ollama_models res = (case res of
     HttpTimeout \<Rightarrow> Inl (Exn ProviderTimeoutErrorC ''Ollama model list request timed out.'')
   | HttpConnect \<Rightarrow> Inl (Exn ProviderUnavailableErrorC ''Could not connect to Ollama service to fetch models.'')
   | HttpFailure \<Rightarrow> Inl (Exn ProviderErrorC ''Unexpected error fetching Ollama models.'')
   | Answered r \<Rightarrow>
       if hr_status r \<noteq> 200 then
         Inl (Exn ProviderUnavailableErrorC (''Ollama returned HTTP '' @ str_int (hr_status r) @ '' while fetching models.''))
       else (case hr_body r of
           None \<Rightarrow> Inl (Exn ValueErrorC ''JSONDecodeError'')
         | Some names \<Rightarrow> Inr (sort (map the (filter (\<lambda>n. n \<noteq> None \<and> n \<noteq> Some []) names)))))"

section \<open>The contract of an adapter (base.py)\<close>

text \<open>The exceptions the base class lists\<close>

definition adapter_classes :: "py_class list" where
  "adapter_classes = [ProviderTimeoutErrorC, ProviderRateLimitErrorC, ProviderAuthErrorC, ProviderUnavailableErrorC,
     InvalidModelErrorC, ProviderErrorC]"

lemma adapter_cases:
  assumes "List.member adapter_classes c"
  obtains "c = ProviderTimeoutErrorC" | "c = ProviderRateLimitErrorC" | "c = ProviderAuthErrorC"
    | "c = ProviderUnavailableErrorC" | "c = InvalidModelErrorC" | "c = ProviderErrorC"
  using assms by (auto simp: adapter_classes_def)

lemma adapter_response:
  assumes "List.member adapter_classes c"
  shows "List.member [400, 429, 502, 503, 504] (r_status (handle_exception i (Exn c m))) \<and>
    r_code (handle_exception i (Exn c m)) \<noteq> ''INTERNAL_SERVER_ERROR'' \<and> r_message (handle_exception i (Exn c m)) = m"
  using assms
  by (cases rule: adapter_cases) (simp_all add: handle_exception_def handler_for_def handled_classes_def
      error_response_def status_code_def error_code_def)

lemma adapter_classified:
  assumes "List.member adapter_classes c"
  shows "is_transient_error (Exn c m) \<longleftrightarrow> \<not> List.member [InvalidModelErrorC, ProviderAuthErrorC] c"
    and "is_circuit_breaker_failure (Exn c m) \<longleftrightarrow> \<not> List.member [InvalidModelErrorC, ProviderAuthErrorC, ProviderRateLimitErrorC] c"
  using assms by (cases rule: adapter_cases; simp add: classify_defs)+

locale provider_adapter =
  fixes provider_name :: string
    and chat :: "'w \<Rightarrow> chat_request \<Rightarrow> string \<Rightarrow> exn + chat_response"
    and proper :: "'w \<Rightarrow> bool"
  assumes failure: "proper w \<Longrightarrow> chat w q rid = Inl e \<Longrightarrow> \<exists>c m. e = Exn c m \<and> List.member adapter_classes c"
    and success: "proper w \<Longrightarrow> chat w q rid = Inr r \<Longrightarrow>
      p_provider r = provider_name \<and> (\<exists>t. p_metadata r = new_metadata rid t)"
begin

lemma failure_response:
  assumes "proper w" "chat w q rid = Inl e"
  shows "List.member [400, 429, 502, 503, 504] (r_status (handle_exception i e)) \<and>
    r_code (handle_exception i e) \<noteq> ''INTERNAL_SERVER_ERROR'' \<and> r_message (handle_exception i e) = message_of e"
  using failure [OF assms] adapter_response by auto

lemma failure_classified:
  assumes "proper w" "chat w q rid = Inl e"
  shows "is_transient_error e \<longleftrightarrow> \<not> List.member [InvalidModelErrorC, ProviderAuthErrorC] (class_of e)"
    and "is_circuit_breaker_failure e \<longleftrightarrow>
      \<not> List.member [InvalidModelErrorC, ProviderAuthErrorC, ProviderRateLimitErrorC] (class_of e)"
  using failure [OF assms] adapter_classified by auto

end

lemma raise_from_status_class:
  "\<exists>c m. raise_from_status label s msg = Exn c m \<and> List.member adapter_classes c"
  by (simp add: raise_from_status_def adapter_classes_def)

lemma compatible_failure:
  assumes "compatible_chat name label create q rid = Inl e"
  shows "\<exists>c m. e = Exn c m \<and> List.member adapter_classes c"
  using assms raise_from_status_class [of label]
  by (auto simp: compatible_chat_def adapter_classes_def split: prod.splits sdk_answer.splits)

lemma compatible_success:
  assumes "compatible_chat name label create q rid = Inr r"
  shows "p_provider r = name \<and> (\<exists>t. p_metadata r = new_metadata rid t)"
  using assms
  by (auto simp: compatible_chat_def from_completion_def normalized_def split: prod.splits sdk_answer.splits)

interpretation openai: provider_adapter "''openai''" openai_chat "\<lambda>w. True"
  by unfold_locales (auto simp: openai_chat_def dest: compatible_failure compatible_success)

interpretation groq: provider_adapter "''groq''" groq_chat "\<lambda>w. True"
  by unfold_locales (auto simp: groq_chat_def dest: compatible_failure compatible_success)

interpretation gemini: provider_adapter "''gemini''" gemini_chat "\<lambda>w. True"
  by unfold_locales (auto simp: gemini_chat_def adapter_classes_def normalized_def
      split: option.splits prod.splits gemini_answer.splits if_splits)

text \<open>Ollama keeps the contract as long as a success carries a body of the expected form.\<close>

definition well_formed_answers :: "(ollama_payload \<Rightarrow> ollama_body http_reply http_answer \<times> real) \<Rightarrow> bool" where
  "well_formed_answers post = (\<forall>p r t. post p = (Answered r, t) \<longrightarrow> hr_status r = 200 \<longrightarrow> (\<exists>d. hr_body r = Decoded d))"

lemma http_error_class: "\<exists>c m. handle_http_error model r = Exn c m \<and> List.member adapter_classes c"
  by (simp add: handle_http_error_def adapter_classes_def Let_def)

lemma ollama_cases:
  assumes "well_formed_answers post" "ollama_chat base_url post q rid = res"
  obtains r :: "ollama_body http_reply" where "hr_status r \<noteq> 200" "res = Inl (handle_http_error (q_model q) r)"
  | m where "res = Inl (Exn ProviderTimeoutErrorC m)" | m where "res = Inl (Exn ProviderUnavailableErrorC m)"
  | m where "res = Inl (Exn ProviderErrorC m)"
  | model choices usage t where "res = Inr (normalized ''ollama'' model choices usage rid t)"
proof -
  define pl where "pl = \<lparr>op_endpoint = base_url @ ''/api/chat'', op_model = q_model q,
    op_messages = map (\<lambda>m. (role_name (msg_role m), msg_content m)) (q_messages q),
    op_options = (q_temperature q, q_top_p q, q_max_tokens q, given_list (q_stop q))\<rparr>"
  obtain ans t where post: "post pl = (ans, t)" by fastforce
  note res = assms(2) [unfolded ollama_chat_def, folded pl_def, unfolded post, symmetric]
  show thesis
  proof (cases ans)
    case (Answered r)
    show thesis
    proof (cases "hr_status r = 200")
      case True
      then obtain d where "hr_body r = Decoded d"
        using assms(1) post Answered unfolding well_formed_answers_def by blast
      then show thesis
        using res Answered True by (auto intro: that(5))
    qed (use res Answered that(1) in auto)
  qed (use res that(2-4) in auto)
qed

interpretation ollama: provider_adapter "''ollama''" "ollama_chat base_url" well_formed_answers for base_url
proof
  fix w q rid e
  assume w: "well_formed_answers w" and run: "ollama_chat base_url w q rid = Inl e"
  show "\<exists>c m. e = Exn c m \<and> List.member adapter_classes c"
    using w run
  proof (cases rule: ollama_cases)
    case (1 r)
    then show ?thesis
      using http_error_class [of "q_model q" r] by simp
  qed (auto simp: adapter_classes_def)
next
  fix w q rid r
  assume "well_formed_answers w" "ollama_chat base_url w q rid = Inr r"
  then show "p_provider r = ''ollama'' \<and> (\<exists>t. p_metadata r = new_metadata rid t)"
    by (cases rule: ollama_cases) (auto simp: normalized_def)
qed

section \<open>Properties\<close>


text \<open>
  A body Ollama answers 200 with that is not JSON leaves the adapter as a \<open>ValueError\<close>: the client gets an
  internal error, and there is neither a retry nor a failure on the provider's circuit breaker.
\<close>

theorem ollama_bad_body_is_internal:
  assumes "\<And>p. \<exists>t. post p = (Answered r, t)" "hr_status r = 200" "hr_body r = NotJson"
  shows "\<exists>e. ollama_chat base_url post q rid = Inl e \<and> handle_exception i e = internal_error i \<and>
    \<not> is_transient_error e \<and> \<not> is_circuit_breaker_failure e"
proof -
  define pl where "pl = \<lparr>op_endpoint = base_url @ ''/api/chat'', op_model = q_model q,
    op_messages = map (\<lambda>m. (role_name (msg_role m), msg_content m)) (q_messages q),
    op_options = (q_temperature q, q_top_p q, q_max_tokens q, given_list (q_stop q))\<rparr>"
  obtain t where "post pl = (Answered r, t)" using assms(1) by blast
  then show ?thesis
    using assms(2,3) unfolding ollama_chat_def pl_def
    by (simp add: handle_exception_def handler_for_def handled_classes_def classify_defs)
qed

text \<open>
  Requests that Groq rejects as malformed open its circuit for everybody: a 4xx status other than
  401, 403, 404 and 429 becomes the generic provider error, which is retried and counted as a failure of
  the provider, so as many such requests as the threshold open a closed breaker.
\<close>

theorem rejected_requests_open_breaker:
  assumes "\<And>p. \<exists>t. create p = (BadStatus s msg, t)" "400 \<le> s" "s < 500" "\<not> List.member [401, 403, 404, 429] s"
    and "b_state b = CLOSED" "failure_count b = 0" "int (length ts) + 1 = failure_threshold b"
  shows "\<exists>e. (\<forall>q rid. groq_chat create q rid = Inl e) \<and> is_transient_error e \<and>
    b_state (snd (breaker_run b (map (\<lambda>(t, t'). Failure t t' e) (ts @ [t])))) = OPEN"
proof -
  let ?e = "Exn ProviderErrorC (''Groq returned an error: '' @ msg)"
  have chat: "groq_chat create q rid = Inl ?e" for q rid
    using assms(1) [of "to_payload q"] assms(2-4)
    by (auto simp: groq_chat_def compatible_chat_def raise_from_status_def)
  have e: "is_transient_error ?e" "is_circuit_breaker_failure ?e"
    by (simp_all add: adapter_classified adapter_classes_def)
  then have counted: "list_all counted (map (\<lambda>(t, t'). Failure t t' ?e) ts)"
    by (auto simp: list_all_iff counted_def)
  obtain u v where t: "t = (u, v)" by (cases t)
  show ?thesis
    using chat e opens_exactly_at_threshold [OF assms(5,6) counted e(2), of u v] assms(7)
    by (intro exI [of _ ?e]) (simp add: t)
qed

section \<open>Gemini's conversation\<close>

fun turns :: "chat_message list \<Rightarrow> (string \<times> string) list" where
  "turns [] = []"
| "turns (m # ms) = (case msg_role m of SystemR \<Rightarrow> turns ms
     | UserR \<Rightarrow> (''user'', msg_content m) # turns ms | AssistantR \<Rightarrow> (''model'', msg_content m) # turns ms)"

lemma split_append: "split_messages (xs @ ys) acc = split_messages ys (split_messages xs acc)"
  by (induction xs acc rule: split_messages.induct) simp_all

lemma split_history: "fst (snd (split_messages ms (sys, hist, lu))) = hist @ turns ms"
  by (induction ms arbitrary: sys hist lu) (auto split: message_role.splits)

lemma split_at:
  obtains sys lu where "split_messages ms (None, [], None) = (sys, turns ms, lu)"
  using split_history [of ms None "[]" None] by (cases "split_messages ms (None, [], None)") auto

text \<open>
  Gemini is sent the conversation turn by turn when it ends with the user: the history is every turn
  before the last message, in order, and the last message is sent. But if an assistant message follows the
  user's last one, the wrong turn is cut off the history: the assistant's message is lost and the user's
  is sent twice.
\<close>

theorem gemini_conversation:
  "(msg_role u = UserR \<longrightarrow> (\<exists>p. gemini_request (q\<lparr>q_messages := ms @ [u]\<rparr>) = Some p \<and>
      gp_history p = turns ms \<and> gp_message p = msg_content u)) \<and>
   (msg_role u = UserR \<and> msg_role a = AssistantR \<longrightarrow> (\<exists>p. gemini_request (q\<lparr>q_messages := ms @ [u, a]\<rparr>) = Some p \<and>
      gp_history p = turns ms @ [(''user'', msg_content u)] \<and> gp_message p = msg_content u))"
proof -
  obtain sys lu where split: "split_messages ms (None, [], None) = (sys, turns ms, lu)"
    using split_at [of ms] .
  show ?thesis
    by (simp add: gemini_request_def split_append split butlast_append)
qed

section \<open>Witnesses\<close>


theorem rejected_requests_open_breaker_witness:
  "\<exists>e. b_state (snd (breaker_run (new_breaker ''groq'' 2 30 1) (map (\<lambda>(t, t'). Failure t t' e) [(0, 0), (1, 1)]))) = OPEN"
  using rejected_requests_open_breaker [where create = "\<lambda>p. (BadStatus 400 ''bad'', 0)" and s = 400 and msg = "''bad''"
      and b = "new_breaker ''groq'' 2 30 1" and ts = "[(0, 0)]" and t = "(1, 1)"]
  by (auto simp: new_breaker_def)

theorem gemini_conversation_witness:
  "\<exists>p. gemini_request (example_request\<lparr>q_messages := [\<lparr>msg_role = UserR, msg_content = ''hi''\<rparr>,
      \<lparr>msg_role = AssistantR, msg_content = ''hello''\<rparr>]\<rparr>) = Some p \<and> gp_history p = [(''user'', ''hi'')] \<and> gp_message p = ''hi''"
  using gemini_conversation [where u = "\<lparr>msg_role = UserR, msg_content = ''hi''\<rparr>" and q = example_request and ms = "[]"
      and a = "\<lparr>msg_role = AssistantR, msg_content = ''hello''\<rparr>"]
  by auto

end
