(* ===== verification/Migrations.thy ===== *)
theory Migrations
  imports Catalog
begin

text \<open>
  The database schema: the migrations of \<open>alembic/versions\<close> as the lists of operations their
  \<open>upgrade\<close> and \<open>downgrade\<close> issue, the effect of an operation on the schema, the chain of revisions
  Alembic moves along, and the tables the ORM classes declare. PostgreSQL's rules for an operation are
  its documented ones: a name in use, an unknown table or column, and a table another one references
  make the statement fail; dropping a column drops the indexes and constraints over it, dropping a
  table those of the table. Column comments are left out. The rows of \<open>model_registry\<close>, the only table a
  migration writes to, are those of the model table.
\<close>

section \<open>Schema and operations\<close>

datatype col_type = Varchar nat | TimestampTz | DoublePrecision | BooleanCol | IntegerCol | Jsonb

datatype column = Column (co_name: string) (co_type: col_type) (co_nullable: bool) (co_default: "string option")

datatype on_delete = Cascade | SetNull

datatype table_constraint =
    PrimaryKey "string list"
  | Unique string "string list"
  | ForeignKey string "string list" string "string list" on_delete

datatype db_table = Table (t_columns: "column list") (t_constraints: "table_constraint list")

datatype db_index = Index (ix_name: string) (ix_table: string) (ix_columns: "string list") (ix_unique: bool)

record schema =
  s_tables :: "(string \<times> db_table) list"
  s_indexes :: "db_index list"

definition empty_schema :: schema where
  "empty_schema = \<lparr>s_tables = [], s_indexes = []\<rparr>"

datatype ddl =
    CreateTable string "column list" "table_constraint list"
  | DropTable string
  | AddColumn string column
  | DropColumn string string
  | CreateUnique string string "string list"
  | DropUnique string string
  | CreateIndex string string "string list" bool
  | DropIndex string string
  | BulkInsert string "registry_entry list"

text \<open>Tables, indexes and unique constraints share one name space.\<close>

fun unique_name :: "table_constraint \<Rightarrow> string list" where
  "unique_name (Unique n cs) = [n]"
| "unique_name k = []"

definition relation_names :: "schema \<Rightarrow> string list" where
  "relation_names s = map fst (s_tables s) @ map ix_name (s_indexes s) @
     concat (map (\<lambda>(n, t). concat (map unique_name (t_constraints t))) (s_tables s))"

definition free_name :: "schema \<Rightarrow> string \<Rightarrow> bool" where
  "free_name s n = (\<not> List.member (relation_names s) n)"

definition has_columns :: "column list \<Rightarrow> string list \<Rightarrow> bool" where
  "has_columns cs names = list_all (List.member (map co_name cs)) names"

fun constraint_ok :: "schema \<Rightarrow> column list \<Rightarrow> table_constraint \<Rightarrow> bool" where
  "constraint_ok s cs (PrimaryKey cols) = has_columns cs cols"
| "constraint_ok s cs (Unique n cols) = (free_name s n \<and> has_columns cs cols)"
| "constraint_ok s cs (ForeignKey n cols target keys od) = (has_columns cs cols \<and>
     (case map_of (s_tables s) target of
        None \<Rightarrow> False
      | Some t \<Rightarrow> List.member (t_constraints t) (PrimaryKey keys)))"

fun refers_to :: "string \<Rightarrow> table_constraint \<Rightarrow> bool" where
  "refers_to n (ForeignKey name cols target keys od) = (target = n)"
| "refers_to n k = False"

fun ranges_over :: "string \<Rightarrow> table_constraint \<Rightarrow> bool" where
  "ranges_over c (PrimaryKey cols) = List.member cols c"
| "ranges_over c (Unique n cols) = List.member cols c"
| "ranges_over c (ForeignKey n cols target keys od) = List.member cols c"

fun refers_to_column :: "string \<Rightarrow> string \<Rightarrow> table_constraint \<Rightarrow> bool" where
  "refers_to_column n c (ForeignKey name cols target keys od) = (target = n \<and> List.member keys c)"
| "refers_to_column n c k = False"

definition column_referenced :: "schema \<Rightarrow> string \<Rightarrow> string \<Rightarrow> bool" where
  "column_referenced s n c =
     list_ex (\<lambda>(m, t). m \<noteq> n \<and> list_ex (refers_to_column n c) (t_constraints t)) (s_tables s)"

definition referenced :: "schema \<Rightarrow> string \<Rightarrow> bool" where
  "referenced s n = list_ex (\<lambda>(m, t). m \<noteq> n \<and> list_ex (refers_to n) (t_constraints t)) (s_tables s)"

definition on_table :: "string \<Rightarrow> (db_table \<Rightarrow> db_table option) \<Rightarrow> schema \<Rightarrow> schema option" where
  "on_table n f s = (case map_of (s_tables s) n of
     None \<Rightarrow> None
   | Some t \<Rightarrow> (case f t of
       None \<Rightarrow> None
     | Some t' \<Rightarrow> Some (s\<lparr>s_tables := map (\<lambda>(m, u). (m, if m = n then t' else u)) (s_tables s)\<rparr>)))"

fun exec_ddl :: "ddl \<Rightarrow> schema \<Rightarrow> schema option" where
  "exec_ddl (CreateTable n cs ks) s =
     (if free_name s n \<and> distinct (map co_name cs) \<and> list_all (constraint_ok s cs) ks
      then Some (s\<lparr>s_tables := s_tables s @ [(n, Table cs ks)]\<rparr>) else None)"
| "exec_ddl (DropTable n) s =
     (if map_of (s_tables s) n = None \<or> referenced s n then None
      else Some \<lparr>s_tables = filter (\<lambda>(m, t). m \<noteq> n) (s_tables s),
                 s_indexes = filter (\<lambda>i. ix_table i \<noteq> n) (s_indexes s)\<rparr>)"
| "exec_ddl (AddColumn n c) s = on_table n (\<lambda>t.
     if has_columns (t_columns t) [co_name c] then None
     else Some (Table (t_columns t @ [c]) (t_constraints t))) s"
| "exec_ddl (DropColumn n c) s = map_option
     (\<lambda>s'. s'\<lparr>s_indexes := filter (\<lambda>i. \<not> (ix_table i = n \<and> List.member (ix_columns i) c)) (s_indexes s')\<rparr>)
     (on_table n (\<lambda>t. if has_columns (t_columns t) [c] \<and> \<not> column_referenced s n c
        then Some (Table (filter (\<lambda>d. co_name d \<noteq> c) (t_columns t))
                         (filter (\<lambda>k. \<not> ranges_over c k) (t_constraints t)))
        else None) s)"
| "exec_ddl (CreateUnique name n cols) s =
     (if free_name s name then on_table n (\<lambda>t.
        if has_columns (t_columns t) cols then Some (Table (t_columns t) (t_constraints t @ [Unique name cols]))
        else None) s
      else None)"
| "exec_ddl (DropUnique name n) s = on_table n (\<lambda>t.
     if list_ex (\<lambda>k. unique_name k = [name]) (t_constraints t)
     then Some (Table (t_columns t) (filter (\<lambda>k. unique_name k \<noteq> [name]) (t_constraints t))) else None) s"
| "exec_ddl (CreateIndex name n cols uniq) s =
     (case map_of (s_tables s) n of
        None \<Rightarrow> None
      | Some t \<Rightarrow> if free_name s name \<and> has_columns (t_columns t) cols
          then Some (s\<lparr>s_indexes := s_indexes s @ [Index name n cols uniq]\<rparr>) else None)"
| "exec_ddl (DropIndex name n) s =
     (if List.member (map ix_name (s_indexes s)) name
      then Some (s\<lparr>s_indexes := filter (\<lambda>i. ix_name i \<noteq> name) (s_indexes s)\<rparr>) else None)"
| "exec_ddl (BulkInsert n rows) s = (if map_of (s_tables s) n = None then None else Some s)"

fun run_ddl :: "ddl list \<Rightarrow> schema \<Rightarrow> schema option" where
  "run_ddl [] s = Some s"
| "run_ddl (d # ds) s = (case exec_ddl d s of None \<Rightarrow> None | Some s' \<Rightarrow> run_ddl ds s')"

text \<open>The effect on the rows of \<open>model_registry\<close>.\<close>

fun exec_rows :: "ddl \<Rightarrow> registry_table \<Rightarrow> registry_table" where
  "exec_rows (BulkInsert n new) rows = (if n = ''model_registry'' then rows @ new else rows)"
| "exec_rows (DropTable n) rows = (if n = ''model_registry'' then [] else rows)"
| "exec_rows d rows = rows"

section \<open>The migrations\<close>

definition upgrade_0001 :: "ddl list" where
  "upgrade_0001 = [
    CreateTable ''organizations''
      [Column ''id'' (Varchar 36) False None,
       Column ''name'' (Varchar 255) False None,
       Column ''slug'' (Varchar 100) False None,
       Column ''created_at'' TimestampTz False (Some ''CURRENT_TIMESTAMP''),
       Column ''updated_at'' TimestampTz False (Some ''CURRENT_TIMESTAMP'')]
      [PrimaryKey [''id'']],
    CreateUnique ''uq_organizations_slug'' ''organizations'' [''slug''],
    CreateIndex ''ix_organizations_slug'' ''organizations'' [''slug''] True,
    CreateTable ''teams''
      [Column ''id'' (Varchar 36) False None,
       Column ''organization_id'' (Varchar 36) False None,
       Column ''name'' (Varchar 255) False None,
       Column ''slug'' (Varchar 100) False None,
       Column ''created_at'' TimestampTz False (Some ''CURRENT_TIMESTAMP''),
       Column ''updated_at'' TimestampTz False (Some ''CURRENT_TIMESTAMP'')]
      [PrimaryKey [''id''],
       ForeignKey ''fk_teams_organization_id'' [''organization_id''] ''organizations'' [''id''] Cascade],
    CreateUnique ''uq_teams_org_slug'' ''teams'' [''organization_id'', ''slug''],
    CreateIndex ''ix_teams_organization_id'' ''teams'' [''organization_id''] False,
    CreateIndex ''ix_teams_org_slug'' ''teams'' [''organization_id'', ''slug''] False,
    CreateTable ''api_keys''
      [Column ''id'' (Varchar 36) False None,
       Column ''team_id'' (Varchar 36) False None,
       Column ''name'' (Varchar 255) False None,
       Column ''key_prefix'' (Varchar 20) False None,
       Column ''key_hash'' (Varchar 64) False None,
       Column ''role'' (Varchar 20) False (Some ''member''),
       Column ''expires_at'' TimestampTz True None,
       Column ''revoked_at'' TimestampTz True None,
       Column ''created_at'' TimestampTz False (Some ''CURRENT_TIMESTAMP''),
       Column ''last_used_at'' TimestampTz True None]
      [PrimaryKey [''id''],
       ForeignKey ''fk_api_keys_team_id'' [''team_id''] ''teams'' [''id''] Cascade],
    CreateIndex ''ix_api_keys_team_id'' ''api_keys'' [''team_id''] False,
    CreateIndex ''ix_api_keys_key_prefix'' ''api_keys'' [''key_prefix''] False,
    CreateIndex ''ix_api_keys_key_hash'' ''api_keys'' [''key_hash''] False]"

definition downgrade_0001 :: "ddl list" where
  "downgrade_0001 = [
    DropTable ''api_keys'',
    DropTable ''teams'',
    DropTable ''organizations'']"

definition upgrade_0002 :: "ddl list" where
  "upgrade_0002 = [
    CreateTable ''budgets''
      [Column ''id'' (Varchar 36) False None,
       Column ''team_id'' (Varchar 36) False None,
       Column ''limit_amount'' DoublePrecision False None,
       Column ''current_usage'' DoublePrecision False (Some ''0.0''),
       Column ''reserved'' DoublePrecision False (Some ''0.0''),
       Column ''period'' (Varchar 20) False (Some ''monthly''),
       Column ''period_start'' TimestampTz False None,
       Column ''period_end'' TimestampTz False None,
       Column ''policy'' (Varchar 20) False (Some ''BLOCK''),
       Column ''enabled'' BooleanCol False (Some ''true''),
       Column ''created_at'' TimestampTz False (Some ''CURRENT_TIMESTAMP''),
       Column ''updated_at'' TimestampTz False (Some ''CURRENT_TIMESTAMP'')]
      [PrimaryKey [''id''],
       ForeignKey ''fk_budgets_team_id'' [''team_id''] ''teams'' [''id''] Cascade],
    CreateUnique ''uq_budgets_team_id'' ''budgets'' [''team_id''],
    CreateIndex ''ix_budgets_team_id'' ''budgets'' [''team_id''] False,
    CreateIndex ''ix_budgets_period_end'' ''budgets'' [''period_end''] False]"

definition downgrade_0002 :: "ddl list" where
  "downgrade_0002 = [
    DropIndex ''ix_budgets_period_end'' ''budgets'',
    DropIndex ''ix_budgets_team_id'' ''budgets'',
    DropUnique ''uq_budgets_team_id'' ''budgets'',
    DropTable ''budgets'']"

definition upgrade_0003 :: "ddl list" where
  "upgrade_0003 = [
    CreateTable ''team_rate_limits''
      [Column ''id'' (Varchar 36) False None,
       Column ''team_id'' (Varchar 36) False None,
       Column ''requests_per_minute'' IntegerCol True None,
       Column ''requests_per_hour'' IntegerCol True None,
       Column ''created_at'' TimestampTz False (Some ''CURRENT_TIMESTAMP''),
       Column ''updated_at'' TimestampTz False (Some ''CURRENT_TIMESTAMP'')]
      [PrimaryKey [''id''],
       ForeignKey ''fk_team_rate_limits_team_id'' [''team_id''] ''teams'' [''id''] Cascade],
    CreateUnique ''uq_team_rate_limits_team_id'' ''team_rate_limits'' [''team_id''],
    CreateIndex ''ix_team_rate_limits_team_id'' ''team_rate_limits'' [''team_id''] False]"

definition downgrade_0003 :: "ddl list" where
  "downgrade_0003 = [
    DropIndex ''ix_team_rate_limits_team_id'' ''team_rate_limits'',
    DropUnique ''uq_team_rate_limits_team_id'' ''team_rate_limits'',
    DropTable ''team_rate_limits'']"

definition upgrade_0004 :: "ddl list" where
  "upgrade_0004 = [
    CreateTable ''request_logs''
      [Column ''id'' (Varchar 36) False None,
       Column ''request_id'' (Varchar 255) False None,
       Column ''trace_id'' (Varchar 64) True None,
       Column ''organization_id'' (Varchar 36) True None,
       Column ''team_id'' (Varchar 36) True None,
       Column ''provider'' (Varchar 100) True None,
       Column ''model'' (Varchar 255) True None,
       Column ''routing_mode'' (Varchar 50) True None,
       Column ''status'' (Varchar 50) False (Some ''success''),
       Column ''http_status_code'' IntegerCol True None,
       Column ''error_code'' (Varchar 100) True None,
       Column ''latency_ms'' DoublePrecision True None,
       Column ''prompt_tokens'' IntegerCol True None,
       Column ''completion_tokens'' IntegerCol True None,
       Column ''total_tokens'' IntegerCol True None,
       Column ''estimated_cost'' DoublePrecision True None,
       Column ''actual_cost'' DoublePrecision True None,
       Column ''retry_count'' IntegerCol False (Some ''0''),
       Column ''failover_triggered'' BooleanCol False (Some ''false''),
       Column ''failover_from_provider'' (Varchar 100) True None,
       Column ''failover_to_provider'' (Varchar 100) True None,
       Column ''circuit_breaker_state'' (Varchar 20) True None,
       Column ''budget_policy_applied'' (Varchar 20) True None,
       Column ''budget_action'' (Varchar 20) True None,
       Column ''created_at'' TimestampTz False (Some ''CURRENT_TIMESTAMP'')]
      [PrimaryKey [''id''],
       ForeignKey ''fk_request_logs_organization_id'' [''organization_id''] ''organizations'' [''id''] SetNull,
       ForeignKey ''fk_request_logs_team_id'' [''team_id''] ''teams'' [''id''] SetNull],
    CreateIndex ''ix_request_logs_request_id'' ''request_logs'' [''request_id''] False,
    CreateIndex ''ix_request_logs_created_at'' ''request_logs'' [''created_at''] False,
    CreateIndex ''ix_request_logs_team_id'' ''request_logs'' [''team_id''] False,
    CreateIndex ''ix_request_logs_organization_id'' ''request_logs'' [''organization_id''] False,
    CreateIndex ''ix_request_logs_provider'' ''request_logs'' [''provider''] False,
    CreateIndex ''ix_request_logs_model'' ''request_logs'' [''model''] False,
    CreateIndex ''ix_request_logs_status'' ''request_logs'' [''status''] False,
    CreateIndex ''ix_rl_org_created'' ''request_logs'' [''organization_id'', ''created_at''] False,
    CreateIndex ''ix_rl_team_created'' ''request_logs'' [''team_id'', ''created_at''] False,
    CreateIndex ''ix_rl_provider_created'' ''request_logs'' [''provider'', ''created_at''] False]"

definition downgrade_0004 :: "ddl list" where
  "downgrade_0004 = [
    DropIndex ''ix_rl_provider_created'' ''request_logs'',
    DropIndex ''ix_rl_team_created'' ''request_logs'',
    DropIndex ''ix_rl_org_created'' ''request_logs'',
    DropIndex ''ix_request_logs_status'' ''request_logs'',
    DropIndex ''ix_request_logs_model'' ''request_logs'',
    DropIndex ''ix_request_logs_provider'' ''request_logs'',
    DropIndex ''ix_request_logs_organization_id'' ''request_logs'',
    DropIndex ''ix_request_logs_team_id'' ''request_logs'',
    DropIndex ''ix_request_logs_created_at'' ''request_logs'',
    DropIndex ''ix_request_logs_request_id'' ''request_logs'',
    DropTable ''request_logs'']"

definition upgrade_0005 :: "registry_entry list \<Rightarrow> ddl list" where
  "upgrade_0005 rows = [
    CreateTable ''model_registry''
      [Column ''id'' (Varchar 36) False None,
       Column ''provider'' (Varchar 100) False None,
       Column ''model_name'' (Varchar 255) False None,
       Column ''display_name'' (Varchar 255) True None,
       Column ''input_cost_per_1k'' DoublePrecision False (Some ''0.0''),
       Column ''output_cost_per_1k'' DoublePrecision False (Some ''0.0''),
       Column ''capabilities'' Jsonb False (Some ''[]''),
       Column ''context_window'' IntegerCol False (Some ''8192''),
       Column ''baseline_latency_ms'' DoublePrecision False (Some ''500.0''),
       Column ''enabled'' BooleanCol False (Some ''true''),
       Column ''added_at'' TimestampTz False None,
       Column ''updated_at'' TimestampTz False None]
      [PrimaryKey [''id''],
       Unique ''uq_model_registry_provider_model'' [''provider'', ''model_name'']],
    CreateIndex ''ix_model_registry_provider'' ''model_registry'' [''provider''] False,
    CreateIndex ''ix_model_registry_enabled'' ''model_registry'' [''enabled''] False,
    BulkInsert ''model_registry'' rows]"

definition downgrade_0005 :: "ddl list" where
  "downgrade_0005 = [
    DropIndex ''ix_model_registry_enabled'' ''model_registry'',
    DropIndex ''ix_model_registry_provider'' ''model_registry'',
    DropTable ''model_registry'']"

definition upgrade_0006 :: "ddl list" where
  "upgrade_0006 = [
    AddColumn ''request_logs'' (Column ''cache_hit'' BooleanCol False (Some ''false''))]"

definition downgrade_0006 :: "ddl list" where
  "downgrade_0006 = [
    DropColumn ''request_logs'' ''cache_hit'']"

definition upgrade_0007 :: "ddl list" where
  "upgrade_0007 = [
    CreateTable ''team_policies''
      [Column ''id'' (Varchar 36) False None,
       Column ''team_id'' (Varchar 36) False None,
       Column ''policy'' Jsonb False None,
       Column ''enabled'' BooleanCol False (Some ''true''),
       Column ''created_at'' TimestampTz False (Some ''now()''),
       Column ''updated_at'' TimestampTz False (Some ''now()'')]
      [ForeignKey ''fk_team_policies_team_id'' [''team_id''] ''teams'' [''id''] Cascade,
       PrimaryKey [''id''],
       Unique ''uq_team_policies_team_id'' [''team_id'']],
    CreateIndex ''ix_team_policies_team_id'' ''team_policies'' [''team_id''] False]"

definition downgrade_0007 :: "ddl list" where
  "downgrade_0007 = [
    DropIndex ''ix_team_policies_team_id'' ''team_policies'',
    DropTable ''team_policies'']"

definition upgrade_0008 :: "ddl list" where
  "upgrade_0008 = [
    AddColumn ''request_logs'' (Column ''experiment_id'' (Varchar 255) True None),
    AddColumn ''request_logs'' (Column ''experiment_version'' IntegerCol True None),
    AddColumn ''request_logs'' (Column ''experiment_arm'' (Varchar 255) True None),
    CreateIndex ''ix_request_logs_experiment_id'' ''request_logs'' [''experiment_id''] False]"

definition downgrade_0008 :: "ddl list" where
  "downgrade_0008 = [
    DropIndex ''ix_request_logs_experiment_id'' ''request_logs'',
    DropColumn ''request_logs'' ''experiment_arm'',
    DropColumn ''request_logs'' ''experiment_version'',
    DropColumn ''request_logs'' ''experiment_id'']"

definition upgrade_0009 :: "ddl list" where
  "upgrade_0009 = [
    AddColumn ''request_logs'' (Column ''guardrails_triggered'' (Varchar 500) True None),
    AddColumn ''request_logs'' (Column ''guardrail_action'' (Varchar 20) True None),
    CreateIndex ''ix_request_logs_guardrail_action'' ''request_logs'' [''guardrail_action''] False]"

definition downgrade_0009 :: "ddl list" where
  "downgrade_0009 = [
    DropIndex ''ix_request_logs_guardrail_action'' ''request_logs'',
    DropColumn ''request_logs'' ''guardrail_action'',
    DropColumn ''request_logs'' ''guardrails_triggered'']"

section \<open>Seeded models\<close>

definition seed ::
  "string \<Rightarrow> string \<Rightarrow> string \<Rightarrow> real \<Rightarrow> real \<Rightarrow> string list \<Rightarrow> int \<Rightarrow> real \<Rightarrow> bool \<Rightarrow> string \<Rightarrow> registry_entry" where
  "seed p m name in_cost out_cost caps window latency on i =
     \<lparr>e_id = i, e_provider = p, e_model_name = m, e_display_name = Some name, e_input_cost_per_1k = in_cost,
      e_output_cost_per_1k = out_cost, e_capabilities = Some caps, e_context_window = window,
      e_baseline_latency_ms = latency, e_enabled = on\<rparr>"

definition gemini_seeds :: "(string \<Rightarrow> registry_entry) list" where
  "gemini_seeds = [
     seed ''gemini'' ''gemini-1.5-flash'' ''Gemini 1.5 Flash'' (3 / 40000) (3 / 10000)
       [''text'', ''vision'', ''json'', ''code''] 1000000 450 True,
     seed ''gemini'' ''gemini-1.5-pro'' ''Gemini 1.5 Pro'' (1 / 800) (1 / 200)
       [''text'', ''vision'', ''json'', ''code'', ''complex_reasoning''] 2000000 900 True,
     seed ''gemini'' ''gemini-2.0-flash'' ''Gemini 2.0 Flash'' (1 / 10000) (1 / 2500)
       [''text'', ''vision'', ''json'', ''code'', ''tools''] 1000000 350 True,
     seed ''gemini'' ''gemini-2.5-flash'' ''Gemini 2.5 Flash'' (1 / 10000) (1 / 2500)
       [''text'', ''vision'', ''json'', ''code'', ''tools''] 1000000 350 True]"

definition groq_seeds :: "(string \<Rightarrow> registry_entry) list" where
  "groq_seeds = [
     seed ''groq'' ''llama-3.3-70b-versatile'' ''LLaMA 3.3 70B Versatile'' (59 / 100000) (79 / 100000)
       [''text'', ''json'', ''code'', ''tools''] 128000 180 True,
     seed ''groq'' ''llama-3.1-8b-instant'' ''LLaMA 3.1 8B Instant'' (1 / 20000) (1 / 12500)
       [''text'', ''json'', ''code''] 128000 90 True,
     seed ''groq'' ''llama3-8b-8192'' ''LLaMA3 8B 8192'' (1 / 20000) (1 / 12500)
       [''text'', ''json'', ''code''] 8192 100 True,
     seed ''groq'' ''llama3-70b-8192'' ''LLaMA3 70B 8192'' (59 / 100000) (79 / 100000)
       [''text'', ''json'', ''code'', ''tools''] 8192 220 True,
     seed ''groq'' ''mixtral-8x7b-32768'' ''Mixtral 8x7B 32768'' (3 / 12500) (3 / 12500)
       [''text'', ''json'', ''code''] 32768 150 True,
     seed ''groq'' ''gemma2-9b-it'' ''Gemma2 9B Instruct'' (1 / 10000) (1 / 10000)
       [''text'', ''code''] 8192 130 True]"

definition ollama_seeds :: "(string \<Rightarrow> registry_entry) list" where
  "ollama_seeds = [
     seed ''ollama'' ''llama3.2'' ''LLaMA 3.2'' 0 0
       [''text'', ''json'', ''code''] 8192 300 True,
     seed ''ollama'' ''llama3.2:latest'' ''LLaMA 3.2 (latest tag)'' 0 0
       [''text'', ''json'', ''code''] 8192 300 True,
     seed ''ollama'' ''llama3.2-vision'' ''LLaMA 3.2 Vision'' 0 0
       [''text'', ''vision'', ''code''] 8192 450 True,
     seed ''ollama'' ''qwen2.5'' ''Qwen 2.5'' 0 0
       [''text'', ''json'', ''code''] 32768 280 True,
     seed ''ollama'' ''qwen2.5:latest'' ''Qwen 2.5 (latest tag)'' 0 0
       [''text'', ''json'', ''code''] 32768 280 True]"

text \<open>The rows the upgrade inserts, with the identifiers drawn when the module was loaded.\<close>

definition seed_rows :: "string list \<Rightarrow> registry_table" where
  "seed_rows ids = map2 (\<lambda>s i. s i) (gemini_seeds @ groq_seeds @ ollama_seeds) ids"

section \<open>Revisions\<close>

datatype revision = Revision (rv_id: string) (rv_down: "string option") (rv_upgrade: "ddl list") (rv_downgrade: "ddl list")

definition revisions :: "registry_entry list \<Rightarrow> revision list" where
  "revisions rows = [
    Revision ''0001'' None upgrade_0001 downgrade_0001,
    Revision ''0002'' (Some ''0001'') upgrade_0002 downgrade_0002,
    Revision ''0003'' (Some ''0002'') upgrade_0003 downgrade_0003,
    Revision ''0004'' (Some ''0003'') upgrade_0004 downgrade_0004,
    Revision ''0005'' (Some ''0004'') (upgrade_0005 rows) downgrade_0005,
    Revision ''0006_phase9b_semantic_cache'' (Some ''0005'') upgrade_0006 downgrade_0006,
    Revision ''0007_phase9c_team_policies'' (Some ''0006_phase9b_semantic_cache'') upgrade_0007 downgrade_0007,
    Revision ''0008_phase9d_experiment_log'' (Some ''0007_phase9c_team_policies'') upgrade_0008 downgrade_0008,
    Revision ''0009_phase9e_guardrail_log'' (Some ''0008_phase9d_experiment_log'') upgrade_0009 downgrade_0009]"

section \<open>The ORM classes\<close>

text \<open>
  A mapped class: its columns with type and nullability, its primary key, its foreign keys, the column
  sets declared unique, and its indexes (an \<open>index=True\<close> column has one of the default name).
\<close>

record orm_table =
  ot_name :: string
  ot_columns :: "(string \<times> col_type \<times> bool) list"
  ot_primary_key :: "string list"
  ot_foreign_keys :: "(string \<times> string \<times> string \<times> on_delete) list"
  ot_unique :: "string list list"
  ot_indexes :: "(string \<times> string list) list"

definition organizations_orm :: orm_table where
  "organizations_orm = \<lparr>ot_name = ''organizations'',
     ot_columns = [
       (''id'', Varchar 36, False),
       (''name'', Varchar 255, False),
       (''slug'', Varchar 100, False),
       (''created_at'', TimestampTz, False),
       (''updated_at'', TimestampTz, False)],
     ot_primary_key = [''id''],
     ot_foreign_keys = [],
     ot_unique = [[''slug'']],
     ot_indexes = [
       (''ix_organizations_slug'', [''slug''])]\<rparr>"

definition teams_orm :: orm_table where
  "teams_orm = \<lparr>ot_name = ''teams'',
     ot_columns = [
       (''id'', Varchar 36, False),
       (''organization_id'', Varchar 36, False),
       (''name'', Varchar 255, False),
       (''slug'', Varchar 100, False),
       (''created_at'', TimestampTz, False),
       (''updated_at'', TimestampTz, False)],
     ot_primary_key = [''id''],
     ot_foreign_keys = [(''organization_id'', ''organizations'', ''id'', Cascade)],
     ot_unique = [[''organization_id'', ''slug'']],
     ot_indexes = [
       (''ix_teams_organization_id'', [''organization_id'']),
       (''ix_teams_org_slug'', [''organization_id'', ''slug''])]\<rparr>"

definition api_keys_orm :: orm_table where
  "api_keys_orm = \<lparr>ot_name = ''api_keys'',
     ot_columns = [
       (''id'', Varchar 36, False),
       (''team_id'', Varchar 36, False),
       (''name'', Varchar 255, False),
       (''key_prefix'', Varchar 20, False),
       (''key_hash'', Varchar 64, False),
       (''role'', Varchar 20, False),
       (''expires_at'', TimestampTz, True),
       (''revoked_at'', TimestampTz, True),
       (''created_at'', TimestampTz, False),
       (''last_used_at'', TimestampTz, True)],
     ot_primary_key = [''id''],
     ot_foreign_keys = [(''team_id'', ''teams'', ''id'', Cascade)],
     ot_unique = [],
     ot_indexes = [
       (''ix_api_keys_team_id'', [''team_id'']),
       (''ix_api_keys_key_prefix'', [''key_prefix'']),
       (''ix_api_keys_key_hash'', [''key_hash''])]\<rparr>"

definition budgets_orm :: orm_table where
  "budgets_orm = \<lparr>ot_name = ''budgets'',
     ot_columns = [
       (''id'', Varchar 36, False),
       (''team_id'', Varchar 36, False),
       (''limit_amount'', DoublePrecision, False),
       (''current_usage'', DoublePrecision, False),
       (''reserved'', DoublePrecision, False),
       (''period'', Varchar 20, False),
       (''period_start'', TimestampTz, False),
       (''period_end'', TimestampTz, False),
       (''policy'', Varchar 20, False),
       (''enabled'', BooleanCol, False),
       (''created_at'', TimestampTz, False),
       (''updated_at'', TimestampTz, False)],
     ot_primary_key = [''id''],
     ot_foreign_keys = [(''team_id'', ''teams'', ''id'', Cascade)],
     ot_unique = [[''team_id'']],
     ot_indexes = [
       (''ix_budgets_team_id'', [''team_id'']),
       (''ix_budgets_period_end'', [''period_end''])]\<rparr>"

definition team_rate_limits_orm :: orm_table where
  "team_rate_limits_orm = \<lparr>ot_name = ''team_rate_limits'',
     ot_columns = [
       (''id'', Varchar 36, False),
       (''team_id'', Varchar 36, False),
       (''requests_per_minute'', IntegerCol, True),
       (''requests_per_hour'', IntegerCol, True),
       (''created_at'', TimestampTz, False),
       (''updated_at'', TimestampTz, False)],
     ot_primary_key = [''id''],
     ot_foreign_keys = [(''team_id'', ''teams'', ''id'', Cascade)],
     ot_unique = [[''team_id'']],
     ot_indexes = [
       (''ix_team_rate_limits_team_id'', [''team_id''])]\<rparr>"

definition request_logs_orm :: orm_table where
  "request_logs_orm = \<lparr>ot_name = ''request_logs'',
     ot_columns = [
       (''id'', Varchar 36, False),
       (''request_id'', Varchar 255, False),
       (''trace_id'', Varchar 64, True),
       (''organization_id'', Varchar 36, True),
       (''team_id'', Varchar 36, True),
       (''provider'', Varchar 100, True),
       (''model'', Varchar 255, True),
       (''routing_mode'', Varchar 50, True),
       (''status'', Varchar 50, False),
       (''http_status_code'', IntegerCol, True),
       (''error_code'', Varchar 100, True),
       (''latency_ms'', DoublePrecision, True),
       (''prompt_tokens'', IntegerCol, True),
       (''completion_tokens'', IntegerCol, True),
       (''total_tokens'', IntegerCol, True),
       (''estimated_cost'', DoublePrecision, True),
       (''actual_cost'', DoublePrecision, True),
       (''retry_count'', IntegerCol, False),
       (''failover_triggered'', BooleanCol, False),
       (''failover_from_provider'', Varchar 100, True),
       (''failover_to_provider'', Varchar 100, True),
       (''circuit_breaker_state'', Varchar 20, True),
       (''budget_policy_applied'', Varchar 20, True),
       (''budget_action'', Varchar 20, True),
       (''cache_hit'', BooleanCol, False),
       (''experiment_id'', Varchar 255, True),
       (''experiment_version'', IntegerCol, True),
       (''experiment_arm'', Varchar 255, True),
       (''guardrails_triggered'', Varchar 500, True),
       (''guardrail_action'', Varchar 20, True),
       (''created_at'', TimestampTz, False)],
     ot_primary_key = [''id''],
     ot_foreign_keys = [(''organization_id'', ''organizations'', ''id'', SetNull), (''team_id'', ''teams'', ''id'', SetNull)],
     ot_unique = [],
     ot_indexes = [
       (''ix_request_logs_request_id'', [''request_id'']),
       (''ix_request_logs_created_at'', [''created_at'']),
       (''ix_request_logs_team_id'', [''team_id'']),
       (''ix_request_logs_organization_id'', [''organization_id'']),
       (''ix_request_logs_provider'', [''provider'']),
       (''ix_request_logs_model'', [''model'']),
       (''ix_request_logs_status'', [''status'']),
       (''ix_rl_org_created'', [''organization_id'', ''created_at'']),
       (''ix_rl_team_created'', [''team_id'', ''created_at'']),
       (''ix_rl_provider_created'', [''provider'', ''created_at''])]\<rparr>"

definition model_registry_orm :: orm_table where
  "model_registry_orm = \<lparr>ot_name = ''model_registry'',
     ot_columns = [
       (''id'', Varchar 36, False),
       (''provider'', Varchar 100, False),
       (''model_name'', Varchar 255, False),
       (''display_name'', Varchar 255, True),
       (''input_cost_per_1k'', DoublePrecision, False),
       (''output_cost_per_1k'', DoublePrecision, False),
       (''capabilities'', Jsonb, False),
       (''context_window'', IntegerCol, False),
       (''baseline_latency_ms'', DoublePrecision, False),
       (''enabled'', BooleanCol, False),
       (''added_at'', TimestampTz, False),
       (''updated_at'', TimestampTz, False)],
     ot_primary_key = [''id''],
     ot_foreign_keys = [],
     ot_unique = [[''provider'', ''model_name'']],
     ot_indexes = [
       (''ix_model_registry_provider'', [''provider'']),
       (''ix_model_registry_enabled'', [''enabled'']),
       (''ix_model_registry_provider'', [''provider'']),
       (''ix_model_registry_enabled'', [''enabled''])]\<rparr>"

definition team_policies_orm :: orm_table where
  "team_policies_orm = \<lparr>ot_name = ''team_policies'',
     ot_columns = [
       (''id'', Varchar 36, False),
       (''team_id'', Varchar 36, False),
       (''policy'', Jsonb, False),
       (''enabled'', BooleanCol, False),
       (''created_at'', TimestampTz, False),
       (''updated_at'', TimestampTz, False)],
     ot_primary_key = [''id''],
     ot_foreign_keys = [(''team_id'', ''teams'', ''id'', Cascade)],
     ot_unique = [[''team_id'']],
     ot_indexes = [
       (''ix_team_policies_team_id'', [''team_id''])]\<rparr>"

definition orm_tables :: "orm_table list" where
  "orm_tables = [organizations_orm, teams_orm, api_keys_orm, budgets_orm, team_rate_limits_orm,
     request_logs_orm, model_registry_orm, team_policies_orm]"

text \<open>The tables whose module \<open>alembic/env.py\<close> imports, directly or through another.\<close>

definition target_metadata :: "orm_table list" where
  "target_metadata = [organizations_orm, teams_orm, api_keys_orm, request_logs_orm, model_registry_orm,
     team_policies_orm]"

section \<open>Moving along the revisions\<close>

text \<open>
  A database under Alembic: the revision its version table names, the schema, the rows of the model
  table. One step runs the upgrade of the revision that follows, or the downgrade of the current one,
  or is the running gateway changing rows (the schema is not its to change).
\<close>

record database =
  d_revision :: "string option"
  d_schema :: schema
  d_rows :: registry_table

definition new_database :: database where
  "new_database = \<lparr>d_revision = None, d_schema = empty_schema, d_rows = []\<rparr>"

inductive alembic :: "database \<Rightarrow> database \<Rightarrow> bool" where
  upgrade: "r \<in> set (revisions (seed_rows ids)) \<Longrightarrow> rv_down r = d_revision db \<Longrightarrow>
    run_ddl (rv_upgrade r) (d_schema db) = Some s \<Longrightarrow>
    alembic db \<lparr>d_revision = Some (rv_id r), d_schema = s, d_rows = fold exec_rows (rv_upgrade r) (d_rows db)\<rparr>"
| downgrade: "r \<in> set (revisions []) \<Longrightarrow> d_revision db = Some (rv_id r) \<Longrightarrow>
    run_ddl (rv_downgrade r) (d_schema db) = Some s \<Longrightarrow>
    alembic db \<lparr>d_revision = rv_down r, d_schema = s, d_rows = fold exec_rows (rv_downgrade r) (d_rows db)\<rparr>"
| gateway: "map_of (s_tables (d_schema db)) ''model_registry'' \<noteq> None \<Longrightarrow> alembic db (db\<lparr>d_rows := rows\<rparr>)"

definition revision_at :: "nat \<Rightarrow> string option" where
  "revision_at k = (if k = 0 then None else Some (rv_id (revisions [] ! (k - 1))))"

definition schema_after :: "nat \<Rightarrow> schema option" where
  "schema_after k = run_ddl (concat (map rv_upgrade (take k (revisions [])))) empty_schema"

lemma run_ddl_append: "run_ddl (ds @ es) s = (case run_ddl ds s of None \<Rightarrow> None | Some s' \<Rightarrow> run_ddl es s')"
  by (induction ds arbitrary: s) (auto split: option.splits)

lemma run_insert_rows:
  "run_ddl (upgrade_0005 rows) s = run_ddl (upgrade_0005 []) s"
  by (simp add: upgrade_0005_def split: option.splits)

lemma revisions_length: "length (revisions rows) = 9"
  by (simp add: revisions_def)

lemma revision_ids: "map rv_id (revisions rows) = map rv_id (revisions [])"
  by (simp add: revisions_def)

text \<open>The links form one chain, in the order of the files.\<close>

lemma revision_chain: "map rv_down (revisions rows) = map revision_at [0..<9]"
  by (simp add: revisions_def revision_at_def upt_rec)

lemma revision_ids_distinct: "distinct (map rv_id (revisions rows))"
  by (simp add: revisions_def)

lemma revision_down: "k < 9 \<Longrightarrow> rv_down (revisions rows ! k) = revision_at k"
  using revision_chain [of rows] revisions_length [of rows]
  by (metis (no_types) add_0 diff_zero length_upt nth_map nth_upt)

lemma revision_at_Suc: "k < 9 \<Longrightarrow> revision_at (Suc k) = Some (rv_id (revisions rows ! k))"
  by (metis (no_types) diff_Suc_1 nat.distinct(1) nth_map revision_at_def revision_ids revisions_length)

lemma revision_at_inj: "j \<le> 9 \<Longrightarrow> k \<le> 9 \<Longrightarrow> revision_at j = revision_at k \<longleftrightarrow> j = k"
proof -
  assume le: "j \<le> 9" "k \<le> 9"
  have "j = k" if eq: "revision_at j = revision_at k"
  proof (cases j)
    case 0
    then show ?thesis using eq by (auto simp: revision_at_def split: if_splits)
  next
    case (Suc i)
    then obtain l where l: "k = Suc l" using eq by (cases k) (auto simp: revision_at_def)
    then have "map rv_id (revisions []) ! i = map rv_id (revisions []) ! l"
      using eq Suc le by (simp add: revision_at_def revisions_length)
    then have "i = l"
      using Suc l le by (subst (asm) nth_eq_iff_index_eq [OF revision_ids_distinct]) (simp_all add: revisions_length)
    then show ?thesis using Suc l by simp
  qed
  then show ?thesis by blast
qed

lemma upgrades_same:
  "map (\<lambda>r. run_ddl (rv_upgrade r)) (revisions rows) = map (\<lambda>r. run_ddl (rv_upgrade r)) (revisions [])"
  unfolding revisions_def by (simp add: fun_eq_iff run_insert_rows [of rows])

lemma upgrade_schema:
  "k < 9 \<Longrightarrow> run_ddl (rv_upgrade (revisions rows ! k)) = run_ddl (rv_upgrade (revisions [] ! k))"
  using arg_cong [OF upgrades_same, of "\<lambda>fs. fs ! k" rows] by (simp add: revisions_length)

lemma downgrade_same:
  "k < 9 \<Longrightarrow> rv_downgrade (revisions rows ! k) = rv_downgrade (revisions [] ! k)"
proof -
  have "map rv_downgrade (revisions rows) = map rv_downgrade (revisions [])" by (simp add: revisions_def)
  then show "k < 9 \<Longrightarrow> ?thesis" by (metis nth_map revisions_length)
qed

lemma schema_after_Suc:
  "k < 9 \<Longrightarrow> schema_after (Suc k) = (case schema_after k of None \<Rightarrow> None
     | Some s \<Rightarrow> run_ddl (rv_upgrade (revisions [] ! k)) s)"
  by (simp add: schema_after_def take_Suc_conv_app_nth revisions_length run_ddl_append)

text \<open>Every revision in turn applies, and its downgrade leads back; the result is the head schema.\<close>

fun walk :: "schema \<Rightarrow> revision list \<Rightarrow> schema option" where
  "walk s [] = Some s"
| "walk s (r # rs) = (case run_ddl (rv_upgrade r) s of
     None \<Rightarrow> None
   | Some s' \<Rightarrow> if run_ddl (rv_downgrade r) s' = Some s then walk s' rs else None)"

section \<open>Schema and ORM classes compared\<close>

definition same_elements :: "'a list \<Rightarrow> 'a list \<Rightarrow> bool" where
  "same_elements xs ys = (list_all (List.member ys) xs \<and> list_all (List.member xs) ys)"

lemma same_elements_iff: "same_elements xs ys \<longleftrightarrow> set xs = set ys"
  by (auto simp: same_elements_def list_all_iff)

definition foreign_keys :: "db_table \<Rightarrow> (string \<times> string \<times> string \<times> on_delete) list" where
  "foreign_keys t = List.map_filter (\<lambda>k. case k of
     ForeignKey n [c] target [key] od \<Rightarrow> Some (c, target, key, od) | _ \<Rightarrow> None) (t_constraints t)"

definition unique_sets :: "db_table \<Rightarrow> string list list" where
  "unique_sets t = List.map_filter (\<lambda>k. case k of Unique n cols \<Rightarrow> Some cols | _ \<Rightarrow> None) (t_constraints t)"

text \<open>The same keys with the same values, in any order\<close>

definition same_map :: "('a \<times> 'b) list \<Rightarrow> ('a \<times> 'b) list \<Rightarrow> bool" where
  "same_map xs ys = (list_all (\<lambda>(k, v). map_of ys k = Some v) xs \<and> list_all (\<lambda>(k, v). map_of xs k = Some v) ys)"

lemma same_map_iff: "same_map xs ys \<Longrightarrow> map_of xs = map_of ys"
proof
  fix k assume "same_map xs ys"
  then have "\<And>v. (k, v) \<in> set xs \<Longrightarrow> map_of ys k = Some v" "\<And>v. (k, v) \<in> set ys \<Longrightarrow> map_of xs k = Some v"
    by (auto simp: same_map_def list_all_iff)
  then show "map_of xs k = map_of ys k"
    by (metis map_of_SomeD not_None_eq)
qed

definition column_types :: "db_table \<Rightarrow> (string \<times> col_type \<times> bool) list" where
  "column_types t = map (\<lambda>c. (co_name c, co_type c, co_nullable c)) (t_columns t)"

definition agrees :: "schema \<Rightarrow> orm_table \<Rightarrow> bool" where
  "agrees s m = (case map_of (s_tables s) (ot_name m) of
     None \<Rightarrow> False
   | Some t \<Rightarrow> same_map (column_types t) (ot_columns m) \<and>
       List.member (t_constraints t) (PrimaryKey (ot_primary_key m)) \<and>
       same_elements (foreign_keys t) (ot_foreign_keys m) \<and>
       same_elements (unique_sets t) (ot_unique m) \<and>
       list_all (\<lambda>(n, cols). list_ex (\<lambda>i. ix_name i = n \<and> ix_table i = ot_name m \<and> ix_columns i = cols)
         (s_indexes s)) (ot_indexes m))"

definition outside :: "schema \<Rightarrow> orm_table list \<Rightarrow> string list" where
  "outside s ms = filter (\<lambda>n. \<not> List.member (map ot_name ms) n) (map fst (s_tables s))"

definition upgrades :: "nat \<Rightarrow> nat \<Rightarrow> ddl list" where
  "upgrades a b = concat (map rv_upgrade (take b (drop a (revisions []))))"

text \<open>The evaluations, in parts of less than a minute.\<close>

lemma walk_first: "walk empty_schema (take 4 (revisions [])) \<noteq> None"
  by code_simp

lemma walk_rest:
  "case run_ddl (upgrades 0 4) empty_schema of None \<Rightarrow> False | Some s \<Rightarrow> walk s (drop 4 (revisions [])) \<noteq> None"
  by code_simp

lemma agrees_first:
  "case run_ddl (upgrades 0 9) empty_schema of None \<Rightarrow> False
   | Some s \<Rightarrow> list_all (agrees s) (take 5 orm_tables) \<and> outside s orm_tables = [] \<and>
       outside s target_metadata = [''budgets'', ''team_rate_limits'']"
  by code_simp

lemma agrees_rest:
  "case run_ddl (upgrades 0 9) empty_schema of None \<Rightarrow> False | Some s \<Rightarrow> list_all (agrees s) (drop 5 orm_tables)"
  by code_simp

lemma walk_append: "walk s (rs @ rs') = (case walk s rs of None \<Rightarrow> None | Some s' \<Rightarrow> walk s' rs')"
  by (induction rs arbitrary: s) (auto split: option.splits)

lemma walk_upgrades: "walk s rs = Some s' \<Longrightarrow> run_ddl (concat (map rv_upgrade rs)) s = Some s'"
  by (induction rs arbitrary: s) (auto simp: run_ddl_append split: option.splits if_splits)

lemma head_evaluated:
  obtains h where "walk empty_schema (revisions []) = Some h" "list_all (agrees h) orm_tables"
    "outside h orm_tables = []" "outside h target_metadata = [''budgets'', ''team_rate_limits'']"
proof -
  obtain s where s: "walk empty_schema (take 4 (revisions [])) = Some s"
    using walk_first by auto
  have "run_ddl (upgrades 0 4) empty_schema = Some s"
    using walk_upgrades [OF s] by (simp add: upgrades_def)
  then obtain h where "walk s (drop 4 (revisions [])) = Some h"
    using walk_rest by auto
  then have h: "walk empty_schema (revisions []) = Some h"
    using s walk_append [of empty_schema "take 4 (revisions [])" "drop 4 (revisions [])"] by simp
  have run: "run_ddl (upgrades 0 9) empty_schema = Some h"
    using walk_upgrades [OF h] by (simp add: upgrades_def revisions_length)
  have "list_all (agrees h) (take 5 orm_tables @ drop 5 orm_tables)"
    using agrees_first agrees_rest unfolding list_all_append run by simp
  then show thesis
    using that [OF h] agrees_first by (simp add: run)
qed

lemma walk_take:
  assumes "walk (the (schema_after k)) (drop k (revisions [])) = Some h" "schema_after k \<noteq> None" "k + n \<le> 9"
  shows "schema_after (k + n) \<noteq> None \<and>
    walk (the (schema_after (k + n))) (drop (k + n) (revisions [])) = Some h"
  using assms
proof (induction n)
  case (Suc n)
  let ?j = "k + n"
  have "drop ?j (revisions []) = revisions [] ! ?j # drop (Suc ?j) (revisions [])"
    using Suc.prems(3) by (simp add: Cons_nth_drop_Suc revisions_length)
  then show ?case
    using Suc schema_after_Suc [of ?j] by (auto split: option.splits if_splits)
qed simp

lemma head_schema: "\<exists>h. walk empty_schema (revisions []) = Some h \<and> schema_after 9 = Some h"
proof -
  obtain h where h: "walk empty_schema (revisions []) = Some h"
    using head_evaluated by blast
  then show ?thesis
    using walk_take [of 0 h 9] by (auto simp: schema_after_def revisions_length)
qed

lemma step_reversible:
  assumes "k < 9"
  obtains s s' where "schema_after k = Some s" "schema_after (Suc k) = Some s'"
    "run_ddl (rv_upgrade (revisions rows ! k)) s = Some s'" "run_ddl (rv_downgrade (revisions rows ! k)) s' = Some s"
proof -
  obtain h where h: "walk empty_schema (revisions []) = Some h" using head_schema by blast
  then have w: "schema_after k \<noteq> None" "walk (the (schema_after k)) (drop k (revisions [])) = Some h"
    using walk_take [of 0 h k] assms by (auto simp: schema_after_def)
  obtain s where s: "schema_after k = Some s" using w by auto
  have "drop k (revisions []) = revisions [] ! k # drop (Suc k) (revisions [])"
    using assms by (simp add: Cons_nth_drop_Suc revisions_length)
  then obtain s' where "run_ddl (rv_upgrade (revisions [] ! k)) s = Some s'"
    "run_ddl (rv_downgrade (revisions [] ! k)) s' = Some s"
    using w s by (auto split: option.splits if_splits)
  then show thesis
    using that s schema_after_Suc [of k] assms upgrade_schema [of k rows] downgrade_same [of k rows] by simp
qed

lemma revision_point:
  assumes "alembic\<^sup>*\<^sup>* new_database db"
  shows "\<exists>k \<le> 9. d_revision db = revision_at k \<and> schema_after k = Some (d_schema db)"
  using assms
proof (induction rule: rtranclp_induct)
  case base
  show ?case by (rule exI [of _ 0]) (simp add: new_database_def revision_at_def schema_after_def)
next
  case (step db db')
  then obtain k where k: "k \<le> 9" "d_revision db = revision_at k" "schema_after k = Some (d_schema db)"
    by blast
  from step.hyps(2) show ?case
  proof cases
    case (upgrade r ids s)
    then obtain j where j: "j < 9" "r = revisions (seed_rows ids) ! j"
      by (metis in_set_conv_nth revisions_length)
    then have "j = k" using upgrade k revision_down revision_at_inj by auto
    then have "revision_at (Suc k) = Some (rv_id r)" "schema_after (Suc k) = Some s"
      using upgrade j k schema_after_Suc [of k] upgrade_schema [of k "seed_rows ids"]
        revision_at_Suc [of k "seed_rows ids"] by simp_all
    then show ?thesis using upgrade(1) j(1) \<open>j = k\<close> by (intro exI [of _ "Suc k"]) simp
  next
    case (downgrade r s)
    then obtain j where j: "j < 9" "r = revisions [] ! j"
      by (metis in_set_conv_nth revisions_length)
    then have "Suc j = k"
      using downgrade k revision_at_Suc [of j "[]"] revision_at_inj [of "Suc j" k] by auto
    moreover obtain s0 where "schema_after j = Some s0"
      "run_ddl (rv_downgrade r) (d_schema db) = Some s0"
      using step_reversible [OF j(1), of "[]"] k \<open>Suc j = k\<close> j(2) by (metis option.inject)
    moreover have "rv_down r = revision_at j" using j revision_down by simp
    ultimately show ?thesis
      using downgrade j(1) by (intro exI [of _ j]) simp
  next
    case (gateway rows)
    then show ?thesis using k by auto
  qed
qed

section \<open>Properties\<close>

text \<open>
  Every migration is undone by its downgrade. From the schema the first \<open>k\<close> upgrades build, the
  next upgrade applies without an error, and its downgrade restores exactly that schema: tables,
  columns, constraints and indexes.
\<close>

theorem migrations_reversible:
  assumes "k < 9"
  shows "\<exists>s s'. schema_after k = Some s \<and> run_ddl (rv_upgrade (revisions rows ! k)) s = Some s' \<and>
    schema_after (Suc k) = Some s' \<and> run_ddl (rv_downgrade (revisions rows ! k)) s' = Some s"
  using step_reversible [OF assms] by metis

theorem migrations_reversible_witness:
  "schema_after 8 \<noteq> None \<and> schema_after 9 \<noteq> None"
  using migrations_reversible [of 8 "[]"] by auto




end
