(* ===== verification/Regex.thy ===== *)
theory Regex
  imports Prelude
begin

text \<open>
  The part of Python's \<open>re\<close> the guardrails use: character classes, sequences, alternatives, unbounded
  repetition of a class, word boundaries and one-character lookaround. A position in the text is the
  character before it and the text after it; \<open>ends\<close> lists all positions at which a match from a
  position can end. \<open>search\<close> says whether some position has a match; which match a backtracking engine
  returns is not observed by the code.
\<close>

datatype regex =
    Eps
  | Cls "char \<Rightarrow> bool"
  | Seq regex regex
  | Alt regex regex
  | Star "char \<Rightarrow> bool"
  | NotBehind "char \<Rightarrow> bool"
  | NotAhead "char \<Rightarrow> bool"
  | Boundary

type_synonym position = "char option \<times> string"

fun star_ends :: "(char \<Rightarrow> bool) \<Rightarrow> char option \<Rightarrow> string \<Rightarrow> position list" where
  "star_ends P p [] = [(p, [])]"
| "star_ends P p (c # cs) = (p, c # cs) # (if P c then star_ends P (Some c) cs else [])"

definition before :: "(char \<Rightarrow> bool) \<Rightarrow> position \<Rightarrow> bool" where
  "before P pos = (case fst pos of None \<Rightarrow> False | Some c \<Rightarrow> P c)"

definition after :: "(char \<Rightarrow> bool) \<Rightarrow> position \<Rightarrow> bool" where
  "after P pos = (case snd pos of [] \<Rightarrow> False | c # cs \<Rightarrow> P c)"

definition is_digit :: "char \<Rightarrow> bool" where
  "is_digit c = (let n = (of_char c :: nat) in 48 \<le> n \<and> n \<le> 57)"

definition is_alpha :: "char \<Rightarrow> bool" where
  "is_alpha c = (let n = (of_char c :: nat) in 65 \<le> n \<and> n \<le> 90 \<or> 97 \<le> n \<and> n \<le> 122)"

definition is_word :: "char \<Rightarrow> bool" where
  "is_word c = (is_digit c \<or> is_alpha c \<or> c = CHR ''_'')"

fun ends :: "regex \<Rightarrow> position \<Rightarrow> position list" where
  "ends Eps pos = [pos]"
| "ends (Cls P) pos = (case snd pos of [] \<Rightarrow> [] | c # cs \<Rightarrow> if P c then [(Some c, cs)] else [])"
| "ends (Seq r s) pos = concat (map (ends s) (ends r pos))"
| "ends (Alt r s) pos = ends r pos @ ends s pos"
| "ends (Star P) pos = star_ends P (fst pos) (snd pos)"
| "ends (NotBehind P) pos = (if before P pos then [] else [pos])"
| "ends (NotAhead P) pos = (if after P pos then [] else [pos])"
| "ends Boundary pos = (if before is_word pos \<noteq> after is_word pos then [pos] else [])"

fun search_from :: "regex \<Rightarrow> char option \<Rightarrow> string \<Rightarrow> bool" where
  "search_from r p [] = (ends r (p, []) \<noteq> [])"
| "search_from r p (c # cs) = (ends r (p, c # cs) \<noteq> [] \<or> search_from r (Some c) cs)"

definition search :: "regex \<Rightarrow> string \<Rightarrow> bool" where
  "search r s = search_from r None s"

section \<open>Derived forms\<close>

fun seqs :: "regex list \<Rightarrow> regex" where
  "seqs [] = Eps"
| "seqs (r # rs) = Seq r (seqs rs)"

definition opt :: "regex \<Rightarrow> regex" where
  "opt r = Alt r Eps"

definition plus1 :: "(char \<Rightarrow> bool) \<Rightarrow> regex" where
  "plus1 P = Seq (Cls P) (Star P)"

definition times_re :: "nat \<Rightarrow> regex \<Rightarrow> regex" where
  "times_re n r = seqs (replicate n r)"

text \<open>\<open>r{1,n}\<close> as up to \<open>n - 1\<close> optional copies after the first\<close>

fun upto_re :: "nat \<Rightarrow> regex \<Rightarrow> regex" where
  "upto_re 0 r = Eps"
| "upto_re (Suc n) r = opt (Seq r (upto_re n r))"

definition lit :: "char \<Rightarrow> regex" where
  "lit c = Cls (\<lambda>x. x = c)"

text \<open>A word under \<open>IGNORECASE\<close>\<close>

definition word_i :: "string \<Rightarrow> regex" where
  "word_i w = seqs (map (\<lambda>c. Cls (\<lambda>x. lower_char x = lower_char c)) w)"

section \<open>Facts\<close>

definition final_char :: "char option \<Rightarrow> string \<Rightarrow> char option" where
  "final_char p s = (if s = [] then p else Some (last s))"

lemma final_char_simps [simp]: "final_char p [] = p" "final_char p (c # cs) = final_char (Some c) cs"
  by (simp_all add: final_char_def)

lemma search_fromI:
  assumes "ends r (final_char p us, vs) \<noteq> []"
  shows "search_from r p (us @ vs)"
  using assms
proof (induction us arbitrary: p)
  case Nil
  then show ?case by (cases vs) auto
next
  case (Cons u us)
  then show ?case by simp
qed

lemma search_at: "ends r (final_char None us, vs) \<noteq> [] \<Longrightarrow> search r (us @ vs)"
  by (simp add: search_def search_fromI)

lemma ends_SeqI: "mid \<in> set (ends r pos) \<Longrightarrow> pos' \<in> set (ends s mid) \<Longrightarrow> pos' \<in> set (ends (Seq r s) pos)"
  by auto

text \<open>\<open>spans r Q\<close>: the matches of \<open>r\<close> are exactly the texts satisfying \<open>Q\<close>.\<close>

definition spans :: "regex \<Rightarrow> (string \<Rightarrow> bool) \<Rightarrow> bool" where
  "spans r Q = (\<forall>p s pos'. pos' \<in> set (ends r (p, s)) \<longleftrightarrow> (\<exists>t. s = t @ snd pos' \<and> fst pos' = final_char p t \<and> Q t))"

lemma spans_iff: "spans r Q \<Longrightarrow> pos' \<in> set (ends r (p, s)) \<longleftrightarrow>
    (\<exists>t. s = t @ snd pos' \<and> fst pos' = final_char p t \<and> Q t)"
  unfolding spans_def by blast

lemma cons_split: "(\<exists>u v. t = u @ v \<and> (\<exists>c. u = [c] \<and> P c) \<and> R v) = (\<exists>c v. t = c # v \<and> P c \<and> R v)"
  by (metis append_Cons append_Nil)

lemma spansD: "spans r Q \<Longrightarrow> Q t \<Longrightarrow> (final_char p t, vs) \<in> set (ends r (p, t @ vs))"
  by (auto simp: spans_def)

lemma spans_Eps: "spans Eps (\<lambda>t. t = [])"
  by (auto simp: spans_def)

lemma spans_Cls: "spans (Cls P) (\<lambda>t. \<exists>c. t = [c] \<and> P c)"
  by (auto simp: spans_def split: list.splits)

lemma final_char_append [simp]: "final_char (final_char p t) u = final_char p (t @ u)"
  by (simp add: final_char_def)

lemma spans_Seq:
  assumes "spans r Q" "spans s R"
  shows "spans (Seq r s) (\<lambda>t. \<exists>u v. t = u @ v \<and> Q u \<and> R v)"
proof -
  have "pos' \<in> set (ends (Seq r s) (p, input)) \<longleftrightarrow>
      (\<exists>t. input = t @ snd pos' \<and> fst pos' = final_char p t \<and> (\<exists>u v. t = u @ v \<and> Q u \<and> R v))"
    for p input pos'
  proof
    assume "pos' \<in> set (ends (Seq r s) (p, input))"
    then obtain mid where mid: "mid \<in> set (ends r (p, input))" "pos' \<in> set (ends s mid)" by auto
    obtain u where u: "input = u @ snd mid" "fst mid = final_char p u" "Q u"
      using mid(1) unfolding spans_iff [OF assms(1)] by blast
    obtain v where "snd mid = v @ snd pos'" "fst pos' = final_char (fst mid) v" "R v"
      using mid(2) spans_iff [OF assms(2), of pos' "fst mid" "snd mid"] by auto
    with u show "\<exists>t. input = t @ snd pos' \<and> fst pos' = final_char p t \<and> (\<exists>u v. t = u @ v \<and> Q u \<and> R v)"
      by (intro exI [of _ "u @ v"]) auto
  next
    assume "\<exists>t. input = t @ snd pos' \<and> fst pos' = final_char p t \<and> (\<exists>u v. t = u @ v \<and> Q u \<and> R v)"
    then obtain u v where uv: "input = u @ v @ snd pos'" "pos' = (final_char (final_char p u) v, snd pos')" "Q u" "R v"
      by (cases pos') auto
    have "pos' \<in> set (ends s (final_char p u, v @ snd pos'))"
      using spansD [OF assms(2) uv(4), of "final_char p u" "snd pos'"] uv(2) by simp
    then show "pos' \<in> set (ends (Seq r s) (p, input))"
      using ends_SeqI [OF spansD [OF assms(1) uv(3), of p "v @ snd pos'"]] uv(1) by simp
  qed
  then show ?thesis unfolding spans_def by blast
qed

lemma spans_Alt: "spans r Q \<Longrightarrow> spans s R \<Longrightarrow> spans (Alt r s) (\<lambda>t. Q t \<or> R t)"
  unfolding spans_def by auto

lemma spans_opt: "spans r Q \<Longrightarrow> spans (opt r) (\<lambda>t. t = [] \<or> Q t)"
  using spans_Alt [OF _ spans_Eps] by (auto simp: opt_def spans_def)

lemma star_ends_iff:
  "pos' \<in> set (star_ends P p s) \<longleftrightarrow> (\<exists>t. s = t @ snd pos' \<and> fst pos' = final_char p t \<and> (\<forall>c \<in> set t. P c))"
proof (induction s arbitrary: p)
  case Nil
  then show ?case by (cases pos') auto
next
  case (Cons c s)
  show ?case
  proof
    assume "pos' \<in> set (star_ends P p (c # s))"
    then consider "pos' = (p, c # s)" | "P c" "pos' \<in> set (star_ends P (Some c) s)" by (auto split: if_splits)
    then show "\<exists>t. c # s = t @ snd pos' \<and> fst pos' = final_char p t \<and> (\<forall>c \<in> set t. P c)"
    proof cases
      case 1
      then show ?thesis by (intro exI [of _ "[]"]) simp
    next
      case 2
      then obtain t where "s = t @ snd pos'" "fst pos' = final_char (Some c) t" "\<forall>c \<in> set t. P c"
        using Cons.IH by blast
      with 2(1) show ?thesis by (intro exI [of _ "c # t"]) simp
    qed
  next
    assume "\<exists>t. c # s = t @ snd pos' \<and> fst pos' = final_char p t \<and> (\<forall>c \<in> set t. P c)"
    then obtain t where t: "c # s = t @ snd pos'" "fst pos' = final_char p t" "\<forall>c \<in> set t. P c" by blast
    show "pos' \<in> set (star_ends P p (c # s))"
    proof (cases t)
      case Nil
      with t show ?thesis by (cases pos') simp
    next
      case (Cons d t')
      then have "s = t' @ snd pos' \<and> fst pos' = final_char (Some c) t' \<and> (\<forall>c \<in> set t'. P c)" "P c"
        using t by auto
      then show ?thesis using Cons.IH by auto
    qed
  qed
qed

lemma spans_Star: "spans (Star P) (\<lambda>t. \<forall>c \<in> set t. P c)"
  by (simp add: spans_def star_ends_iff)

lemma spans_weaken: "spans r Q \<Longrightarrow> (\<And>t. Q t = R t) \<Longrightarrow> spans r R"
  by (simp add: spans_def)

lemma spans_plus1: "spans (plus1 P) (\<lambda>t. t \<noteq> [] \<and> (\<forall>c \<in> set t. P c))"
  unfolding plus1_def
proof (rule spans_weaken [OF spans_Seq [OF spans_Cls spans_Star]])
  show "(\<exists>u v. t = u @ v \<and> (\<exists>c. u = [c] \<and> P c) \<and> (\<forall>c \<in> set v. P c)) = (t \<noteq> [] \<and> (\<forall>c \<in> set t. P c))" for t
    unfolding cons_split by (cases t) auto
qed

lemma spans_word: "spans (word_i w) (\<lambda>t. lower t = lower w)"
proof (induction w)
  case Nil
  then show ?case using spans_Eps by (simp add: word_i_def lower_def)
next
  case (Cons c w)
  have "word_i (c # w) = Seq (Cls (\<lambda>x. lower_char x = lower_char c)) (word_i w)"
    by (simp add: word_i_def)
  moreover have "(\<exists>u v. t = u @ v \<and> (\<exists>d. u = [d] \<and> lower_char d = lower_char c) \<and> lower v = lower w) =
      (lower t = lower (c # w))" for t
    unfolding cons_split by (cases t) (auto simp: lower_def)
  ultimately show ?case
    using spans_weaken [OF spans_Seq [OF spans_Cls Cons.IH]] by simp
qed

lemma spans_times: "spans (times_re n (Cls P)) (\<lambda>t. length t = n \<and> (\<forall>c \<in> set t. P c))"
proof (induction n)
  case 0
  have "(length t = 0 \<and> (\<forall>c \<in> set t. P c)) = (t = [])" for t by auto
  then show ?case using spans_Eps by (simp add: times_re_def)
next
  case (Suc n)
  have "times_re (Suc n) (Cls P) = Seq (Cls P) (times_re n (Cls P))"
    by (simp add: times_re_def)
  moreover have "(\<exists>u v. t = u @ v \<and> (\<exists>c. u = [c] \<and> P c) \<and> length v = n \<and> (\<forall>c \<in> set v. P c)) =
      (length t = Suc n \<and> (\<forall>c \<in> set t. P c))" for t
    unfolding cons_split by (cases t) auto
  ultimately show ?case
    using spans_weaken [OF spans_Seq [OF spans_Cls Suc]] by simp
qed

lemma spans_upto: "spans (upto_re n (Cls P)) (\<lambda>t. length t \<le> n \<and> (\<forall>c \<in> set t. P c))"
proof (induction n)
  case 0
  have "(length t \<le> 0 \<and> (\<forall>c \<in> set t. P c)) = (t = [])" for t by auto
  then show ?case using spans_Eps by simp
next
  case (Suc n)
  have "(t = [] \<or> (\<exists>u v. t = u @ v \<and> (\<exists>c. u = [c] \<and> P c) \<and> length v \<le> n \<and> (\<forall>c \<in> set v. P c))) =
      (length t \<le> Suc n \<and> (\<forall>c \<in> set t. P c))" for t
    unfolding cons_split by (cases t) auto
  then show ?case
    using spans_weaken [OF spans_opt [OF spans_Seq [OF spans_Cls Suc]]] by simp
qed

text \<open>Searching a pattern without lookaround is containment of a text it spans.\<close>

lemma search_from_iff:
  assumes "spans r Q"
  shows "search_from r p s \<longleftrightarrow> (\<exists>us t vs. s = us @ t @ vs \<and> Q t)"
proof
  assume "search_from r p s"
  then show "\<exists>us t vs. s = us @ t @ vs \<and> Q t"
  proof (induction s arbitrary: p)
    case Nil
    then obtain pos' where "pos' \<in> set (ends r (p, []))" by (cases "ends r (p, [])") auto
    then show ?case unfolding spans_iff [OF assms] by fastforce
  next
    case (Cons c s)
    show ?case
    proof (cases "search_from r (Some c) s")
      case True
      then obtain us t vs where "s = us @ t @ vs" "Q t" using Cons.IH by blast
      then show ?thesis by (intro exI [of _ "c # us"] exI [of _ t] exI [of _ vs]) simp
    next
      case False
      with Cons.prems obtain pos' where "pos' \<in> set (ends r (p, c # s))" by (cases "ends r (p, c # s)") auto
      then obtain t where "c # s = t @ snd pos'" "Q t" unfolding spans_iff [OF assms] by blast
      then show ?thesis by (intro exI [of _ "[]"] exI [of _ t] exI [of _ "snd pos'"]) simp
    qed
  qed
next
  assume "\<exists>us t vs. s = us @ t @ vs \<and> Q t"
  then obtain us t vs where s: "s = us @ t @ vs" "Q t" by blast
  have "ends r (final_char p us, t @ vs) \<noteq> []"
    using spansD [OF assms s(2)] by (metis empty_iff empty_set)
  then show "search_from r p s"
    unfolding s(1) by (rule search_fromI)
qed

lemma search_iff: "spans r Q \<Longrightarrow> search r s \<longleftrightarrow> (\<exists>us t vs. s = us @ t @ vs \<and> Q t)"
  by (simp add: search_def search_from_iff)

definition all_spell :: "(string \<Rightarrow> bool) list \<Rightarrow> string \<Rightarrow> bool" where
  "all_spell Qs t = (\<exists>ts. t = concat ts \<and> list_all2 (\<lambda>Q t. Q t) Qs ts)"

lemma all_spellI: "list_all2 (\<lambda>Q t. Q t) Qs ts \<Longrightarrow> all_spell Qs (concat ts)"
  by (auto simp: all_spell_def)

lemma all_spell_Nil: "all_spell [] = (\<lambda>t. t = [])"
  by (auto simp: all_spell_def)

lemma all_spell_Cons: "all_spell (Q # Qs) = (\<lambda>t. \<exists>u v. t = u @ v \<and> Q u \<and> all_spell Qs v)"
  by (auto simp: all_spell_def list_all2_Cons1 fun_eq_iff) (blast, metis concat.simps(2))

lemma spans_seqs: "list_all2 spans rs Qs \<Longrightarrow> spans (seqs rs) (all_spell Qs)"
proof (induction rule: list_all2_induct)
  case Nil
  then show ?case using spans_Eps by (simp add: all_spell_Nil)
next
  case (Cons r rs Q Qs)
  then show ?case
    using spans_Seq [OF Cons.hyps(1) Cons.IH] by (simp add: all_spell_Cons)
qed

text \<open>Assertions before and after a pattern that hold where it starts and ends.\<close>

lemma seqs_guarded:
  assumes "\<forall>x \<in> set pre. ends x pos = [pos]" "mid \<in> set (ends (seqs rs) pos)" "\<forall>x \<in> set post. ends x mid = [mid]"
  shows "mid \<in> set (ends (seqs (pre @ rs @ post)) pos)"
  using assms(1)
proof (induction pre)
  case Nil
  have post: "mid \<in> set (ends (seqs post) mid)"
    using assms(3) by (induction post) auto
  show ?case
    using assms(2) post by (induction rs arbitrary: pos) auto
qed simp

end
