(* ===== verification/Overrides.thy ===== *)
theory Overrides
  imports Crud
begin

text \<open>
  The interface of the gateway's per-team overrides (rate limits, policies): a table whose rows are
  set, whether or not they exist, and removed; a team without a row falls back to a default. The laws
  say what a lookup returns after each operation; the lemmas hold of every sequence of operations.
\<close>

datatype ('i, 'a) override_op = Put_row 'i 'a | Drop_row 'i

fun override_step ::
  "('i \<Rightarrow> 'a \<Rightarrow> 's \<Rightarrow> ('e + 'r) \<times> 's) \<Rightarrow> ('i \<Rightarrow> 's \<Rightarrow> ('e + 'd) \<times> 's) \<Rightarrow>
   ('i, 'a) override_op \<Rightarrow> 's \<Rightarrow> ('i, 'r) change list \<times> 's" where
  "override_step put del (Put_row i a) s =
     (case put i a s of (Inl e, s') \<Rightarrow> ([], s') | (Inr r, s') \<Rightarrow> ([Put i r], s'))"
| "override_step put del (Drop_row i) s =
     (case del i s of (Inl e, s') \<Rightarrow> ([], s') | (Inr d, s') \<Rightarrow> ([Drop i], s'))"

lemma snd_override_step [simp]:
  "snd (override_step put del (Put_row i a) s) = snd (put i a s)"
  "snd (override_step put del (Drop_row i) s) = snd (del i s)"
  by (simp_all split: prod.splits sum.splits)

fun override_run ::
  "('i \<Rightarrow> 'a \<Rightarrow> 's \<Rightarrow> ('e + 'r) \<times> 's) \<Rightarrow> ('i \<Rightarrow> 's \<Rightarrow> ('e + 'd) \<times> 's) \<Rightarrow>
   ('i, 'a) override_op list \<Rightarrow> 's \<Rightarrow> ('i, 'r) change list \<times> 's" where
  "override_run put del [] s = ([], s)"
| "override_run put del (op # ops) s =
     (let (cs, s') = override_step put del op s; (ds, s'') = override_run put del ops s' in (cs @ ds, s''))"

lemma override_run_unfold:
  assumes "override_run put del (op # ops) s = (cs, s')"
  obtains c1 s1 c2 where "override_step put del op s = (c1, s1)" "override_run put del ops s1 = (c2, s')" "cs = c1 @ c2"
  using assms by (auto simp: Let_def split: prod.splits)

locale override_table =
  fixes look :: "'s \<Rightarrow> 'i \<Rightarrow> 'r option"
    and put :: "'i \<Rightarrow> 'a \<Rightarrow> 's \<Rightarrow> ('e + 'r) \<times> 's"
    and del :: "'i \<Rightarrow> 's \<Rightarrow> ('e + 'd) \<times> 's"
  assumes put_ok: "put i a s = (Inr r, s') \<Longrightarrow> look s' = (look s)(i \<mapsto> r)"
    and put_err: "put i a s = (Inl e, s') \<Longrightarrow> look s' = look s"
    and del_ok: "del i s = (Inr d, s') \<Longrightarrow> look s i \<noteq> None \<and> look s' = (look s)(i := None)"
    and del_err: "del i s = (Inl e, s') \<Longrightarrow> look s' = look s \<and> look s i = None"
begin

lemma step_look:
  "look (snd (override_step put del op s)) = fold apply_change (fst (override_step put del op s)) (look s)"
proof (cases op)
  case (Put_row i a)
  then show ?thesis
    using put_ok [of i a s] put_err [of i a s] by (auto split: prod.splits sum.splits)
next
  case (Drop_row i)
  then show ?thesis
    using del_ok [of i s] del_err [of i s] by (auto split: prod.splits sum.splits)
qed

lemma run_look: "override_run put del ops s = (cs, s') \<Longrightarrow> look s' = fold apply_change cs (look s)"
proof (induction ops arbitrary: s cs)
  case Nil
  then show ?case by simp
next
  case (Cons op ops)
  from Cons.prems obtain c1 s1 c2 where "override_step put del op s = (c1, s1)"
    "override_run put del ops s1 = (c2, s')" "cs = c1 @ c2"
    by (rule override_run_unfold)
  then show ?case
    using Cons.IH [of s1 c2] step_look [of op s] by simp
qed

text \<open>After a removal, successful or not, the team has no row.\<close>

lemma removed: "look (snd (del i s)) i = None"
  using del_ok [of i s] del_err [of i s] by (cases "del i s"; cases "fst (del i s)") auto

lemma last_put:
  assumes "override_run put del (ops @ [Put_row i a]) s = (cs @ [Put i r], s')"
  shows "look s' i = Some r"
  using run_look [OF assms] by simp

end

text \<open>A table where no operation touches a row \<open>i\<close> keeps it.\<close>

lemma override_run_frame:
  assumes "\<And>op s. row (snd (override_step put del op s)) = row s"
  shows "row (snd (override_run put del ops s)) = row s"
proof (induction ops arbitrary: s)
  case Nil
  then show ?case by simp
next
  case (Cons op ops)
  obtain c1 s1 c2 s2 where "override_step put del op s = (c1, s1)" "override_run put del ops s1 = (c2, s2)"
    by (meson surj_pair)
  then show ?case
    using Cons.IH [of s1] assms [of op s] by simp
qed

end
