(* ===== verification/Cost.thy ===== *)
theory Cost
  imports Catalog Schemas
begin

text \<open>
  The cost calculator (\<open>app/budget/cost.py\<close>): the estimate made before a provider call, the actual cost
  from the reported usage, and the budget test. Prices come from the model catalog.
\<close>

definition default_estimate_output_tokens :: int where
  "default_estimate_output_tokens = 500"

definition estimation_safety_margin :: real where
  "estimation_safety_margin = 3 / 2"

definition estimated_input_tokens :: "chat_request \<Rightarrow> int" where
  "estimated_input_tokens q = max 1 (int (sum_list (map (\<lambda>m. length (msg_content m)) (q_messages q))) div 4)"

definition estimated_output_tokens :: "chat_request \<Rightarrow> int" where
  "estimated_output_tokens q = (case q_max_tokens q of
     Some n \<Rightarrow> if n \<noteq> 0 then n else default_estimate_output_tokens
   | None \<Rightarrow> default_estimate_output_tokens)"

definition token_cost :: "model_metadata \<Rightarrow> int \<Rightarrow> int \<Rightarrow> real" where
  "token_cost meta input_tokens output_tokens =
     of_int input_tokens / 1000 * md_input_cost_per_1k meta +
     of_int output_tokens / 1000 * md_output_cost_per_1k meta"

definition estimate_cost :: "model_catalog \<Rightarrow> string \<Rightarrow> string \<Rightarrow> chat_request \<Rightarrow> real" where
  "estimate_cost cat provider model q =
     (let meta = catalog_get cat provider model;
          raw_estimate = token_cost meta (estimated_input_tokens q) (estimated_output_tokens q)
      in py_round (raw_estimate * estimation_safety_margin) 8)"

definition or_zero :: "int option \<Rightarrow> int" where
  "or_zero v = (case v of None \<Rightarrow> 0 | Some n \<Rightarrow> n)"

definition calculate_actual_cost ::
  "model_catalog \<Rightarrow> string \<Rightarrow> string \<Rightarrow> usage_metadata option \<Rightarrow> real \<Rightarrow> real" where
  "calculate_actual_cost cat provider model usage estimated_cost = (case usage of
     None \<Rightarrow> estimated_cost
   | Some u \<Rightarrow>
      (let meta = catalog_get cat provider model;
           prompt = or_zero (prompt_tokens u); completion = or_zero (completion_tokens u)
       in if prompt = 0 \<and> completion = 0 then estimated_cost
          else py_round (token_cost meta prompt completion) 8))"

definition would_exceed_budget :: "real \<Rightarrow> real \<Rightarrow> real \<Rightarrow> real \<Rightarrow> bool" where
  "would_exceed_budget estimated_cost usage limit reserved_amount =
     (usage + reserved_amount + estimated_cost > limit)"

lemma estimated_tokens_nonneg:
  "1 \<le> estimated_input_tokens q" "wf_request q \<Longrightarrow> 1 \<le> estimated_output_tokens q"
  by (auto simp: estimated_input_tokens_def estimated_output_tokens_def wf_request_def
      default_estimate_output_tokens_def split: option.splits)

lemma token_cost_mono:
  assumes "metadata_ok meta" "of_int i \<le> x * of_int i'" "of_int out \<le> x * of_int out'"
  shows "token_cost meta i out \<le> token_cost meta i' out' * x"
proof -
  have "of_int i / 1000 * md_input_cost_per_1k meta \<le> x * of_int i' / 1000 * md_input_cost_per_1k meta"
    "of_int out / 1000 * md_output_cost_per_1k meta \<le> x * of_int out' / 1000 * md_output_cost_per_1k meta"
    using assms by (auto simp: metadata_ok_def intro!: mult_right_mono divide_right_mono)
  then show ?thesis
    by (simp add: token_cost_def algebra_simps)
qed

lemma estimate_nonneg:
  assumes "wf_catalog cat" "wf_request q"
  shows "0 \<le> estimate_cost cat p m q"
  using catalog_get_ok [OF assms(1), of p m] estimated_tokens_nonneg(1) [of q] estimated_tokens_nonneg(2) [OF assms(2)]
  by (auto simp: estimate_cost_def token_cost_def metadata_ok_def estimation_safety_margin_def Let_def
      intro!: py_round_nonneg add_nonneg_nonneg mult_nonneg_nonneg)

lemma estimate_covers:
  assumes "wf_catalog cat"
    and "real_of_int (or_zero (prompt_tokens u)) \<le> 3 / 2 * of_int (estimated_input_tokens q)"
    and "real_of_int (or_zero (completion_tokens u)) \<le> 3 / 2 * of_int (estimated_output_tokens q)"
  shows "calculate_actual_cost cat p m (Some u) (estimate_cost cat p m q) \<le> estimate_cost cat p m q"
  using token_cost_mono [OF catalog_get_ok [OF assms(1)] assms(2,3), of p m]
  by (simp add: calculate_actual_cost_def estimate_cost_def Let_def estimation_safety_margin_def py_round_mono)

text \<open>
  C29: the estimate is an upper bound with a known margin: it is not negative, and the actual cost of a
  response does not exceed it as long as the reported prompt tokens are at most 1.5 times the estimated
  ones and the completion tokens at most 1.5 times the requested maximum (or the default 500).
\<close>

theorem estimate_covers_actual:
  assumes "wf_catalog cat" "wf_request q"
    and "real_of_int (or_zero (prompt_tokens u)) \<le> 3 / 2 * of_int (estimated_input_tokens q)"
    and "real_of_int (or_zero (completion_tokens u)) \<le> 3 / 2 * of_int (estimated_output_tokens q)"
  shows "0 \<le> estimate_cost cat p m q \<and>
    calculate_actual_cost cat p m (Some u) (estimate_cost cat p m q) \<le> estimate_cost cat p m q"
  using estimate_nonneg [OF assms(1,2)] estimate_covers [OF assms(1,3,4)] by blast

lemma new_catalog_wf: "wf_catalog new_catalog"
  by (simp add: wf_catalog_def new_catalog_def)

definition plain_request :: chat_request where
  "plain_request = example_request\<lparr>q_provider := None\<rparr>"

lemma plain_request_wf: "wf_request plain_request"
proof -
  have "strip ''auto'' = ''auto''" by code_simp
  then show ?thesis
    by (simp add: wf_request_def plain_request_def example_request_def)
qed

theorem estimate_covers_actual_witness:
  "calculate_actual_cost example_catalog ''groq'' ''m1'' (Some \<lparr>prompt_tokens = Some 1, completion_tokens = Some 10,
       total_tokens = None\<rparr>) (estimate_cost example_catalog ''groq'' ''m1'' plain_request) \<le>
     estimate_cost example_catalog ''groq'' ''m1'' plain_request"
proof -
  have "wf_catalog example_catalog"
    using load_wf_catalog [OF _ new_catalog_wf, of example_table] load_from_db_wf [OF example_table_wf, of new_catalog]
    by (simp add: example_catalog_def)
  moreover have "estimated_input_tokens plain_request = 1" "estimated_output_tokens plain_request = 10"
    by (simp_all add: plain_request_def example_request_def estimated_input_tokens_def estimated_output_tokens_def)
  ultimately show ?thesis
    using estimate_covers_actual [of example_catalog plain_request "\<lparr>prompt_tokens = Some 1, completion_tokens = Some 10,
       total_tokens = None\<rparr>" "''groq''" "''m1''"] plain_request_wf
    by (simp add: or_zero_def)
qed

text \<open>
  Models the catalog does not know are free: their estimate is 0, so is the cost of any reported
  usage, and the budget test never refuses a request to one.
\<close>

theorem uncatalogued_models_are_free:
  assumes "map_of (c_catalog cat) (catalog_key (lower p) (strip m)) = None"
    and "map_of (c_catalog cat) (catalog_key (lower p) (strip (before_colon m))) = None"
  shows "estimate_cost cat p m q = 0 \<and> calculate_actual_cost cat p m u 0 = 0 \<and>
    would_exceed_budget (estimate_cost cat p m q) spent limit held = (spent + held > limit)"
proof -
  have "catalog_get cat p m = default_metadata cat p m"
    using assms by (simp add: catalog_get_def)
  then have free: "token_cost (catalog_get cat p m) i out = 0" for i out
    by (simp add: token_cost_def default_metadata_def Let_def)
  then have "estimate_cost cat p m q = 0"
    by (simp add: estimate_cost_def Let_def)
  moreover have "calculate_actual_cost cat p m u 0 = 0"
    using free by (simp add: calculate_actual_cost_def Let_def split: option.splits)
  ultimately show ?thesis
    by (simp add: would_exceed_budget_def)
qed

theorem uncatalogued_models_are_free_witness:
  "estimate_cost new_catalog ''openai'' ''gpt-4o'' plain_request = 0"
  using uncatalogued_models_are_free [of new_catalog] by (simp add: new_catalog_def)

end
