(* ===== verification/Ledger.thy ===== *)
theory Ledger
  imports Prelude
begin

text \<open>
  The interface of a reservation ledger, which a budget implements for the chat service: a request
  reserves its estimate before the provider call and settles it afterwards, charging what the call
  cost. The laws say what one operation does to the two totals; the lemmas hold of every interleaving
  of requests.
\<close>

datatype 'i ledger_op = Open 'i | Settle 'i real

fun ledger_step ::
  "('i \<Rightarrow> 's \<Rightarrow> bool \<times> 's) \<Rightarrow> ('i \<Rightarrow> real \<Rightarrow> 's \<Rightarrow> 's) \<Rightarrow> 'i ledger_op \<Rightarrow> 'i list \<times> 's \<Rightarrow> 'i list \<times> 's" where
  "ledger_step reserve settle (Open i) (out, s) =
     (if List.member out i then (out, s)
      else case reserve i s of (granted, s') \<Rightarrow> (if granted then i # out else out, s'))"
| "ledger_step reserve settle (Settle i a) (out, s) =
     (if List.member out i then (remove1 i out, settle i a s) else (out, s))"

definition ledger_run ::
  "('i \<Rightarrow> 's \<Rightarrow> bool \<times> 's) \<Rightarrow> ('i \<Rightarrow> real \<Rightarrow> 's \<Rightarrow> 's) \<Rightarrow> 'i ledger_op list \<Rightarrow> 'i list \<times> 's \<Rightarrow> 'i list \<times> 's" where
  "ledger_run reserve settle ops st = fold (ledger_step reserve settle) ops st"

text \<open>What the settled requests of a run were charged in total.\<close>

fun charged ::
  "('i \<Rightarrow> 's \<Rightarrow> bool \<times> 's) \<Rightarrow> ('i \<Rightarrow> real \<Rightarrow> 's \<Rightarrow> 's) \<Rightarrow> 'i ledger_op list \<Rightarrow> 'i list \<times> 's \<Rightarrow> real" where
  "charged reserve settle [] st = 0"
| "charged reserve settle (op # ops) st =
     (case op of Open i \<Rightarrow> 0 | Settle i a \<Rightarrow> if List.member (fst st) i then a else 0) +
     charged reserve settle ops (ledger_step reserve settle op st)"

locale reservation_ledger =
  fixes inv :: "'s \<Rightarrow> bool" and used :: "'s \<Rightarrow> real" and held :: "'s \<Rightarrow> real" and limit :: "'s \<Rightarrow> real"
    and estimate :: "'i \<Rightarrow> real"
    and reserve :: "'i \<Rightarrow> 's \<Rightarrow> bool \<times> 's" and settle :: "'i \<Rightarrow> real \<Rightarrow> 's \<Rightarrow> 's"
  assumes reserve_inv: "inv s \<Longrightarrow> reserve i s = (g, s') \<Longrightarrow> inv s' \<and> used s' = used s \<and> limit s' = limit s"
    and granted: "inv s \<Longrightarrow> reserve i s = (True, s') \<Longrightarrow>
      held s' = held s + estimate i \<and> used s + held s + estimate i \<le> limit s"
    and refused: "inv s \<Longrightarrow> reserve i s = (False, s') \<Longrightarrow> held s' = held s"
    and settled: "inv s \<Longrightarrow> 0 \<le> a \<Longrightarrow> estimate i \<le> held s \<Longrightarrow>
      inv (settle i a s) \<and> used (settle i a s) = used s + a \<and> held (settle i a s) = held s - estimate i \<and>
      limit (settle i a s) = limit s"
    and estimate_nonneg: "inv s \<Longrightarrow> 0 \<le> estimate i"
begin

definition balanced :: "'i list \<times> 's \<Rightarrow> bool" where
  "balanced = (\<lambda>(out, s). inv s \<and> distinct out \<and> held s = sum_list (map estimate out))"

lemma outstanding_le: "balanced (out, s) \<Longrightarrow> i \<in> set out \<Longrightarrow> estimate i \<le> held s"
proof -
  assume b: "balanced (out, s)" and i: "i \<in> set out"
  have "estimate i + sum_list (map estimate (remove1 i out)) = sum_list (map estimate out)"
    using i by (induction out) auto
  moreover have "0 \<le> sum_list (map estimate (remove1 i out))"
    using b estimate_nonneg by (auto simp: balanced_def intro!: sum_list_nonneg)
  ultimately show ?thesis
    using b by (simp add: balanced_def)
qed

lemma step_balanced:
  assumes "balanced st" "\<forall>i a. op = Settle i a \<longrightarrow> 0 \<le> a"
  shows "balanced (ledger_step reserve settle op st) \<and>
    limit (snd (ledger_step reserve settle op st)) = limit (snd st) \<and>
    used (snd (ledger_step reserve settle op st)) =
      used (snd st) + (case op of Open i \<Rightarrow> 0 | Settle i a \<Rightarrow> if List.member (fst st) i then a else 0)"
proof -
  obtain out s where st: "st = (out, s)" by (cases st)
  show ?thesis
  proof (cases op)
    case (Open i)
    obtain g s' where r: "reserve i s = (g, s')" by (meson surj_pair)
    show ?thesis
      using assms reserve_inv [OF _ r] granted [of s i s'] refused [of s i s'] r
      by (cases g) (auto simp: st Open balanced_def List.member_iff)
  next
    case (Settle i a)
    have "sum_list (map estimate (remove1 i out)) = sum_list (map estimate out) - estimate i" if "i \<in> set out"
      using that by (induction out) auto
    then show ?thesis
      using assms outstanding_le [of out s i] settled [of s a i]
      by (auto simp: st Settle balanced_def List.member_iff)
  qed
qed

text \<open>What is held is exactly what is outstanding, what is used exactly what was charged.\<close>

lemma run_balanced:
  assumes "balanced st" "\<forall>i a. Settle i a \<in> set ops \<longrightarrow> 0 \<le> a"
  shows "balanced (ledger_run reserve settle ops st) \<and>
    limit (snd (ledger_run reserve settle ops st)) = limit (snd st) \<and>
    used (snd (ledger_run reserve settle ops st)) = used (snd st) + charged reserve settle ops st"
  using assms
proof (induction ops arbitrary: st)
  case Nil
  then show ?case by (simp add: ledger_run_def)
next
  case (Cons op ops)
  have step: "balanced (ledger_step reserve settle op st)"
    "limit (snd (ledger_step reserve settle op st)) = limit (snd st)"
    "used (snd (ledger_step reserve settle op st)) =
      used (snd st) + (case op of Open i \<Rightarrow> 0 | Settle i a \<Rightarrow> if List.member (fst st) i then a else 0)"
    using step_balanced [OF Cons.prems(1), of op] Cons.prems(2) by auto
  show ?case
    using Cons.IH [OF step(1)] Cons.prems(2) step(2,3) by (simp add: ledger_run_def)
qed

text \<open>If no charge exceeds its estimate, the limit is never exceeded.\<close>

lemma step_within:
  assumes "balanced st" "used (snd st) + held (snd st) \<le> limit (snd st)"
    and "\<forall>i a. op = Settle i a \<longrightarrow> 0 \<le> a \<and> a \<le> estimate i"
  shows "used (snd (ledger_step reserve settle op st)) + held (snd (ledger_step reserve settle op st))
    \<le> limit (snd (ledger_step reserve settle op st))"
proof -
  obtain out s where st: "st = (out, s)" by (cases st)
  show ?thesis
  proof (cases op)
    case (Open i)
    obtain g s' where r: "reserve i s = (g, s')" by (meson surj_pair)
    show ?thesis
      using assms reserve_inv [OF _ r] granted [of s i s'] refused [of s i s'] r
      by (cases g) (auto simp: st Open balanced_def)
  next
    case (Settle i a)
    then show ?thesis
      using assms outstanding_le [of out s i] settled [of s a i]
      by (auto simp: st balanced_def List.member_iff)
  qed
qed

lemma run_within:
  assumes "balanced st" "used (snd st) + held (snd st) \<le> limit (snd st)"
    and "\<forall>i a. Settle i a \<in> set ops \<longrightarrow> 0 \<le> a \<and> a \<le> estimate i"
  shows "used (snd (ledger_run reserve settle ops st)) + held (snd (ledger_run reserve settle ops st))
    \<le> limit (snd st)"
  using assms
proof (induction ops arbitrary: st)
  case Nil
  then show ?case by (simp add: ledger_run_def)
next
  case (Cons op ops)
  have "balanced (ledger_step reserve settle op st)"
    "limit (snd (ledger_step reserve settle op st)) = limit (snd st)"
    using step_balanced [OF Cons.prems(1), of op] Cons.prems(3) by auto
  moreover have "used (snd (ledger_step reserve settle op st)) + held (snd (ledger_step reserve settle op st))
    \<le> limit (snd (ledger_step reserve settle op st))"
    using step_within [OF Cons.prems(1,2), of op] Cons.prems(3) by auto
  ultimately show ?case
    using Cons.IH [of "ledger_step reserve settle op st"] Cons.prems(3) by (simp add: ledger_run_def)
qed

end

end
