(* ===== verification/Budget.thy ===== *)
theory Budget
  imports Calendar Cost Ledger Crud
begin

text \<open>
  Team budgets (\<open>app/budget\<close>, \<open>api/v1/endpoints/budget.py\<close>): the row with its derived figures, the CRUD
  operations, the lazy period rollover and the reservation life cycle. The table maps a team to its
  row, as its UNIQUE constraint says. Row timestamps other than the period are left out.

  An ORM session keeps the objects it has loaded. A later SELECT, FOR UPDATE or not, finds the row in
  the database but hands out the object the session holds; whether its columns are refreshed from the
  row is the ORM's affair, the parameter \<open>keep\<close> (held object, database row): \<open>keep h row = h\<close> unless the
  query asks for \<open>populate_existing\<close>, then \<open>keep h row = row\<close>. A flush writes the columns that changed.
  After a rollback all objects are expired, and reading a column reloads the row, which an asynchronous
  session may refuse: the parameter \<open>reread\<close>.
\<close>

section \<open>The row\<close>

record budget =
  bg_id :: string
  bg_team_id :: string
  limit_amount :: real
  current_usage :: real
  reserved :: real
  bg_period :: string
  period_start :: datetime
  period_end :: datetime
  bg_policy :: string
  bg_enabled :: bool

type_synonym budget_table = "string \<Rightarrow> budget option"

definition remaining_amount :: "budget \<Rightarrow> real" where
  "remaining_amount b = max 0 (limit_amount b - current_usage b - reserved b)"

definition usage_percentage :: "budget \<Rightarrow> real" where
  "usage_percentage b = (if limit_amount b \<le> 0 then 0 else py_round (current_usage b / limit_amount b * 100) 2)"

definition is_period_expired :: "datetime \<Rightarrow> budget \<Rightarrow> bool" where
  "is_period_expired now b = (now \<ge> period_end b)"

definition configuration_error :: "string \<Rightarrow> exn" where
  "configuration_error msg = Exn BudgetConfigurationErrorC msg"

definition compute_period_end :: "string \<Rightarrow> datetime \<Rightarrow> exn + datetime" where
  "compute_period_end period start =
     (if period = ''daily'' then Inr (add_days 1 start)
      else if period = ''weekly'' then Inr (add_days 7 start)
      else if period = ''monthly'' then
        Inr (midnight_of_first (add_days 32 (first_of_month start)))
      else Inl (configuration_error (''Unknown budget period: '' @ repr period)))"

section \<open>Create, read, update, delete\<close>

record budget_create =
  nb_limit_amount :: real
  nb_period :: string
  nb_policy :: string
  nb_enabled :: bool

record budget_update =
  ub_limit_amount :: "real option"
  ub_policy :: "string option"
  ub_enabled :: "bool option"

definition budget_periods :: "string list" where
  "budget_periods = [''daily'', ''weekly'', ''monthly'']"

definition budget_policies :: "string list" where
  "budget_policies = [''BLOCK'', ''WARN'', ''DOWNGRADE'']"

definition validate_budget_create :: "budget_create \<Rightarrow> exn + budget_create" where
  "validate_budget_create d =
     (if 0 < nb_limit_amount d \<and> List.member budget_periods (nb_period d) \<and>
         List.member budget_policies (nb_policy d)
      then Inr (d\<lparr>nb_limit_amount := py_round (nb_limit_amount d) 6\<rparr>)
      else Inl (RequestValidationError [([''body''], ''value_error'')]))"

definition validate_budget_update :: "budget_update \<Rightarrow> exn + budget_update" where
  "validate_budget_update d =
     (if (case ub_limit_amount d of None \<Rightarrow> True | Some l \<Rightarrow> 0 < l) \<and>
         (case ub_policy d of None \<Rightarrow> True | Some p \<Rightarrow> List.member budget_policies p)
      then Inr d else Inl (RequestValidationError [([''body''], ''value_error'')]))"

definition get_budget :: "string \<Rightarrow> budget_table \<Rightarrow> budget option" where
  "get_budget team tbl = tbl team"

definition create_budget ::
  "string \<Rightarrow> datetime \<Rightarrow> string \<Rightarrow> budget_create \<Rightarrow> budget_table \<Rightarrow> (exn + budget) \<times> budget_table" where
  "create_budget new_id now team d tbl =
     (case get_budget team tbl of
        Some b \<Rightarrow> (Inl (configuration_error (''A budget already exists for team '' @ repr team @
          ''. Use PATCH to update or DELETE to remove it first.'')), tbl)
      | None \<Rightarrow> (case compute_period_end (nb_period d) now of
          Inl err \<Rightarrow> (Inl err, tbl)
        | Inr e \<Rightarrow> (let b = \<lparr>bg_id = new_id, bg_team_id = team, limit_amount = nb_limit_amount d,
              current_usage = 0, reserved = 0, bg_period = nb_period d, period_start = now,
              period_end = e, bg_policy = nb_policy d, bg_enabled = nb_enabled d\<rparr>
            in (Inr b, tbl(team \<mapsto> b)))))"

definition or_else :: "'a option \<Rightarrow> 'a \<Rightarrow> 'a" where
  "or_else v d = (case v of Some x \<Rightarrow> x | None \<Rightarrow> d)"

definition update_budget ::
  "string \<Rightarrow> budget_update \<Rightarrow> budget_table \<Rightarrow> (exn + budget) \<times> budget_table" where
  "update_budget team d tbl = (case get_budget team tbl of
     None \<Rightarrow> (Inl (configuration_error (''No budget found for team '' @ repr team @ ''.'')), tbl)
   | Some b \<Rightarrow> (let b = b\<lparr>limit_amount := or_else (ub_limit_amount d) (limit_amount b),
        bg_policy := or_else (ub_policy d) (bg_policy b), bg_enabled := or_else (ub_enabled d) (bg_enabled b)\<rparr>
      in (Inr b, tbl(team \<mapsto> b))))"

definition delete_budget :: "string \<Rightarrow> budget_table \<Rightarrow> bool \<times> budget_table" where
  "delete_budget team tbl = (case get_budget team tbl of
     None \<Rightarrow> (False, tbl) | Some b \<Rightarrow> (True, tbl(team := None)))"

section \<open>Rollover\<close>

text \<open>The clock is read for the test (\<open>now\<close>) and for the new period (\<open>now'\<close>).\<close>

definition apply_rollover :: "datetime \<Rightarrow> datetime \<Rightarrow> budget \<Rightarrow> exn + budget" where
  "apply_rollover now now' b =
     (if \<not> is_period_expired now b then Inr b
      else (case compute_period_end (bg_period b) now' of
          Inl err \<Rightarrow> Inl err
        | Inr e \<Rightarrow> Inr (b\<lparr>current_usage := 0, reserved := 0, period_start := now', period_end := e\<rparr>)))"

section \<open>Reservation and reconciliation\<close>

text \<open>\<open>SELECT .. WHERE team_id AND enabled FOR UPDATE\<close>, in a session holding \<open>held\<close>.\<close>

definition lock_row ::
  "(budget \<Rightarrow> budget \<Rightarrow> budget) \<Rightarrow> budget option \<Rightarrow> string \<Rightarrow> budget_table \<Rightarrow> budget option" where
  "lock_row keep held team tbl = (case tbl team of
     None \<Rightarrow> None
   | Some row \<Rightarrow> if \<not> bg_enabled row then None
       else (case held of
           Some h \<Rightarrow> Some (if bg_id h = bg_id row then keep h row else row)
         | None \<Rightarrow> Some row))"

text \<open>The UPDATE of a flush: a column is written when its value differs from the one loaded.\<close>

definition written :: "'a \<Rightarrow> 'a \<Rightarrow> 'a \<Rightarrow> 'a" where
  "written loaded new db = (if new = loaded then db else new)"

definition flush :: "budget \<Rightarrow> budget \<Rightarrow> budget \<Rightarrow> budget" where
  "flush loaded new row = row\<lparr>
     current_usage := written (current_usage loaded) (current_usage new) (current_usage row),
     reserved := written (reserved loaded) (reserved new) (reserved row),
     period_start := written (period_start loaded) (period_start new) (period_start row),
     period_end := written (period_end loaded) (period_end new) (period_end row)\<rparr>"

definition store :: "string \<Rightarrow> budget \<Rightarrow> budget \<Rightarrow> budget_table \<Rightarrow> budget_table" where
  "store team loaded new tbl = (case tbl team of
     None \<Rightarrow> tbl | Some row \<Rightarrow> tbl(team \<mapsto> flush loaded new row))"

text \<open>\<open>f"{x:.6f}"\<close>\<close>

definition fixed6 :: "real \<Rightarrow> string" where
  "fixed6 x = (let n = round_half_even (x * 10 ^ 6); d = digits_nat (nat (\<bar>n\<bar> mod 10 ^ 6)) in
     (if n < 0 then ''-'' else []) @ digits_nat (nat (\<bar>n\<bar> div 10 ^ 6)) @ ''.'' @
     replicate (6 - length d) (CHR ''0'') @ d)"

definition over_limit :: "budget \<Rightarrow> real \<Rightarrow> bool" where
  "over_limit b est = (current_usage b + reserved b + est > limit_amount b)"

text \<open>The rejection: roll back, then read \<open>remaining_amount\<close> of the expired object.\<close>

definition reject ::
  "(budget \<Rightarrow> exn + budget) \<Rightarrow> string \<Rightarrow> (budget \<Rightarrow> string) \<Rightarrow> budget_table \<Rightarrow> exn" where
  "reject reread team message tbl = (case tbl team of
     None \<Rightarrow> Exn ExceptionC []
   | Some row \<Rightarrow> (case reread row of
        Inl err \<Rightarrow> err
      | Inr b \<Rightarrow> BudgetExceeded (message b) (Some team) (remaining_amount b)))"

definition exhausted_message :: "real \<Rightarrow> budget \<Rightarrow> string" where
  "exhausted_message est b = ''Team budget exhausted. Remaining: $'' @ fixed6 (remaining_amount b) @
     '', estimated cost: $'' @ fixed6 est @ ''.''"

definition warns :: "int \<Rightarrow> real \<Rightarrow> budget \<Rightarrow> bool" where
  "warns threshold est b =
     (let usage_after = current_usage b + est;
          usage_pct = (if limit_amount b > 0 then usage_after / limit_amount b * 100 else 0)
      in usage_after > limit_amount b \<or> usage_pct \<ge> of_int threshold)"

record times =
  tm_check :: datetime
  tm_roll :: datetime

definition check_and_reserve ::
  "(budget \<Rightarrow> budget \<Rightarrow> budget) \<Rightarrow> (budget \<Rightarrow> exn + budget) \<Rightarrow> times \<Rightarrow> int \<Rightarrow> string \<Rightarrow> real \<Rightarrow>
   budget option \<Rightarrow> budget_table \<Rightarrow> (exn + budget option \<times> bool) \<times> budget option \<times> budget_table" where
  "check_and_reserve keep reread tm threshold team est held tbl =
     (case lock_row keep held team tbl of
        None \<Rightarrow> (Inr (None, False), held, tbl)
      | Some loaded \<Rightarrow> (case apply_rollover (tm_check tm) (tm_roll tm) loaded of
          Inl err \<Rightarrow> (Inl err, None, tbl)
        | Inr b \<Rightarrow>
           (let policy = upper (bg_policy b);
                commit = (\<lambda>b' warning. let tbl' = store team loaded b' tbl in
                  (Inr (tbl' team, warning), tbl' team, tbl'))
            in if policy = ''BLOCK'' then
                 (if over_limit b est then (Inl (reject reread team (exhausted_message est) tbl), None, tbl)
                  else commit (b\<lparr>reserved := reserved b + est\<rparr>) False)
               else if policy = ''WARN'' then
                 commit (b\<lparr>reserved := reserved b + est\<rparr>) (warns threshold est b)
               else if policy = ''DOWNGRADE'' then
                 (if over_limit b est
                  then (Inl (reject reread team (\<lambda>b. ''No cheaper provider found within budget.'') tbl), None, tbl)
                  else commit (b\<lparr>reserved := reserved b + est\<rparr>) False)
               else commit b False)))"

definition reconcile ::
  "(budget \<Rightarrow> budget \<Rightarrow> budget) \<Rightarrow> string \<Rightarrow> real \<Rightarrow> real \<Rightarrow> budget option \<Rightarrow> budget_table \<Rightarrow>
   budget option \<times> budget option \<times> budget_table" where
  "reconcile keep team est actual held tbl = (case lock_row keep held team tbl of
     None \<Rightarrow> (None, held, tbl)
   | Some loaded \<Rightarrow>
      (let tbl' = store team loaded (loaded\<lparr>reserved := max 0 (reserved loaded - est),
                     current_usage := max 0 (current_usage loaded + actual)\<rparr>) tbl
       in (tbl' team, tbl' team, tbl')))"

definition release_reservation ::
  "(budget \<Rightarrow> budget \<Rightarrow> budget) \<Rightarrow> string \<Rightarrow> real \<Rightarrow> budget option \<Rightarrow> budget_table \<Rightarrow>
   budget option \<times> budget_table" where
  "release_reservation keep team est held tbl = (case lock_row keep held team tbl of
     None \<Rightarrow> (held, tbl)
   | Some loaded \<Rightarrow> (let b = loaded\<lparr>reserved := max 0 (reserved loaded - est)\<rparr>
       in (Some b, store team loaded b tbl)))"

section \<open>Periods\<close>

lemma known_period: "compute_period_end p d = Inr e \<Longrightarrow> p \<in> set budget_periods"
  by (auto simp: compute_period_end_def budget_periods_def split: if_splits)

lemma monthly_end:
  "\<exists>y' m'. next_month y m = (y', m') \<and>
     midnight_of_first (add_days 32 (first_of_month (DateTime y m d t))) = DateTime y' m' 1 0"
  using first_plus_32 [of y m t] by (cases "next_month y m") auto

text \<open>
  Every known period ends after it starts: a daily or weekly one 1 or 7 days later at the same time of
  day, a monthly one at midnight on the first of the next month, whatever day of the month it starts;
  any other period name is a configuration error.
\<close>

theorem period_end_after_start:
  assumes "valid_datetime d"
  shows "(p \<in> set budget_periods \<longleftrightarrow> (\<exists>e. compute_period_end p d = Inr e)) \<and>
    (\<forall>e. compute_period_end p d = Inr e \<longrightarrow> d < e \<and> valid_datetime e) \<and>
    compute_period_end ''monthly'' d =
      Inr (case next_month (dt_year d) (dt_month d) of (y', m') \<Rightarrow> DateTime y' m' 1 0)"
proof -
  obtain y m dd t where d: "d = DateTime y m dd t" by (cases d)
  obtain y' m' where nm: "next_month y m = (y', m')"
    and eq: "midnight_of_first (add_days 32 (first_of_month d)) = DateTime y' m' 1 0"
    using monthly_end [of y m dd t] d by auto
  have later: "d < DateTime y' m' 1 0"
    using nm assms by (auto simp: d next_month_def less_datetime_def dt_tuple_def split: if_splits)
  have valid: "valid_datetime (DateTime y' m' 1 0)"
    using nm assms days_in_month_bounds [of y' m']
    by (auto simp: d next_month_def day_micros_def split: if_splits)
  have monthly: "compute_period_end ''monthly'' d = Inr (DateTime y' m' 1 0)"
    by (simp add: compute_period_end_def eq)
  have "d < e \<and> valid_datetime e" if "compute_period_end p d = Inr e" for e
    using that later [folded eq] valid [folded eq] assms
    by (auto simp: compute_period_end_def add_days_later valid_add_days simp del: add_days.simps split: if_splits)
  moreover have "p \<in> set budget_periods \<longleftrightarrow> (\<exists>e. compute_period_end p d = Inr e)"
    by (auto simp: compute_period_end_def budget_periods_def)
  ultimately show ?thesis
    using monthly nm d by simp
qed

theorem period_end_after_start_witness:
  "compute_period_end ''monthly'' (DateTime 2024 12 31 5) = Inr (DateTime 2025 1 1 0)"
  using period_end_after_start [of "DateTime 2024 12 31 5" "''monthly''"]
  by (simp add: days_in_month_def day_micros_def next_month_def)

section \<open>Reservation, seen from the table\<close>

definition populate_existing :: "budget \<Rightarrow> budget \<Rightarrow> budget" where
  "populate_existing h row = row"

definition identity_map :: "budget \<Rightarrow> budget \<Rightarrow> budget" where
  "identity_map h row = h"

definition strict_policy :: "budget \<Rightarrow> bool" where
  "strict_policy b = (upper (bg_policy b) = ''BLOCK'' \<or> upper (bg_policy b) = ''DOWNGRADE'')"

definition active :: "times \<Rightarrow> budget \<Rightarrow> bool" where
  "active tm b = (bg_enabled b \<and> \<not> is_period_expired (tm_check tm) b)"

lemma lock_row_fresh: "lock_row populate_existing held team tbl =
    (case tbl team of None \<Rightarrow> None | Some row \<Rightarrow> if bg_enabled row then Some row else None)"
  by (auto simp: lock_row_def populate_existing_def split: option.splits)

lemma flush_same [simp]: "flush row (row\<lparr>reserved := r\<rparr>) row = row\<lparr>reserved := r\<rparr>"
  "flush row (row\<lparr>reserved := r, current_usage := u\<rparr>) row = row\<lparr>reserved := r, current_usage := u\<rparr>"
  by (simp_all add: flush_def written_def)

lemma store_same: "tbl team = Some row \<Longrightarrow> store team row (row\<lparr>reserved := r\<rparr>) tbl = tbl(team \<mapsto> row\<lparr>reserved := r\<rparr>)"
  "tbl team = Some row \<Longrightarrow> store team row (row\<lparr>reserved := r, current_usage := u\<rparr>) tbl =
     tbl(team \<mapsto> row\<lparr>reserved := r, current_usage := u\<rparr>)"
  by (simp_all add: store_def)

lemma reserve_strict:
  assumes "lock_row keep held team tbl = Some row" "tbl team = Some row" "strict_policy row"
    and "\<not> is_period_expired (tm_check tm) row"
  shows "check_and_reserve keep reread tm thr team est held tbl =
    (if over_limit row est
     then (fst (check_and_reserve keep reread tm thr team est held tbl), None, tbl)
     else (Inr (Some (row\<lparr>reserved := reserved row + est\<rparr>), False),
           Some (row\<lparr>reserved := reserved row + est\<rparr>), tbl(team \<mapsto> row\<lparr>reserved := reserved row + est\<rparr>)))"
    and "over_limit row est \<Longrightarrow> \<exists>e. fst (check_and_reserve keep reread tm thr team est held tbl) = Inl e"
  using assms by (auto simp: check_and_reserve_def apply_rollover_def strict_policy_def Let_def store_same)

lemma reconcile_fresh:
  assumes "tbl team = Some row" "bg_enabled row"
  shows "snd (snd (reconcile populate_existing team est a held tbl)) =
    tbl(team \<mapsto> row\<lparr>reserved := max 0 (reserved row - est), current_usage := max 0 (current_usage row + a)\<rparr>)"
  using assms by (simp add: reconcile_def lock_row_fresh Let_def store_same)

text \<open>A release is a reconciliation that charges nothing.\<close>

lemma release_as_reconcile:
  assumes "tbl team = Some row" "0 \<le> current_usage row"
  shows "snd (release_reservation populate_existing team est held tbl) =
    snd (snd (reconcile populate_existing team est 0 held tbl))"
  using assms by (simp add: release_reservation_def reconcile_def lock_row_fresh Let_def store_same)

text \<open>A budget row under a strict policy, within its period, is a reservation ledger.\<close>

definition budget_ledger ::
  "('i \<Rightarrow> times) \<Rightarrow> ('i \<Rightarrow> real) \<Rightarrow> string \<Rightarrow> budget_table \<Rightarrow> bool" where
  "budget_ledger tm est team tbl = (\<exists>row. tbl team = Some row \<and> bg_enabled row \<and> strict_policy row \<and>
     (\<forall>i. \<not> is_period_expired (tm_check (tm i)) row) \<and> (\<forall>i. 0 \<le> est i) \<and>
     0 \<le> current_usage row \<and> 0 \<le> reserved row)"

definition row_amount :: "(budget \<Rightarrow> real) \<Rightarrow> string \<Rightarrow> budget_table \<Rightarrow> real" where
  "row_amount f team tbl = (case tbl team of None \<Rightarrow> 0 | Some row \<Rightarrow> f row)"

definition request_reserve ::
  "(budget \<Rightarrow> budget \<Rightarrow> budget) \<Rightarrow> (budget \<Rightarrow> exn + budget) \<Rightarrow> ('i \<Rightarrow> times) \<Rightarrow> int \<Rightarrow> ('i \<Rightarrow> real) \<Rightarrow>
   ('i \<Rightarrow> budget option) \<Rightarrow> string \<Rightarrow> 'i \<Rightarrow> budget_table \<Rightarrow> bool \<times> budget_table" where
  "request_reserve keep reread tm thr est sess team i tbl =
     (case check_and_reserve keep reread (tm i) thr team (est i) (sess i) tbl of
        (Inl e, h, tbl') \<Rightarrow> (False, tbl') | (Inr r, h, tbl') \<Rightarrow> (True, tbl'))"

definition request_settle ::
  "(budget \<Rightarrow> budget \<Rightarrow> budget) \<Rightarrow> ('i \<Rightarrow> real) \<Rightarrow> ('i \<Rightarrow> budget option) \<Rightarrow> string \<Rightarrow> 'i \<Rightarrow> real \<Rightarrow>
   budget_table \<Rightarrow> budget_table" where
  "request_settle keep est sess team i a tbl = snd (snd (reconcile keep team (est i) a (sess i) tbl))"

lemma request_reserve_fresh:
  assumes "tbl team = Some row" "bg_enabled row" "strict_policy row" "\<not> is_period_expired (tm_check (tm i)) row"
  shows "request_reserve populate_existing reread tm thr est sess team i tbl =
    (if over_limit row (est i) then (False, tbl) else (True, tbl(team \<mapsto> row\<lparr>reserved := reserved row + est i\<rparr>)))"
proof -
  have lock: "lock_row populate_existing (sess i) team tbl = Some row"
    using assms by (simp add: lock_row_fresh)
  note strict = reserve_strict [OF lock assms(1,3,4), where reread = reread and thr = thr and est = "est i"]
  show ?thesis
  proof (cases "over_limit row (est i)")
    case True
    obtain e where "fst (check_and_reserve populate_existing reread (tm i) thr team (est i) (sess i) tbl) = Inl e"
      using strict(2) True by blast
    with True show ?thesis
      unfolding request_reserve_def by (subst strict(1)) simp
  next
    case False
    then show ?thesis
      unfolding request_reserve_def by (subst strict(1)) simp
  qed
qed

interpretation ledger: reservation_ledger "budget_ledger tm est team" "row_amount current_usage team"
  "row_amount reserved team" "row_amount limit_amount team" est
  "request_reserve populate_existing reread tm thr est sess team" "request_settle populate_existing est sess team"
proof (unfold_locales, goal_cases)
  case (1 s i g s')
  then show ?case
    by (auto simp: budget_ledger_def request_reserve_fresh row_amount_def strict_policy_def is_period_expired_def
        split: if_splits)
next
  case (2 s i s')
  then show ?case
    by (auto simp: budget_ledger_def request_reserve_fresh row_amount_def over_limit_def split: if_splits)
next
  case (3 s i s')
  then show ?case
    by (auto simp: budget_ledger_def request_reserve_fresh split: if_splits)
next
  case (4 s a i)
  then show ?case
    by (auto simp: budget_ledger_def request_settle_def reconcile_fresh row_amount_def strict_policy_def
        is_period_expired_def)
next
  case (5 s i)
  then show ?case by (auto simp: budget_ledger_def)
qed

section \<open>What the reservation life cycle guarantees\<close>


definition example_budget :: budget where
  "example_budget = \<lparr>bg_id = ''b1'', bg_team_id = ''t'', limit_amount = 10, current_usage = 0, reserved = 0,
     bg_period = ''monthly'', period_start = DateTime 2025 1 1 0, period_end = DateTime 2025 2 1 0,
     bg_policy = ''BLOCK'', bg_enabled = True\<rparr>"

definition january :: times where
  "january = \<lparr>tm_check = DateTime 2025 1 20 0, tm_roll = DateTime 2025 1 20 0\<rparr>"

lemma example_budget_facts:
  "strict_policy example_budget" "bg_enabled example_budget" "\<not> is_period_expired (tm_check january) example_budget"
proof -
  have "upper ''BLOCK'' = ''BLOCK''" by code_simp
  then show "strict_policy example_budget"
    by (simp add: strict_policy_def example_budget_def)
  show "bg_enabled example_budget" "\<not> is_period_expired (tm_check january) example_budget"
    by (simp_all add: example_budget_def is_period_expired_def january_def less_eq_datetime_def dt_tuple_def)
qed


definition two_requests ::
  "(budget \<Rightarrow> budget \<Rightarrow> budget) \<Rightarrow> (budget \<Rightarrow> exn + budget) \<Rightarrow> times \<Rightarrow> int \<Rightarrow> string \<Rightarrow> real \<Rightarrow> real \<Rightarrow> real \<Rightarrow> real \<Rightarrow>
   budget_table \<Rightarrow> budget_table" where
  "two_requests keep reread tm thr team est1 est2 a1 a2 tbl =
     (let (r1, held1, tbl) = check_and_reserve keep reread tm thr team est1 None tbl;
          (r2, held2, tbl) = check_and_reserve keep reread tm thr team est2 None tbl;
          (b1, held1, tbl) = reconcile keep team est1 a1 held1 tbl;
          (b2, held2, tbl) = reconcile keep team est2 a2 held2 tbl
      in tbl)"

lemma lock_row_new: "tbl team = Some row \<Longrightarrow> bg_enabled row \<Longrightarrow> lock_row keep None team tbl = Some row"
  by (simp add: lock_row_def)

lemma two_reservations:
  assumes "tbl team = Some row" "bg_enabled row" "strict_policy row" "\<not> is_period_expired (tm_check tm) row"
    and "current_usage row + reserved row + est1 + est2 \<le> limit_amount row" "0 \<le> est2"
  shows "check_and_reserve keep reread tm thr team est1 None tbl =
      (Inr (Some (row\<lparr>reserved := reserved row + est1\<rparr>), False), Some (row\<lparr>reserved := reserved row + est1\<rparr>),
       tbl(team \<mapsto> row\<lparr>reserved := reserved row + est1\<rparr>))"
    and "check_and_reserve keep reread tm thr team est2 None (tbl(team \<mapsto> row\<lparr>reserved := reserved row + est1\<rparr>)) =
      (Inr (Some (row\<lparr>reserved := reserved row + est1 + est2\<rparr>), False),
       Some (row\<lparr>reserved := reserved row + est1 + est2\<rparr>),
       tbl(team \<mapsto> row\<lparr>reserved := reserved row + est1 + est2\<rparr>))"
proof -
  show "check_and_reserve keep reread tm thr team est1 None tbl =
      (Inr (Some (row\<lparr>reserved := reserved row + est1\<rparr>), False), Some (row\<lparr>reserved := reserved row + est1\<rparr>),
       tbl(team \<mapsto> row\<lparr>reserved := reserved row + est1\<rparr>))"
    using assms by (subst reserve_strict(1) [OF lock_row_new]) (auto simp: over_limit_def)
  let ?row = "row\<lparr>reserved := reserved row + est1\<rparr>"
  have "strict_policy ?row" "\<not> is_period_expired (tm_check tm) ?row"
    using assms by (auto simp: strict_policy_def is_period_expired_def)
  then show "check_and_reserve keep reread tm thr team est2 None (tbl(team \<mapsto> ?row)) =
      (Inr (Some (row\<lparr>reserved := reserved row + est1 + est2\<rparr>), False),
       Some (row\<lparr>reserved := reserved row + est1 + est2\<rparr>),
       tbl(team \<mapsto> row\<lparr>reserved := reserved row + est1 + est2\<rparr>))"
    using assms by (subst reserve_strict(1) [OF lock_row_new]) (auto simp: over_limit_def)
qed

text \<open>
  C24: with the ORM's default, the object the session already holds wins over the locked row, and
  concurrent charges are lost: when two requests of a team both reserve before either settles, the
  second settlement overwrites the first, and only its own charge is recorded.
\<close>

theorem overlapping_requests_lose_a_charge:
  assumes "tbl team = Some row" "bg_enabled row" "strict_policy row" "\<not> is_period_expired (tm_check tm) row"
    and "current_usage row + reserved row + est1 + est2 \<le> limit_amount row" "0 \<le> current_usage row"
    and "0 \<le> est2" "0 \<le> a1" "0 < a2"
  shows "(\<exists>row'. two_requests identity_map reread tm thr team est1 est2 a1 a2 tbl team = Some row' \<and>
      current_usage row' = current_usage row + a2) \<and>
    (\<exists>row'. two_requests populate_existing reread tm thr team est1 est2 a1 a2 tbl team = Some row' \<and>
      current_usage row' = current_usage row + a1 + a2)"
  using assms two_reservations [where row = row and ?est1.0 = est1 and ?est2.0 = est2 and tbl = tbl and
      team = team and tm = tm]
  by (simp add: two_requests_def reconcile_def lock_row_def Let_def
      identity_map_def populate_existing_def store_def flush_def written_def)

theorem overlapping_requests_lose_a_charge_witness:
  "\<exists>row'. two_requests identity_map Inr january 80 ''t'' 4 4 4 4 [''t'' \<mapsto> example_budget] ''t'' = Some row' \<and>
     current_usage row' = 4"
  using overlapping_requests_lose_a_charge [of "[''t'' \<mapsto> example_budget]" "''t''" example_budget january 4 4 4 4 Inr 80]
    example_budget_facts by (auto simp: example_budget_def)

text \<open>
  A rollover forgets the requests in flight: it clears their reservations, so settling one of them
  in the new period releases a reservation that belongs to another request.
\<close>

theorem rollover_forgets_in_flight:
  assumes "tbl team = Some row" "bg_enabled row" "strict_policy row" "is_period_expired (tm_check tm) row"
    and "compute_period_end (bg_period row) (tm_roll tm) = Inr e"
    and "reserved row = est1" "0 < est1" "0 < est2" "est2 \<le> limit_amount row"
  shows "\<exists>held row1 row2.
    check_and_reserve populate_existing reread tm thr team est2 None tbl =
      (Inr (Some row1, False), held, tbl(team \<mapsto> row1)) \<and> reserved row1 = est2 \<and>
    reconcile populate_existing team est1 a1 None (tbl(team \<mapsto> row1)) =
      (Some row2, Some row2, tbl(team \<mapsto> row2)) \<and> reserved row2 = max 0 (est2 - est1)"
proof -
  let ?b = "row\<lparr>current_usage := 0, reserved := 0, period_start := tm_roll tm, period_end := e\<rparr>"
  let ?row1 = "?b\<lparr>reserved := est2\<rparr>"
  have flushed: "flush row ?row1 row = ?row1"
    by (simp add: flush_def written_def)
  have "check_and_reserve populate_existing reread tm thr team est2 None tbl =
      (Inr (Some ?row1, False), Some ?row1, tbl(team \<mapsto> ?row1))"
    using assms flushed
    by (auto simp: check_and_reserve_def lock_row_def apply_rollover_def strict_policy_def over_limit_def
        Let_def store_def)
  moreover have "\<exists>row2. reconcile populate_existing team est1 a1 None (tbl(team \<mapsto> ?row1)) =
      (Some row2, Some row2, tbl(team \<mapsto> row2)) \<and> reserved row2 = max 0 (est2 - est1)"
    using assms(2) by (simp add: reconcile_def lock_row_def Let_def store_def flush_def written_def)
  ultimately show ?thesis
    by (metis (no_types, lifting) budget.select_convs(5) budget.surjective budget.update_convs(5))
qed

theorem rollover_forgets_in_flight_witness:
  "\<exists>held row1 row2. check_and_reserve populate_existing Inr
       \<lparr>tm_check = DateTime 2025 2 3 0, tm_roll = DateTime 2025 2 3 0\<rparr> 80 ''t'' 4 None
       [''t'' \<mapsto> example_budget\<lparr>reserved := 6\<rparr>] = (Inr (Some row1, False), held, [''t'' \<mapsto> row1]) \<and>
     reserved row1 = 4 \<and>
     reconcile populate_existing ''t'' 6 6 None [''t'' \<mapsto> row1] = (Some row2, Some row2, [''t'' \<mapsto> row2]) \<and>
     reserved row2 = 0"
proof -
  let ?row = "example_budget\<lparr>reserved := 6\<rparr>"
  let ?tm = "\<lparr>tm_check = DateTime 2025 2 3 0, tm_roll = DateTime 2025 2 3 0\<rparr>"
  have "strict_policy ?row" "bg_enabled ?row"
    using example_budget_facts by (simp_all add: strict_policy_def)
  moreover have "is_period_expired (tm_check ?tm) ?row"
    by (simp add: is_period_expired_def example_budget_def less_eq_datetime_def dt_tuple_def)
  moreover obtain e where "compute_period_end (bg_period ?row) (tm_roll ?tm) = Inr e"
    by (simp add: compute_period_end_def example_budget_def)
  moreover have "limit_amount ?row = 10" by (simp add: example_budget_def)
  ultimately show ?thesis
    using rollover_forgets_in_flight [of "[''t'' \<mapsto> ?row]" "''t''" ?row ?tm e 6 4 Inr 80 6] by auto
qed

text \<open>
  An estimate that does not fit is refused and nothing is reserved, whatever the ORM does; the
  refusal is a \<open>BudgetExceeded\<close> with the remaining amount only if the rolled-back object can still be
  read, otherwise it is the error of that read. A request of a team with no enabled budget passes and
  reserves nothing, and the policy \<open>WARN\<close> never refuses.
\<close>

theorem reservation_decision:
  assumes "tbl team = Some row" "bg_enabled row" "\<not> is_period_expired (tm_check tm) row"
  shows "(strict_policy row \<and> over_limit row est \<longrightarrow>
      (\<exists>e held. check_and_reserve keep reread tm thr team est None tbl = (Inl e, held, tbl) \<and>
        (case reread row of Inl err \<Rightarrow> e = err
         | Inr b \<Rightarrow> \<exists>msg. e = BudgetExceeded msg (Some team) (remaining_amount b)))) \<and>
    (strict_policy row \<and> \<not> over_limit row est \<or> upper (bg_policy row) = ''WARN'' \<longrightarrow>
      (\<exists>warning held. check_and_reserve keep reread tm thr team est None tbl =
        (Inr (Some (row\<lparr>reserved := reserved row + est\<rparr>), warning), held,
         tbl(team \<mapsto> row\<lparr>reserved := reserved row + est\<rparr>)))) \<and>
    check_and_reserve keep reread tm thr team est None (tbl(team \<mapsto> row\<lparr>bg_enabled := False\<rparr>)) =
      (Inr (None, False), None, tbl(team \<mapsto> row\<lparr>bg_enabled := False\<rparr>))"
  using assms
  by (auto simp: check_and_reserve_def lock_row_def apply_rollover_def strict_policy_def Let_def store_same
      reject_def split: sum.splits)

theorem reservation_decision_witness:
  "\<exists>e. fst (check_and_reserve identity_map (\<lambda>b. Inl (Exn ExceptionC ''MissingGreenlet'')) january 80 ''t'' 11 None
      [''t'' \<mapsto> example_budget]) = Inl e \<and> e = Exn ExceptionC ''MissingGreenlet''"
  using reservation_decision [of "[''t'' \<mapsto> example_budget]" "''t''" example_budget january 11 identity_map
      "\<lambda>b. Inl (Exn ExceptionC ''MissingGreenlet'')" 80] example_budget_facts
  by (auto simp: over_limit_def example_budget_def)

section \<open>The admin endpoints\<close>

text \<open>
  \<open>teams\<close> lists the (team, organization) pairs of the team table; \<open>org\<close> is the organization of the
  authenticated admin. The response carries the row and its derived figures.
\<close>

definition resolve_team :: "(string \<times> string) list \<Rightarrow> string \<Rightarrow> string \<Rightarrow> exn option" where
  "resolve_team teams org team =
     (if List.member teams (team, org) then None
      else Some (HTTPException 403 ''Team not found in your organization.''))"

definition post_budget ::
  "(string \<times> string) list \<Rightarrow> string \<Rightarrow> string \<times> datetime \<times> string \<times> budget_create \<Rightarrow> budget_table \<Rightarrow>
   (exn + budget) \<times> budget_table" where
  "post_budget teams org = (\<lambda>(new_id, now, team, body) tbl. case validate_budget_create body of
     Inl err \<Rightarrow> (Inl err, tbl)
   | Inr d \<Rightarrow> (case resolve_team teams org team of
        Some err \<Rightarrow> (Inl err, tbl)
      | None \<Rightarrow> (case create_budget new_id now team d tbl of
            (Inl err, tbl') \<Rightarrow> (Inl (HTTPException 409 (message_of err)), tbl')
          | (Inr b, tbl') \<Rightarrow> (Inr b, tbl'))))"

definition read_budget :: "(string \<times> string) list \<Rightarrow> string \<Rightarrow> string \<Rightarrow> budget_table \<Rightarrow> exn + budget" where
  "read_budget teams org team tbl = (case resolve_team teams org team of
     Some err \<Rightarrow> Inl err
   | None \<Rightarrow> (case get_budget team tbl of
        None \<Rightarrow> Inl (HTTPException 404 (''No budget configured for team '' @ repr team @ ''.''))
      | Some b \<Rightarrow> Inr b))"

definition patch_budget ::
  "(string \<times> string) list \<Rightarrow> string \<Rightarrow> string \<Rightarrow> budget_update \<Rightarrow> budget_table \<Rightarrow> (exn + budget) \<times> budget_table" where
  "patch_budget teams org team body tbl = (case validate_budget_update body of
     Inl err \<Rightarrow> (Inl err, tbl)
   | Inr d \<Rightarrow> (case resolve_team teams org team of
        Some err \<Rightarrow> (Inl err, tbl)
      | None \<Rightarrow> (case update_budget team d tbl of
            (Inl err, tbl') \<Rightarrow> (Inl (HTTPException 404 (message_of err)), tbl')
          | (Inr b, tbl') \<Rightarrow> (Inr b, tbl'))))"

definition remove_budget ::
  "(string \<times> string) list \<Rightarrow> string \<Rightarrow> string \<Rightarrow> budget_table \<Rightarrow> (exn + unit) \<times> budget_table" where
  "remove_budget teams org team tbl = (case resolve_team teams org team of
     Some err \<Rightarrow> (Inl err, tbl)
   | None \<Rightarrow> (case delete_budget team tbl of
        (False, tbl') \<Rightarrow> (Inl (HTTPException 404 (''No budget configured for team '' @ repr team @ ''.'')), tbl')
      | (True, tbl') \<Rightarrow> (Inr (), tbl')))"

definition wf_budget :: "budget \<Rightarrow> bool" where
  "wf_budget b = (0 \<le> limit_amount b \<and> bg_period b \<in> set budget_periods \<and> bg_policy b \<in> set budget_policies)"

definition wf_budgets :: "budget_table \<Rightarrow> bool" where
  "wf_budgets tbl = (\<forall>t b. tbl t = Some b \<longrightarrow> bg_team_id b = t \<and> wf_budget b)"

text \<open>The part of the table an admin of \<open>org\<close> can address.\<close>

definition visible :: "(string \<times> string) list \<Rightarrow> string \<Rightarrow> (string \<Rightarrow> 'r option) \<Rightarrow> string \<Rightarrow> 'r option" where
  "visible teams org tbl t = (if (t, org) \<in> set teams then tbl t else None)"

lemma visible_upd: "(t, org) \<in> set teams \<Longrightarrow> visible teams org (tbl(t := v)) = (visible teams org tbl)(t := v)"
  by (auto simp: visible_def fun_eq_iff)

lemma resolve_team_None: "resolve_team teams org t = None \<longleftrightarrow> (t, org) \<in> set teams"
  by (simp add: resolve_team_def List.member_iff)

lemma create_wf:
  assumes "validate_budget_create body = Inr d" "wf_budgets tbl"
  shows "wf_budgets (snd (create_budget i now t d tbl))"
  using assms known_period
  by (auto simp: create_budget_def validate_budget_create_def wf_budgets_def wf_budget_def List.member_iff
      Let_def py_round_nonneg split: if_splits option.splits sum.splits)

lemma update_wf:
  assumes "validate_budget_update body = Inr d" "wf_budgets tbl"
  shows "wf_budgets (snd (update_budget t d tbl))"
  using assms
  by (auto simp: update_budget_def get_budget_def validate_budget_update_def wf_budgets_def wf_budget_def
      or_else_def List.member_iff Let_def split: if_splits option.splits)

lemma delete_wf: "wf_budgets tbl \<Longrightarrow> wf_budgets (snd (delete_budget t tbl))"
  by (auto simp: delete_budget_def wf_budgets_def split: option.splits)

lemma post_budget_Inr:
  assumes "post_budget teams org (i, now, t, body) tbl = (Inr b, tbl')"
  shows "(t, org) \<in> set teams \<and> tbl t = None \<and> bg_team_id b = t \<and> tbl' = tbl(t \<mapsto> b)"
  using assms
  by (auto simp: post_budget_def create_budget_def get_budget_def Let_def resolve_team_None
      split: sum.splits option.splits prod.splits)

lemma post_budget_Inl: "post_budget teams org a tbl = (Inl e, tbl') \<Longrightarrow> tbl' = tbl"
  by (auto simp: post_budget_def create_budget_def Let_def split: sum.splits option.splits prod.splits)

lemma patch_budget_Inr:
  assumes "patch_budget teams org t body tbl = (Inr b, tbl')"
  shows "(t, org) \<in> set teams \<and> tbl t \<noteq> None \<and> tbl' = tbl(t \<mapsto> b)"
  using assms
  by (auto simp: patch_budget_def update_budget_def get_budget_def Let_def resolve_team_None
      split: sum.splits option.splits prod.splits)

lemma patch_budget_Inl: "patch_budget teams org t body tbl = (Inl e, tbl') \<Longrightarrow> tbl' = tbl"
  by (auto simp: patch_budget_def update_budget_def Let_def split: sum.splits option.splits prod.splits)

lemma remove_budget_Inr:
  assumes "remove_budget teams org t tbl = (Inr u, tbl')"
  shows "(t, org) \<in> set teams \<and> tbl t \<noteq> None \<and> tbl' = tbl(t := None)"
  using assms
  by (auto simp: remove_budget_def delete_budget_def get_budget_def resolve_team_None
      split: option.splits prod.splits bool.splits)

lemma remove_budget_Inl:
  "remove_budget teams org t tbl = (Inl e, tbl') \<Longrightarrow> tbl' = tbl \<and> visible teams org tbl t = None"
  by (auto simp: remove_budget_def delete_budget_def get_budget_def resolve_team_def visible_def List.member_iff
      split: option.splits prod.splits bool.splits if_splits)

lemma post_budget_wf:
  assumes "wf_budgets tbl"
  shows "wf_budgets (snd (post_budget teams org (i, now, t, body) tbl))"
  using assms create_wf [of body _ tbl i now t]
  by (auto simp: post_budget_def split: sum.splits option.splits prod.splits)

lemma patch_budget_wf: "wf_budgets tbl \<Longrightarrow> wf_budgets (snd (patch_budget teams org t body tbl))"
  using update_wf [of body _ tbl t] by (auto simp: patch_budget_def split: sum.splits option.splits prod.splits)

lemma remove_budget_wf: "wf_budgets tbl \<Longrightarrow> wf_budgets (snd (remove_budget teams org t tbl))"
  using delete_wf [of tbl t] by (auto simp: remove_budget_def split: option.splits prod.splits bool.splits)

interpretation budget_admin: crud "visible teams org" bg_team_id wf_budgets "post_budget teams org"
  "patch_budget teams org" "remove_budget teams org"
proof (unfold_locales, goal_cases)
  case (1 s i r)
  then show ?case by (auto simp: visible_def wf_budgets_def split: if_splits)
next
  case (2 s a r s')
  obtain i now t body where a: "a = (i, now, t, body)" by (cases a) auto
  show ?case
    using post_budget_Inr [OF 2(2) [unfolded a]] by (auto simp: visible_upd) (simp add: visible_def)
next
  case (3 s a e s')
  show ?case using post_budget_Inl [OF 3(2)] by simp
next
  case (4 s i u r s')
  show ?case
    using patch_budget_Inr [OF 4(2)] by (auto simp: visible_upd) (simp add: visible_def)
next
  case (5 s i u e s')
  show ?case using patch_budget_Inl [OF 5(2)] by simp
next
  case (6 s i d s')
  show ?case
    using remove_budget_Inr [OF 6(2)] by (auto simp: visible_upd) (simp add: visible_def)
next
  case (7 s i e s')
  show ?case using remove_budget_Inl [OF 7(2)] by simp
next
  case (8 s a)
  then show ?case using post_budget_wf by (cases a) auto
qed (simp_all add: patch_budget_wf remove_budget_wf)

lemma budget_step_other_org:
  assumes "(t, org) \<notin> set teams"
  shows "snd (crud_step bg_team_id (post_budget teams org) (patch_budget teams org) (remove_budget teams org) op tbl) t = tbl t"
proof (cases op)
  case (Create a)
  obtain i now t' body where a: "a = (i, now, t', body)" by (cases a) auto
  obtain res tbl' where eq: "post_budget teams org (i, now, t', body) tbl = (res, tbl')" by (meson surj_pair)
  have "tbl' t = tbl t"
  proof (cases res)
    case (Inl e)
    then show ?thesis using post_budget_Inl [OF eq [unfolded Inl]] by simp
  next
    case (Inr b)
    then show ?thesis using post_budget_Inr [OF eq [unfolded Inr]] assms by auto
  qed
  then show ?thesis unfolding Create a snd_crud_step eq by simp
next
  case (Update t' u)
  obtain res tbl' where eq: "patch_budget teams org t' u tbl = (res, tbl')" by (meson surj_pair)
  have "tbl' t = tbl t"
  proof (cases res)
    case (Inl e)
    then show ?thesis using patch_budget_Inl [OF eq [unfolded Inl]] by simp
  next
    case (Inr b)
    then show ?thesis using patch_budget_Inr [OF eq [unfolded Inr]] assms by auto
  qed
  then show ?thesis unfolding Update snd_crud_step eq by simp
next
  case (Delete t')
  obtain res tbl' where eq: "remove_budget teams org t' tbl = (res, tbl')" by (meson surj_pair)
  have "tbl' t = tbl t"
  proof (cases res)
    case (Inl e)
    then show ?thesis using remove_budget_Inl [OF eq [unfolded Inl]] by simp
  next
    case (Inr b)
    then show ?thesis using remove_budget_Inr [OF eq [unfolded Inr]] assms by auto
  qed
  then show ?thesis unfolding Delete snd_crud_step eq by simp
qed

text \<open>
  The budget endpoints are a table per organization: after any sequence of requests by an admin, the
  rows of the admin's teams read back as the successful requests left them and are well formed, and no
  row of another organization's team has changed.
\<close>

theorem budget_admin_tenant_table:
  assumes "wf_budgets tbl"
    and "crud_run bg_team_id (post_budget teams org) (patch_budget teams org) (remove_budget teams org) ops tbl = (cs, tbl')"
  shows "wf_budgets tbl' \<and> visible teams org tbl' = fold apply_change cs (visible teams org tbl) \<and>
    (\<forall>t. (t, org) \<notin> set teams \<longrightarrow> tbl' t = tbl t)"
proof (intro conjI allI impI)
  show "wf_budgets tbl'" "visible teams org tbl' = fold apply_change cs (visible teams org tbl)"
    using budget_admin.run_refines [OF assms] by auto
  show "tbl' t = tbl t" if t: "(t, org) \<notin> set teams" for t
    using assms(2)
  proof (induction ops arbitrary: tbl cs)
    case Nil
    then show ?case by simp
  next
    case (Cons op ops)
    let ?step = "crud_step bg_team_id (post_budget teams org) (patch_budget teams org) (remove_budget teams org)"
    let ?run = "crud_run bg_team_id (post_budget teams org) (patch_budget teams org) (remove_budget teams org)"
    obtain c1 tbl1 where step: "?step op tbl = (c1, tbl1)" by (meson surj_pair)
    obtain c2 where run: "?run ops tbl1 = (c2, tbl')"
      using Cons.prems step by (cases "?run ops tbl1") simp
    show ?case
      using Cons.IH [OF run] budget_step_other_org [OF t, of op tbl] step by simp
  qed
qed

theorem budget_admin_tenant_table_witness:
  "\<exists>cs tbl'. crud_run bg_team_id (post_budget [(''t'', ''o'')] ''other'') (patch_budget [(''t'', ''o'')] ''other'')
      (remove_budget [(''t'', ''o'')] ''other'') [Delete ''t''] [''t'' \<mapsto> example_budget] = (cs, tbl') \<and>
    tbl' ''t'' = Some example_budget"
proof -
  obtain cs tbl' where run: "crud_run bg_team_id (post_budget [(''t'', ''o'')] ''other'') (patch_budget [(''t'', ''o'')] ''other'')
      (remove_budget [(''t'', ''o'')] ''other'') [Delete ''t''] [''t'' \<mapsto> example_budget] = (cs, tbl')"
    by (meson surj_pair)
  have "wf_budgets [''t'' \<mapsto> example_budget]"
    by (simp add: wf_budgets_def wf_budget_def example_budget_def budget_periods_def budget_policies_def)
  from budget_admin_tenant_table [OF this run] have "tbl' ''t'' = Some example_budget"
    by simp
  with run show ?thesis by blast
qed

end
