(* ===== verification/Policy.thy ===== *)
theory Policy
  imports Overrides Budget Routing
begin

text \<open>
  Team policies (\<open>app/policy\<close>, \<open>api/v1/endpoints/policy.py\<close>): the sections with their validators, the
  stored row, the resolver that merges a partial policy onto the global default, and the admin
  endpoints. A body is taken after parsing and type coercion: the sections present in it with their
  values not yet validated. Row timestamps are left out.
\<close>

section \<open>Sections\<close>

record guardrails_policy =
  max_prompt_length :: "int option"
  pii_detection :: string
  injection_detection :: string

record experiment_arm =
  arm_name :: string
  arm_provider :: string
  arm_model :: string
  arm_weight :: int

record experiment_config =
  ex_enabled :: bool
  ex_id :: string
  ex_version :: int
  ex_type :: string
  ex_arms :: "experiment_arm list"

text \<open>\<open>TeamPolicyInput\<close>: a section is a strategy, a flag, an action or a record.\<close>

record team_policy_input =
  in_routing :: "string option"
  in_fallback :: "bool option"
  in_budget :: "string option"
  in_cache :: "bool option"
  in_experiment :: "experiment_config option"
  in_guardrails :: "guardrails_policy option"

datatype policy_source = Global | Team

record resolved_policy =
  rp_routing :: string
  rp_fallback :: bool
  rp_budget :: string
  rp_cache :: bool
  rp_source :: policy_source
  rp_experiment :: "experiment_config option"
  rp_guardrails :: guardrails_policy

definition no_guardrails :: guardrails_policy where
  "no_guardrails = \<lparr>max_prompt_length = None, pii_detection = ''off'', injection_detection = ''off''\<rparr>"

definition global_default_policy :: resolved_policy where
  "global_default_policy = \<lparr>rp_routing = ''auto'', rp_fallback = True, rp_budget = ''BLOCK'', rp_cache = False,
     rp_source = Global, rp_experiment = None, rp_guardrails = no_guardrails\<rparr>"

section \<open>Validators\<close>

definition strategies :: "string list" where
  "strategies = [''manual'', ''auto'', ''lowest_cost'', ''lowest_latency'', ''best_available'', ''capability_based'']"

definition actions :: "string list" where
  "actions = [''BLOCK'', ''WARN'', ''DOWNGRADE'']"

definition detections :: "string list" where
  "detections = [''off'', ''warn'', ''block'']"

definition normalise_action :: "string \<Rightarrow> string" where
  "normalise_action v = upper (strip v)"

definition validate_arm :: "experiment_arm \<Rightarrow> experiment_arm option" where
  "validate_arm a =
     (if 0 < arm_weight a \<and> strip (arm_name a) \<noteq> [] \<and> strip (arm_provider a) \<noteq> [] \<and> strip (arm_model a) \<noteq> []
      then Some \<lparr>arm_name = strip (arm_name a), arm_provider = lower (strip (arm_provider a)),
             arm_model = strip (arm_model a), arm_weight = arm_weight a\<rparr>
      else None)"

fun map_all :: "('a \<Rightarrow> 'b option) \<Rightarrow> 'a list \<Rightarrow> 'b list option" where
  "map_all f [] = Some []"
| "map_all f (x # xs) = (case f x of None \<Rightarrow> None
     | Some y \<Rightarrow> (case map_all f xs of None \<Rightarrow> None | Some ys \<Rightarrow> Some (y # ys)))"

definition validate_arms :: "experiment_arm list \<Rightarrow> bool" where
  "validate_arms arms = (length arms \<ge> 2 \<and> distinct (map arm_name arms) \<and> sum_list (map arm_weight arms) = 100)"

definition validate_experiment :: "experiment_config \<Rightarrow> experiment_config option" where
  "validate_experiment x =
     (if strip (ex_id x) = [] \<or> ex_version x < 1 \<or> \<not> List.member [''ab_test'', ''canary''] (ex_type x) then None
      else (case map_all validate_arm (ex_arms x) of
          None \<Rightarrow> None
        | Some arms \<Rightarrow> if validate_arms arms then Some (x\<lparr>ex_id := strip (ex_id x), ex_arms := arms\<rparr>) else None))"

text \<open>An optional section: absent, or present and valid.\<close>

definition section_ok :: "('a \<Rightarrow> bool) \<Rightarrow> 'a option \<Rightarrow> bool" where
  "section_ok P v = (case v of None \<Rightarrow> True | Some x \<Rightarrow> P x)"

definition guardrails_ok :: "guardrails_policy \<Rightarrow> bool" where
  "guardrails_ok g = (List.member detections (pii_detection g) \<and> List.member detections (injection_detection g))"

text \<open>\<open>TeamPolicyInput.model_validate\<close>; \<open>None\<close> for a validation error\<close>

definition validate_policy :: "team_policy_input \<Rightarrow> team_policy_input option" where
  "validate_policy p =
     (let budget = map_option normalise_action (in_budget p) in
      if section_ok (List.member strategies) (in_routing p) \<and> section_ok (List.member actions) budget \<and>
         section_ok guardrails_ok (in_guardrails p)
      then (case in_experiment p of
          None \<Rightarrow> Some (p\<lparr>in_budget := budget\<rparr>)
        | Some x \<Rightarrow> (case validate_experiment x of
            None \<Rightarrow> None
          | Some x' \<Rightarrow> Some (p\<lparr>in_budget := budget, in_experiment := Some x'\<rparr>)))
      else None)"

section \<open>Service\<close>

record team_policy_row =
  pol_policy :: team_policy_input
  pol_enabled :: bool

type_synonym policy_table = "string \<Rightarrow> team_policy_row option"

definition get_policy_model :: "string \<Rightarrow> policy_table \<Rightarrow> team_policy_row option" where
  "get_policy_model team tbl = (case tbl team of
     None \<Rightarrow> None | Some row \<Rightarrow> if pol_enabled row then Some row else None)"

definition get_policy_dict :: "string \<Rightarrow> policy_table \<Rightarrow> team_policy_input option" where
  "get_policy_dict team tbl = map_option pol_policy (get_policy_model team tbl)"

definition upsert_policy :: "string \<Rightarrow> team_policy_input \<Rightarrow> policy_table \<Rightarrow> team_policy_row \<times> policy_table" where
  "upsert_policy team p tbl =
     (let row = \<lparr>pol_policy = p, pol_enabled = True\<rparr> in (row, tbl(team \<mapsto> row)))"

definition delete_policy :: "string \<Rightarrow> policy_table \<Rightarrow> bool \<times> policy_table" where
  "delete_policy team tbl = (case get_policy_model team tbl of
     None \<Rightarrow> (False, tbl) | Some row \<Rightarrow> (True, tbl(team := None)))"

section \<open>Resolver\<close>

definition merge_policy :: "team_policy_input \<Rightarrow> resolved_policy" where
  "merge_policy raw = (case validate_policy raw of
     None \<Rightarrow> global_default_policy
   | Some p \<Rightarrow> (let g = global_default_policy in
      \<lparr>rp_routing = or_else (in_routing p) (rp_routing g),
       rp_fallback = or_else (in_fallback p) (rp_fallback g),
       rp_budget = or_else (in_budget p) (rp_budget g),
       rp_cache = or_else (in_cache p) (rp_cache g),
       rp_source = Team,
       rp_experiment = in_experiment p,
       rp_guardrails = or_else (in_guardrails p) (rp_guardrails g)\<rparr>))"

text \<open>The table, or the error of reading it.\<close>

definition resolve :: "string option \<Rightarrow> exn + policy_table \<Rightarrow> resolved_policy" where
  "resolve team db = (case team of
     None \<Rightarrow> global_default_policy
   | Some t \<Rightarrow> if t = [] then global_default_policy
       else (case db of
           Inl e \<Rightarrow> global_default_policy
         | Inr tbl \<Rightarrow> (case get_policy_dict t tbl of
             None \<Rightarrow> global_default_policy | Some raw \<Rightarrow> merge_policy raw)))"

section \<open>Endpoints\<close>

text \<open>
  An arm with an unknown provider: the message calls \<open>registry.provider_names()\<close>, but
  \<open>provider_names\<close> is a property, so a list is called.
\<close>

definition provider_names :: "provider_registry \<Rightarrow> string list" where
  "provider_names reg = sort (map fst reg)"

definition list_called :: exn where
  "list_called = Exn TypeErrorC '''list' object is not callable''"

definition validate_experiment_arms :: "provider_registry \<Rightarrow> experiment_config \<Rightarrow> exn option" where
  "validate_experiment_arms reg x =
     (if list_all (\<lambda>a. is_registered (arm_provider a) reg) (ex_arms x) then None else Some list_called)"

text \<open>The body as parsed: \<open>Inl\<close> with the detail of a body that is malformed or not an object.\<close>

definition parse_policy_body :: "string + team_policy_input \<Rightarrow> exn + team_policy_input" where
  "parse_policy_body body = (case body of
     Inl detail \<Rightarrow> Inl (HTTPException 422 detail)
   | Inr p \<Rightarrow> (case validate_policy p of
       None \<Rightarrow> Inl (HTTPException 422 ''validation errors'') | Some p' \<Rightarrow> Inr p'))"

definition put_policy ::
  "provider_registry \<Rightarrow> (string \<times> string) list \<Rightarrow> string \<Rightarrow> string \<Rightarrow> string + team_policy_input \<Rightarrow> policy_table \<Rightarrow>
   (exn + team_policy_row) \<times> policy_table" where
  "put_policy reg teams org team body tbl = (case resolve_team teams org team of
     Some err \<Rightarrow> (Inl err, tbl)
   | None \<Rightarrow> (case parse_policy_body body of
       Inl err \<Rightarrow> (Inl err, tbl)
     | Inr p \<Rightarrow> (case (case in_experiment p of
            Some x \<Rightarrow> if ex_enabled x then validate_experiment_arms reg x else None | None \<Rightarrow> None) of
         Some err \<Rightarrow> (Inl err, tbl)
       | None \<Rightarrow> (case upsert_policy team p tbl of (row, tbl') \<Rightarrow> (Inr row, tbl')))))"

definition read_policy ::
  "(string \<times> string) list \<Rightarrow> string \<Rightarrow> string \<Rightarrow> policy_table \<Rightarrow> exn + resolved_policy" where
  "read_policy teams org team tbl = (case resolve_team teams org team of
     Some err \<Rightarrow> Inl err | None \<Rightarrow> Inr (resolve (Some team) (Inr tbl)))"

definition remove_policy ::
  "(string \<times> string) list \<Rightarrow> string \<Rightarrow> string \<Rightarrow> policy_table \<Rightarrow> (exn + unit) \<times> policy_table" where
  "remove_policy teams org team tbl = (case resolve_team teams org team of
     Some err \<Rightarrow> (Inl err, tbl)
   | None \<Rightarrow> (case delete_policy team tbl of
       (True, tbl') \<Rightarrow> (Inr (), tbl')
     | (False, tbl') \<Rightarrow> (Inl (HTTPException 404 (''No policy configured for team '' @ repr team @ ''.'')), tbl')))"

section \<open>Validation is idempotent\<close>

lemma validate_arm_idem: "validate_arm a = Some b \<Longrightarrow> validate_arm b = Some b"
  by (auto simp: validate_arm_def key_simps split: if_splits)

lemma map_all_idem: "map_all f xs = Some ys \<Longrightarrow> (\<And>x y. f x = Some y \<Longrightarrow> f y = Some y) \<Longrightarrow> map_all f ys = Some ys"
proof (induction xs arbitrary: ys)
  case Nil
  then show ?case by simp
next
  case (Cons x xs)
  from Cons.prems(1) obtain y zs where "f x = Some y" "map_all f xs = Some zs" "ys = y # zs"
    by (auto split: option.splits)
  with Cons.IH [of zs] Cons.prems(2) show ?case by simp
qed

lemma validate_experiment_idem:
  assumes "validate_experiment x = Some y"
  shows "validate_experiment y = Some y"
proof -
  from assms obtain arms where arms: "map_all validate_arm (ex_arms x) = Some arms" "validate_arms arms"
    and y: "y = x\<lparr>ex_id := strip (ex_id x), ex_arms := arms\<rparr>"
    and ok: "strip (ex_id x) \<noteq> []" "\<not> ex_version x < 1" "List.member [''ab_test'', ''canary''] (ex_type x)"
    by (auto simp: validate_experiment_def split: if_splits option.splits)
  have "map_all validate_arm arms = Some arms"
    by (rule map_all_idem [OF arms(1)]) (rule validate_arm_idem)
  with arms(2) ok y show ?thesis
    by (simp add: validate_experiment_def)
qed

lemma known_action: "List.member actions a \<Longrightarrow> normalise_action a = a"
  by (auto simp: actions_def List.member_iff normalise_action_def strip_def lstrip_def is_space_def upper_def
      upper_char_def)

lemma validate_policy_idem:
  assumes "validate_policy p = Some q"
  shows "validate_policy q = Some q"
proof -
  have ok: "section_ok (List.member strategies) (in_routing p)" "section_ok guardrails_ok (in_guardrails p)"
    "section_ok (List.member actions) (map_option normalise_action (in_budget p))"
    and q: "q = p\<lparr>in_budget := map_option normalise_action (in_budget p), in_experiment := in_experiment q\<rparr>"
    and x: "in_experiment q = None \<or> (\<exists>y z. validate_experiment y = Some z \<and> in_experiment q = Some z)"
    using assms by (auto simp: validate_policy_def Let_def split: if_splits option.splits)
  have fields: "in_routing q = in_routing p" "in_guardrails q = in_guardrails p"
    "in_budget q = map_option normalise_action (in_budget p)"
    by (subst q, simp)+
  have "map_option normalise_action (in_budget q) = in_budget q"
    using ok(3) fields(3) by (cases "in_budget p") (auto simp: section_ok_def known_action)
  then show ?thesis
    using ok x fields validate_experiment_idem by (auto simp: validate_policy_def Let_def)
qed

lemma valid_arms:
  assumes "validate_experiment x = Some y"
  shows "length (ex_arms y) \<ge> 2 \<and> distinct (map arm_name (ex_arms y)) \<and> sum_list (map arm_weight (ex_arms y)) = 100 \<and>
    (\<forall>a \<in> set (ex_arms y). 0 < arm_weight a)"
proof -
  from assms obtain arms where arms: "map_all validate_arm (ex_arms x) = Some arms" "validate_arms arms"
    and y: "ex_arms y = arms"
    by (auto simp: validate_experiment_def split: if_splits option.splits)
  have "0 < arm_weight a" if "map_all validate_arm xs = Some ys" "a \<in> set ys" for xs ys a
    using that
  proof (induction xs arbitrary: ys)
    case (Cons x xs)
    then show ?case by (auto simp: validate_arm_def split: option.splits if_splits)
  qed simp
  with arms y show ?thesis by (auto simp: validate_arms_def)
qed

section \<open>The endpoints as a table\<close>

definition policy_of :: "(string \<times> string) list \<Rightarrow> string \<Rightarrow> policy_table \<Rightarrow> string \<Rightarrow> team_policy_row option" where
  "policy_of teams org tbl = visible teams org (\<lambda>t. get_policy_model t tbl)"

lemma put_policy_outcome:
  "(\<exists>e. put_policy reg teams org t body tbl = (Inl e, tbl)) \<or>
   (t, org) \<in> set teams \<and> (\<exists>p q. body = Inr p \<and> validate_policy p = Some q \<and>
     put_policy reg teams org t body tbl = (Inr \<lparr>pol_policy = q, pol_enabled = True\<rparr>,
       tbl(t \<mapsto> \<lparr>pol_policy = q, pol_enabled = True\<rparr>)))"
  by (auto simp: put_policy_def parse_policy_body_def upsert_policy_def Let_def resolve_team_def List.member_iff
      split: option.splits sum.splits)

lemma remove_policy_outcome:
  "(\<exists>e. remove_policy teams org t tbl = (Inl e, tbl)) \<and> policy_of teams org tbl t = None \<or>
   (t, org) \<in> set teams \<and> policy_of teams org tbl t \<noteq> None \<and>
     remove_policy teams org t tbl = (Inr (), tbl(t := None))"
  by (cases "get_policy_model t tbl")
    (simp_all add: remove_policy_def delete_policy_def resolve_team_def policy_of_def visible_def List.member_iff)

lemma policy_of_upd [simp]:
  assumes "(t, org) \<in> set teams"
  shows "policy_of teams org (tbl(t \<mapsto> \<lparr>pol_policy = q, pol_enabled = True\<rparr>)) =
      (policy_of teams org tbl)(t \<mapsto> \<lparr>pol_policy = q, pol_enabled = True\<rparr>)"
    and "policy_of teams org (tbl(t := None)) = (policy_of teams org tbl)(t := None)"
  using assms by (auto simp: policy_of_def visible_def get_policy_model_def fun_eq_iff)

interpretation policy_admin: override_table "policy_of teams org" "put_policy reg teams org" "remove_policy teams org"
proof (unfold_locales, goal_cases)
  case (1 t body tbl row tbl')
  then show ?case using put_policy_outcome [of reg teams org t body tbl] by auto
next
  case (2 t body tbl e tbl')
  then show ?case using put_policy_outcome [of reg teams org t body tbl] by auto
next
  case (3 t tbl d tbl')
  then show ?case using remove_policy_outcome [of teams org t tbl] by auto
next
  case (4 t tbl e tbl')
  then show ?case using remove_policy_outcome [of teams org t tbl] by auto
qed

lemma policy_step_other_org:
  assumes "(t, org) \<notin> set teams"
  shows "snd (override_step (put_policy reg teams org) (remove_policy teams org) op tbl) t = tbl t"
proof (cases op)
  case (Put_row t' body)
  then show ?thesis
    using assms put_policy_outcome [of reg teams org t' body tbl] by auto
next
  case (Drop_row t')
  then show ?thesis
    using assms remove_policy_outcome [of teams org t' tbl] by auto
qed

section \<open>What the policy store guarantees\<close>

text \<open>What a valid body resolves to.\<close>

definition resolved_of :: "team_policy_input \<Rightarrow> resolved_policy" where
  "resolved_of q = \<lparr>rp_routing = or_else (in_routing q) ''auto'', rp_fallback = or_else (in_fallback q) True,
     rp_budget = or_else (in_budget q) ''BLOCK'', rp_cache = or_else (in_cache q) False, rp_source = Team,
     rp_experiment = in_experiment q, rp_guardrails = or_else (in_guardrails q) no_guardrails\<rparr>"

definition arms_registered :: "provider_registry \<Rightarrow> team_policy_input \<Rightarrow> bool" where
  "arms_registered reg q = (\<forall>x. in_experiment q = Some x \<and> ex_enabled x \<longrightarrow>
     (\<forall>a \<in> set (ex_arms x). is_registered (arm_provider a) reg))"

lemma merge_valid: "validate_policy p = Some q \<Longrightarrow> merge_policy q = resolved_of q"
  by (simp add: merge_policy_def validate_policy_idem Let_def resolved_of_def global_default_policy_def)

lemma put_valid:
  assumes "(t, org) \<in> set teams" "validate_policy p = Some q" "arms_registered reg q"
  shows "put_policy reg teams org t (Inr p) tbl =
    (Inr \<lparr>pol_policy = q, pol_enabled = True\<rparr>, tbl(t \<mapsto> \<lparr>pol_policy = q, pol_enabled = True\<rparr>))"
  using assms
  by (auto simp: put_policy_def parse_policy_body_def upsert_policy_def Let_def resolve_team_def List.member_iff
      arms_registered_def validate_experiment_arms_def list_all_iff split: option.splits)

text \<open>
  A valid policy survives storage: after a PUT the team resolves to exactly the sections given, in
  their normalised form, and the defaults for the others; a stored policy passes validation again
  unchanged; other teams resolve as before; a DELETE, or a database that cannot be read, brings the
  global default back.
\<close>

theorem put_policy_resolves:
  assumes "(t, org) \<in> set teams" "t \<noteq> []" "validate_policy p = Some q" "arms_registered reg q"
  shows "\<exists>row tbl'. put_policy reg teams org t (Inr p) tbl = (Inr row, tbl') \<and>
    resolve (Some t) (Inr tbl') = resolved_of q \<and> validate_policy q = Some q \<and>
    (\<forall>t'. t' \<noteq> t \<longrightarrow> resolve (Some t') (Inr tbl') = resolve (Some t') (Inr tbl)) \<and>
    resolve (Some t) (Inr (snd (remove_policy teams org t tbl'))) = global_default_policy \<and>
    resolve (Some t) (Inl e) = global_default_policy"
  using assms put_valid [OF assms(1,3,4), of tbl] merge_valid [OF assms(3)] validate_policy_idem [OF assms(3)]
  by (auto simp: resolve_def get_policy_dict_def get_policy_model_def remove_policy_def delete_policy_def
      resolve_team_def List.member_iff)

definition example_policy :: team_policy_input where
  "example_policy = \<lparr>in_routing = Some ''lowest_cost'', in_fallback = None, in_budget = Some '' downgrade'',
     in_cache = None, in_experiment = Some \<lparr>ex_enabled = True, ex_id = ''e1'', ex_version = 1, ex_type = ''canary'',
       ex_arms = [\<lparr>arm_name = ''stable'', arm_provider = ''Groq'', arm_model = ''m1'', arm_weight = 95\<rparr>,
         \<lparr>arm_name = ''canary'', arm_provider = ''groq'', arm_model = ''m2'', arm_weight = 5\<rparr>]\<rparr>,
     in_guardrails = None\<rparr>"

definition example_policy_valid :: team_policy_input where
  "example_policy_valid = example_policy\<lparr>in_budget := Some ''DOWNGRADE'',
     in_experiment := Some \<lparr>ex_enabled = True, ex_id = ''e1'', ex_version = 1, ex_type = ''canary'',
       ex_arms = [\<lparr>arm_name = ''stable'', arm_provider = ''groq'', arm_model = ''m1'', arm_weight = 95\<rparr>,
         \<lparr>arm_name = ''canary'', arm_provider = ''groq'', arm_model = ''m2'', arm_weight = 5\<rparr>]\<rparr>\<rparr>"

lemma example_policy_validates: "validate_policy example_policy = Some example_policy_valid"
  by code_simp

lemma example_policy_registered: "arms_registered [(''groq'', ''groq'')] example_policy_valid"
proof -
  have "is_registered ''groq'' [(''groq'', ''groq'')]" by code_simp
  then show ?thesis by (simp add: arms_registered_def example_policy_valid_def)
qed

theorem put_policy_resolves_witness:
  "\<exists>row tbl'. put_policy [(''groq'', ''groq'')] [(''t'', ''o'')] ''o'' ''t'' (Inr example_policy) Map.empty = (Inr row, tbl') \<and>
    resolve (Some ''t'') (Inr tbl') = resolved_of example_policy_valid"
proof -
  have "(''t'', ''o'') \<in> set [(''t'', ''o'')]" "''t'' \<noteq> []" by simp_all
  from put_policy_resolves [OF this example_policy_validates example_policy_registered, where tbl = Map.empty
      and e = list_called]
  show ?thesis by blast
qed

text \<open>
  C25: after any sequence of policy requests by an admin, each team of the organization resolves to the
  last policy stored for it, or to the global default, and the rows of other organizations are
  untouched.
\<close>

theorem policy_requests_resolve:
  assumes "override_run (put_policy reg teams org) (remove_policy teams org) ops tbl = (cs, tbl')"
  shows "((t, org) \<in> set teams \<and> t \<noteq> [] \<longrightarrow> read_policy teams org t tbl' =
      Inr (case fold apply_change cs (policy_of teams org tbl) t of
        None \<Rightarrow> global_default_policy | Some row \<Rightarrow> merge_policy (pol_policy row))) \<and>
    ((t, org) \<notin> set teams \<longrightarrow> read_policy teams org t tbl' =
      Inl (HTTPException 403 ''Team not found in your organization.'') \<and> tbl' t = tbl t)"
proof -
  have "policy_of teams org tbl' t = fold apply_change cs (policy_of teams org tbl) t"
    using policy_admin.run_look [OF assms] by simp
  moreover have "tbl' t = tbl t" if "(t, org) \<notin> set teams"
    using override_run_frame [where row = "\<lambda>s. s t", OF policy_step_other_org [OF that], of reg ops tbl] assms by simp
  ultimately show ?thesis
    by (auto simp: read_policy_def resolve_team_def List.member_iff resolve_def get_policy_dict_def policy_of_def
        visible_def split: option.splits)
qed

theorem policy_requests_resolve_witness:
  "read_policy [(''t'', ''o'')] ''o'' ''t'' (snd (override_run (put_policy [(''groq'', ''groq'')] [(''t'', ''o'')] ''o'')
      (remove_policy [(''t'', ''o'')] ''o'') [Put_row ''t'' (Inr example_policy), Drop_row ''t''] Map.empty)) =
    Inr global_default_policy"
proof -
  let ?reg = "[(''groq'', ''groq'')]" and ?teams = "[(''t'', ''o'')]"
  let ?row = "\<lparr>pol_policy = example_policy_valid, pol_enabled = True\<rparr>"
  have put: "put_policy ?reg ?teams ''o'' ''t'' (Inr example_policy) Map.empty = (Inr ?row, [''t'' \<mapsto> ?row])"
    using put_valid [OF _ example_policy_validates example_policy_registered, of "''t''" "''o''" ?teams Map.empty] by simp
  have run: "override_run (put_policy ?reg ?teams ''o'') (remove_policy ?teams ''o'')
      [Put_row ''t'' (Inr example_policy), Drop_row ''t''] Map.empty = ([Put ''t'' ?row, Drop ''t''], Map.empty)"
    by (simp add: put) (simp add: remove_policy_def delete_policy_def get_policy_model_def resolve_team_def)
  show ?thesis
    using policy_requests_resolve [OF run, of "''t''"] unfolding run by simp
qed

text \<open>
  The 422 promised for an experiment arm with an unregistered provider is not what the client gets:
  building its message raises a \<open>TypeError\<close>, so the request ends in the generic 500 (and nothing is
  stored).
\<close>

theorem unknown_arm_provider_is_500:
  assumes "(t, org) \<in> set teams" "validate_policy p = Some q" "in_experiment q = Some x" "ex_enabled x"
    and "a \<in> set (ex_arms x)" "\<not> is_registered (arm_provider a) reg"
  shows "put_policy reg teams org t (Inr p) tbl = (Inl list_called, tbl) \<and>
    handle_exception rid list_called = internal_error rid"
proof -
  have "put_policy reg teams org t (Inr p) tbl = (Inl list_called, tbl)"
    using assms by (auto simp: put_policy_def parse_policy_body_def resolve_team_def List.member_iff
        validate_experiment_arms_def list_all_iff)
  moreover have "handler_for list_called = Some ExceptionC"
    by code_simp
  ultimately show ?thesis
    by (simp add: handle_exception_def)
qed

theorem unknown_arm_provider_is_500_witness:
  "put_policy [] [(''t'', ''o'')] ''o'' ''t'' (Inr example_policy) Map.empty = (Inl list_called, Map.empty)"
  using unknown_arm_provider_is_500 [where t = "''t''" and org = "''o''" and teams = "[(''t'', ''o'')]" and
      x = "the (in_experiment example_policy_valid)" and a = "hd (ex_arms (the (in_experiment example_policy_valid)))" and
      reg = "[]" and tbl = Map.empty and rid = "[]", OF _ example_policy_validates]
  by (simp add: example_policy_valid_def is_registered_def)

end
