(* ===== verification/SemanticCache.thy ===== *)
theory SemanticCache
  imports Guardrails
begin

text \<open>
  The semantic cache (\<open>app/semantic_cache\<close>): similarity, the text and configuration that identify a
  request, key names, lookup, store and the per-team switch. The Redis server, the embedding client and
  the SHA-256 digest are parameters: the server as the answers to the reads of one call, the effects of
  a write as the list of commands it sends. \<open>json.dumps\<close> and \<open>json.loads\<close> are inverse; an entry whose
  fields cannot be read back has \<open>None\<close> there.
\<close>

section \<open>Similarity\<close>

definition dot :: "real list \<Rightarrow> real list \<Rightarrow> real" where
  "dot a b = sum_list (map2 (*) a b)"

definition norm_of :: "real list \<Rightarrow> real" where
  "norm_of a = sqrt (sum_list (map (\<lambda>x. x * x) a))"

definition cosine_similarity :: "real list \<Rightarrow> real list \<Rightarrow> real" where
  "cosine_similarity a b =
     (if length a \<noteq> length b then 0
      else if norm_of a = 0 \<or> norm_of b = 0 then 0
      else max (-1) (min 1 (dot a b / (norm_of a * norm_of b))))"

section \<open>What identifies a request\<close>

definition user_messages :: "chat_request \<Rightarrow> string list" where
  "user_messages q = map msg_content (filter (\<lambda>m. msg_role m = UserR) (q_messages q))"

definition extract_embedding_text :: "chat_request \<Rightarrow> string" where
  "extract_embedding_text q =
     (if user_messages q \<noteq> [] then last (user_messages q)
      else strip (join '' '' (map msg_content (filter (\<lambda>m. msg_role m \<noteq> SystemR) (q_messages q)))))"

record cache_config =
  cf_system_prompt :: "string option"
  cf_temperature :: "real option"
  cf_max_tokens :: "int option"
  cf_top_p :: "real option"
  cf_stop :: "string list option"
  cf_required_capabilities :: "string list option"

definition sorted_or_none :: "string list option \<Rightarrow> string list option" where
  "sorted_or_none v = (case v of None \<Rightarrow> None | Some xs \<Rightarrow> if xs = [] then None else Some (sort xs))"

definition config_of :: "chat_request \<Rightarrow> cache_config" where
  "config_of q = \<lparr>
     cf_system_prompt = map_option msg_content (List.find (\<lambda>m. msg_role m = SystemR) (q_messages q)),
     cf_temperature = q_temperature q, cf_max_tokens = q_max_tokens q, cf_top_p = q_top_p q,
     cf_stop = sorted_or_none (q_stop q),
     cf_required_capabilities = sorted_or_none (q_required_capabilities q)\<rparr>"

definition build_config_hash :: "(cache_config \<Rightarrow> string) \<Rightarrow> chat_request \<Rightarrow> string" where
  "build_config_hash sha256_hex q = take 16 (sha256_hex (config_of q))"

section \<open>Keys\<close>

definition index_key :: "string \<Rightarrow> string \<Rightarrow> string" where
  "index_key version team = ''semantic_cache:'' @ version @ '':team:'' @ team @ '':index''"

definition cache_entry_key :: "string \<Rightarrow> string \<Rightarrow> string \<Rightarrow> string" where
  "cache_entry_key version team entry_id = ''semantic_cache:'' @ version @ '':team:'' @ team @ '':entry:'' @ entry_id"

definition disabled_key :: "string \<Rightarrow> string \<Rightarrow> string" where
  "disabled_key version team = ''semantic_cache:'' @ version @ '':team:'' @ team @ '':disabled''"

section \<open>The cache\<close>

record semantic_cache =
  sc_connected :: bool
  sc_enabled :: bool
  sc_version :: string
  sc_ttl :: int
  sc_threshold :: real
  sc_max_entries :: int
  sc_embedding_client :: bool

definition is_eligible :: "chat_request \<Rightarrow> bool" where
  "is_eligible q = (if q_stream q = Some True then False
     else list_ex (\<lambda>m. msg_role m = UserR) (q_messages q))"

text \<open>An entry as stored: the response without its metadata.\<close>

record cached_payload =
  cp_provider :: string
  cp_model :: string
  cp_choices :: "choice list"
  cp_usage :: usage_metadata

record cache_entry =
  ce_config_hash :: "string option"
  ce_embedding :: "real list option"
  ce_payload :: "cached_payload option"

definition serialize_response :: "chat_response \<Rightarrow> cached_payload" where
  "serialize_response p = \<lparr>cp_provider = p_provider p, cp_model = p_model p, cp_choices = p_choices p, cp_usage = p_usage p\<rparr>"

definition deserialize_response :: "cached_payload \<Rightarrow> string \<Rightarrow> chat_response" where
  "deserialize_response d rid = \<lparr>p_provider = cp_provider d, p_model = cp_model d, p_choices = cp_choices d,
     p_usage = cp_usage d,
     p_metadata = (new_metadata rid 0)\<lparr>m_selected_provider := Some (cp_provider d),
       m_selected_model := Some (cp_model d), m_cache_hit := True, m_estimated_cost := Some 0, m_actual_cost := Some 0\<rparr>\<rparr>"

text \<open>
  What the services answer during one call: whether the team's flag exists, the index, an entry by its
  identifier (an error or an empty hash is \<open>None\<close>), the embedding of a text, a new UUID.
\<close>

record cache_answers =
  ca_flag :: "exn + bool"
  ca_index :: "exn + string list"
  ca_entry :: "string \<Rightarrow> cache_entry option"
  ca_embed :: "string \<Rightarrow> exn + real list"
  ca_uuid :: string

definition is_team_disabled :: "semantic_cache \<Rightarrow> cache_answers \<Rightarrow> bool" where
  "is_team_disabled c ans = (if \<not> sc_connected c then False
     else (case ca_flag ans of Inl e \<Rightarrow> False | Inr b \<Rightarrow> b))"

definition get_embedding :: "semantic_cache \<Rightarrow> cache_answers \<Rightarrow> string \<Rightarrow> exn + real list" where
  "get_embedding c ans txt = (if \<not> sc_embedding_client c then Inl (Exn EmbeddingErrorC ''No embedding client configured.'')
     else ca_embed ans txt)"

text \<open>The scan: the best similarity so far and the entry that reached the threshold with it.\<close>

fun scan :: "real \<Rightarrow> string \<Rightarrow> real list \<Rightarrow> cache_entry list \<Rightarrow> real \<times> cache_entry option \<Rightarrow> real \<times> cache_entry option" where
  "scan threshold hash query [] best = best"
| "scan threshold hash query (e # es) (best_sim, best_entry) =
     (if ce_config_hash e \<noteq> Some hash then scan threshold hash query es (best_sim, best_entry)
      else (case ce_embedding e of
          None \<Rightarrow> scan threshold hash query es (best_sim, best_entry)
        | Some stored \<Rightarrow>
           (let sim = cosine_similarity query stored in
            if sim > best_sim
            then scan threshold hash query es (sim, if sim \<ge> threshold then Some e else best_entry)
            else scan threshold hash query es (best_sim, best_entry))))"

definition best_entry :: "real \<Rightarrow> string \<Rightarrow> real list \<Rightarrow> cache_entry list \<Rightarrow> cache_entry option" where
  "best_entry threshold hash query es = (case scan threshold hash query es (-1, None) of
     (best_sim, None) \<Rightarrow> None
   | (best_sim, Some e) \<Rightarrow> if best_sim < threshold then None else Some e)"

text \<open>\<open>context.request_id\<close>: \<open>RequestContext\<close> is a dataclass of four fields, and this is not one.\<close>

definition context_request_id :: "request_context \<Rightarrow> exn + string option" where
  "context_request_id ctx = Inl (Exn AttributeErrorC (repr ''RequestContext'' @ '' object has no attribute '' @ repr ''request_id''))"

definition reconstruct :: "cache_answers \<Rightarrow> request_context \<Rightarrow> cache_entry \<Rightarrow> chat_response option" where
  "reconstruct ans ctx e = (case context_request_id ctx of
     Inl err \<Rightarrow> None
   | Inr rid \<Rightarrow> (case ce_payload e of
       None \<Rightarrow> None
     | Some d \<Rightarrow> Some (deserialize_response d (case rid of Some i \<Rightarrow> if i = [] then ca_uuid ans else i | None \<Rightarrow> ca_uuid ans))))"

definition candidate_entry ::
  "(cache_config \<Rightarrow> string) \<Rightarrow> semantic_cache \<Rightarrow> cache_answers \<Rightarrow> chat_request \<Rightarrow> request_context \<Rightarrow> cache_entry option" where
  "candidate_entry sha256_hex c ans q ctx =
     (if \<not> sc_enabled c then None
      else if \<not> is_eligible q then None
      else if ctx_team_id ctx = [] then None
      else if is_team_disabled c ans then None
      else if \<not> sc_connected c then None
      else (case get_embedding c ans (extract_embedding_text q) of
          Inl e \<Rightarrow> None
        | Inr query \<Rightarrow> (case ca_index ans of
            Inl e \<Rightarrow> None
          | Inr ids \<Rightarrow> best_entry (sc_threshold c) (build_config_hash sha256_hex q) query
              (List.map_filter (ca_entry ans) ids))))"

definition cache_lookup ::
  "(cache_config \<Rightarrow> string) \<Rightarrow> semantic_cache \<Rightarrow> cache_answers \<Rightarrow> chat_request \<Rightarrow> request_context \<Rightarrow> chat_response option" where
  "cache_lookup sha256_hex c ans q ctx = (case candidate_entry sha256_hex c ans q ctx of
     None \<Rightarrow> None | Some e \<Rightarrow> reconstruct ans ctx e)"

text \<open>The commands of a write, one transaction\<close>

datatype redis_command =
    Hset string cache_entry
  | Expire string int
  | Lpush string string
  | Ltrim string int int
  | SetFlag string
  | Del string

definition cache_store ::
  "(cache_config \<Rightarrow> string) \<Rightarrow> semantic_cache \<Rightarrow> cache_answers \<Rightarrow> chat_request \<Rightarrow> request_context \<Rightarrow> chat_response \<Rightarrow>
   redis_command list" where
  "cache_store sha256_hex c ans q ctx p =
     (if \<not> sc_enabled c then []
      else if \<not> is_eligible q then []
      else if ctx_team_id ctx = [] then []
      else if is_team_disabled c ans then []
      else if \<not> sc_connected c then []
      else (case get_embedding c ans (extract_embedding_text q) of
          Inl e \<Rightarrow> []
        | Inr embedding \<Rightarrow>
           (let team = ctx_team_id ctx;
                ekey = cache_entry_key (sc_version c) team (ca_uuid ans);
                ikey = index_key (sc_version c) team
            in [Hset ekey \<lparr>ce_config_hash = Some (build_config_hash sha256_hex q), ce_embedding = Some embedding,
                  ce_payload = Some (serialize_response p)\<rparr>,
                Expire ekey (sc_ttl c), Lpush ikey (ca_uuid ans), Ltrim ikey 0 (sc_max_entries c - 1)])))"

definition disable_for_team :: "semantic_cache \<Rightarrow> string \<Rightarrow> redis_command list" where
  "disable_for_team c team = (if \<not> sc_connected c then [] else [SetFlag (disabled_key (sc_version c) team)])"

definition enable_for_team :: "semantic_cache \<Rightarrow> string \<Rightarrow> redis_command list" where
  "enable_for_team c team = (if \<not> sc_connected c then [] else [Del (disabled_key (sc_version c) team)])"

section \<open>Similarity, facts\<close>

lemma dot_self: "dot a a = sum_list (map (\<lambda>x. x * x) a)"
  by (induction a) (simp_all add: dot_def)

lemma dot_self_nonneg: "0 \<le> dot a a"
  by (induction a) (simp_all add: dot_def)

lemma norm_square: "norm_of a * norm_of a = dot a a"
  using dot_self_nonneg [of a] by (simp add: norm_of_def dot_self)

lemma dot_commute: "length a = length b \<Longrightarrow> dot a b = dot b a"
proof (induction a b rule: list_induct2)
  case (Cons x xs y ys)
  then show ?case by (simp add: dot_def algebra_simps)
qed simp

lemma cosine_range: "-1 \<le> cosine_similarity a b" "cosine_similarity a b \<le> 1"
  by (simp_all add: cosine_similarity_def)

lemma cosine_self: "norm_of a \<noteq> 0 \<Longrightarrow> cosine_similarity a a = 1"
  by (simp add: cosine_similarity_def norm_square [symmetric])

section \<open>The scan finds the best entry\<close>

definition entry_similarity :: "string \<Rightarrow> real list \<Rightarrow> cache_entry \<Rightarrow> real option" where
  "entry_similarity hash query e =
     (if ce_config_hash e = Some hash then map_option (cosine_similarity query) (ce_embedding e) else None)"

definition best_so_far :: "real \<Rightarrow> string \<Rightarrow> real list \<Rightarrow> cache_entry list \<Rightarrow> real \<times> cache_entry option \<Rightarrow> bool" where
  "best_so_far threshold hash query es best =
     ((\<forall>e \<in> set es. \<forall>x. entry_similarity hash query e = Some x \<longrightarrow> x \<le> fst best) \<and>
      (fst best = -1 \<or> (\<exists>e \<in> set es. entry_similarity hash query e = Some (fst best))) \<and>
      (case snd best of None \<Rightarrow> fst best < threshold
       | Some e \<Rightarrow> e \<in> set es \<and> entry_similarity hash query e = Some (fst best) \<and> threshold \<le> fst best))"

lemma scan_best:
  assumes "best_so_far threshold hash query seen best" "- 1 < threshold"
  shows "best_so_far threshold hash query (seen @ es) (scan threshold hash query es best)"
  using assms(1)
proof (induction es arbitrary: seen best)
  case Nil
  then show ?case by (cases best) simp
next
  case (Cons e es)
  obtain sim0 be where best: "best = (sim0, be)" by (cases best)
  show ?case
  proof (cases "entry_similarity hash query e")
    case None
    then have "best_so_far threshold hash query (seen @ [e]) best"
      using Cons.prems by (auto simp: best_so_far_def split: option.splits)
    from Cons.IH [OF this] show ?thesis
      using None by (auto simp: best entry_similarity_def split: if_splits)
  next
    case (Some x)
    then obtain v where v: "ce_config_hash e = Some hash" "ce_embedding e = Some v" "x = cosine_similarity query v"
      by (auto simp: entry_similarity_def split: if_splits)
    let ?best = "if x > sim0 then (x, if x \<ge> threshold then Some e else be) else best"
    have "best_so_far threshold hash query (seen @ [e]) ?best"
      using Cons.prems Some unfolding best best_so_far_def by (auto split: option.splits)
    moreover have "scan threshold hash query (e # es) best = scan threshold hash query es ?best"
      using v by (simp add: best)
    ultimately show ?thesis
      using Cons.IH [of "seen @ [e]" ?best] by simp
  qed
qed

text \<open>
  The scan returns the most similar usable entry: an entry it returns has the request's configuration
  hash and a similarity that reaches the threshold and that no other usable entry exceeds, and it
  returns one whenever some usable entry reaches the threshold.
\<close>

theorem scan_returns_most_similar:
  assumes "- 1 < threshold"
  shows "(\<forall>e. best_entry threshold hash query es = Some e \<longrightarrow> e \<in> set es \<and>
      (\<exists>x. entry_similarity hash query e = Some x \<and> threshold \<le> x \<and>
        (\<forall>e' \<in> set es. \<forall>y. entry_similarity hash query e' = Some y \<longrightarrow> y \<le> x))) \<and>
    (best_entry threshold hash query es = None \<longrightarrow>
      (\<forall>e \<in> set es. \<forall>y. entry_similarity hash query e = Some y \<longrightarrow> y < threshold))"
proof -
  have "best_so_far threshold hash query ([] @ es) (scan threshold hash query es (-1, None))"
    by (rule scan_best) (use assms in \<open>simp_all add: best_so_far_def\<close>)
  then show ?thesis
    by (cases "scan threshold hash query es (-1, None)") (force simp: best_entry_def best_so_far_def split: option.splits)
qed

definition example_stored :: cache_entry where
  "example_stored = \<lparr>ce_config_hash = Some ''h'', ce_embedding = Some [1], ce_payload = None\<rparr>"

theorem scan_returns_most_similar_witness:
  "best_entry (92 / 100) ''h'' [1] [example_stored] \<noteq> None"
proof
  assume "best_entry (92 / 100) ''h'' [1] [example_stored] = None"
  then have "1 < (92 / 100 :: real)"
    using scan_returns_most_similar [of "92 / 100" "''h''" "[1]" "[example_stored]"] cosine_self [of "[1]"]
    by (simp add: entry_similarity_def example_stored_def norm_of_def)
  then show False by simp
qed

section \<open>What the cache does\<close>

definition ready :: "semantic_cache \<Rightarrow> cache_answers \<Rightarrow> chat_request \<Rightarrow> request_context \<Rightarrow> bool" where
  "ready c ans q ctx = (sc_enabled c \<and> is_eligible q \<and> ctx_team_id ctx \<noteq> [] \<and> \<not> is_team_disabled c ans \<and>
     sc_connected c \<and> sc_embedding_client c)"

lemma store_ready:
  assumes "ready c ans q ctx" "ca_embed ans (extract_embedding_text q) = Inr v"
  shows "cache_store h c ans q ctx p = (let ekey = cache_entry_key (sc_version c) (ctx_team_id ctx) (ca_uuid ans);
      ikey = index_key (sc_version c) (ctx_team_id ctx) in
    [Hset ekey \<lparr>ce_config_hash = Some (build_config_hash h q), ce_embedding = Some v, ce_payload = Some (serialize_response p)\<rparr>,
     Expire ekey (sc_ttl c), Lpush ikey (ca_uuid ans), Ltrim ikey 0 (sc_max_entries c - 1)])"
  using assms by (simp add: cache_store_def ready_def get_embedding_def Let_def)

text \<open>
  C18: the cache never answers: even when a request is repeated exactly and its stored entry is found, the
  lookup reads a field the request context does not have, and the error is taken for a miss.
\<close>

theorem cache_never_answers:
  assumes "ready c ans q ctx" "ready c ans' q ctx" "sc_threshold c \<le> 1" "- 1 < sc_threshold c"
    and "ca_embed ans (extract_embedding_text q) = Inr v" "ca_embed ans' (extract_embedding_text q) = Inr v" "norm_of v \<noteq> 0"
    and "ca_index ans' = Inr [ca_uuid ans]"
    and "Hset key entry \<in> set (cache_store h c ans q ctx p)" "ca_entry ans' (ca_uuid ans) = Some entry"
  shows "candidate_entry h c ans' q ctx = Some entry \<and> cache_lookup h c ans' q ctx = None"
proof -
  have entry: "entry = \<lparr>ce_config_hash = Some (build_config_hash h q), ce_embedding = Some v,
      ce_payload = Some (serialize_response p)\<rparr>"
    using assms(9) by (simp add: store_ready [OF assms(1,5)] Let_def)
  have "best_entry (sc_threshold c) (build_config_hash h q) v [entry] = Some entry"
    using assms(3,4,7) by (simp add: best_entry_def entry cosine_self)
  then have "candidate_entry h c ans' q ctx = Some entry"
    using assms by (simp add: candidate_entry_def ready_def get_embedding_def List.map_filter_def)
  then show ?thesis
    by (simp add: cache_lookup_def reconstruct_def context_request_id_def)
qed

lemma lookup_none: "cache_lookup h c ans q ctx = None"
  by (simp add: cache_lookup_def reconstruct_def context_request_id_def split: option.splits)

definition example_cache :: semantic_cache where
  "example_cache = \<lparr>sc_connected = True, sc_enabled = True, sc_version = ''v1'', sc_ttl = 3600,
     sc_threshold = 92 / 100, sc_max_entries = 500, sc_embedding_client = True\<rparr>"

definition example_context :: request_context where
  "example_context = \<lparr>ctx_organization_id = ''o'', ctx_team_id = ''t'', ctx_api_key_id = ''k'', ctx_role = ''member''\<rparr>"

definition cold :: cache_answers where
  "cold = \<lparr>ca_flag = Inr False, ca_index = Inr [], ca_entry = (\<lambda>i. None), ca_embed = (\<lambda>s. Inr [1]), ca_uuid = ''u''\<rparr>"

definition warm :: "cache_entry \<Rightarrow> cache_answers" where
  "warm e = cold\<lparr>ca_index := Inr [''u''], ca_entry := (\<lambda>i. Some e)\<rparr>"

theorem cache_never_answers_witness:
  "\<exists>entry. candidate_entry (\<lambda>c. ''h'') example_cache (warm entry) example_request example_context = Some entry \<and>
    cache_lookup (\<lambda>c. ''h'') example_cache (warm entry) example_request example_context = None"
proof -
  let ?p = "deserialize_response \<lparr>cp_provider = ''groq'', cp_model = ''m1'', cp_choices = [],
      cp_usage = \<lparr>prompt_tokens = None, completion_tokens = None, total_tokens = None\<rparr>\<rparr> ''r''"
  let ?e = "\<lparr>ce_config_hash = Some (build_config_hash (\<lambda>c. ''h'') example_request), ce_embedding = Some [1],
      ce_payload = Some (serialize_response ?p)\<rparr>"
  have ready: "ready example_cache ans example_request example_context" if "ca_flag ans = Inr False" for ans
    using that by (simp add: ready_def example_cache_def example_context_def is_team_disabled_def is_eligible_def
        example_request_def)
  have "Hset (cache_entry_key (sc_version example_cache) (ctx_team_id example_context) (ca_uuid cold)) ?e \<in>
      set (cache_store (\<lambda>c. ''h'') example_cache cold example_request example_context ?p)"
    using store_ready [OF ready, of cold "[1]"] by (simp add: cold_def Let_def)
  moreover have "ca_embed cold (extract_embedding_text example_request) = Inr [1]"
    "ca_embed (warm ?e) (extract_embedding_text example_request) = Inr [1]" "ca_index (warm ?e) = Inr [ca_uuid cold]"
    "ca_entry (warm ?e) (ca_uuid cold) = Some ?e" "norm_of [1] \<noteq> 0"
    by (simp_all add: cold_def warm_def norm_of_def)
  moreover have "sc_threshold example_cache \<le> 1" "- 1 < sc_threshold example_cache" "ca_flag cold = Inr False"
    "ca_flag (warm ?e) = Inr False"
    by (simp_all add: example_cache_def cold_def warm_def)
  ultimately show ?thesis
    using cache_never_answers [OF ready [of cold] ready [of "warm ?e"]] by blast
qed

text \<open>
  A request is identified by its last user message, its first system prompt and its parameters: earlier
  turns of the conversation, the provider and the model play no part, so two conversations that end in
  the same question share their entries.
\<close>

theorem cache_ignores_conversation:
  assumes "q_messages q = sys @ turns @ [\<lparr>msg_role = UserR, msg_content = question\<rparr>]"
    and "q_messages q' = sys @ turns' @ [\<lparr>msg_role = UserR, msg_content = question\<rparr>]"
    and "\<forall>m \<in> set (turns @ turns'). msg_role m \<noteq> SystemR"
    and "q_temperature q' = q_temperature q" "q_max_tokens q' = q_max_tokens q" "q_top_p q' = q_top_p q"
    and "q_stop q' = q_stop q" "q_required_capabilities q' = q_required_capabilities q" "q_stream q' = q_stream q"
  shows "candidate_entry h c ans q' ctx = candidate_entry h c ans q ctx \<and>
    cache_store h c ans q' ctx p = cache_store h c ans q ctx p"
proof -
  have find: "List.find (\<lambda>m. msg_role m = SystemR) (sys @ ts @ [\<lparr>msg_role = UserR, msg_content = question\<rparr>]) =
      List.find (\<lambda>m. msg_role m = SystemR) sys" if "\<forall>m \<in> set ts. msg_role m \<noteq> SystemR" for ts
  proof (cases "List.find (\<lambda>m. msg_role m = SystemR) sys")
    case None
    then have "\<forall>m \<in> set sys. msg_role m \<noteq> SystemR" by (auto simp: find_None_iff)
    then show ?thesis using that by (subst None, subst find_None_iff) auto
  next
    case (Some m)
    then show ?thesis by (induction sys) (auto split: if_splits)
  qed
  have same_text: "extract_embedding_text q = question" "extract_embedding_text q' = question"
    using assms(1,2) by (simp_all add: extract_embedding_text_def user_messages_def)
  have config: "config_of q' = config_of q"
    using assms(3-8) by (simp add: config_of_def assms(1,2) find)
  then have hash: "build_config_hash h q' = build_config_hash h q"
    by (simp only: build_config_hash_def)
  have eligible: "is_eligible q' = is_eligible q"
    using assms(1,2,9) by (simp add: is_eligible_def)
  show ?thesis
    unfolding candidate_entry_def cache_store_def same_text eligible hash by simp
qed

theorem cache_ignores_conversation_witness:
  "candidate_entry h c ans (example_request\<lparr>q_model := ''m2'', q_messages := \<lparr>msg_role = UserR, msg_content = ''I am Bob''\<rparr> #
      q_messages example_request\<rparr>) ctx = candidate_entry h c ans example_request ctx"
  using cache_ignores_conversation [of example_request "[]" "[]" "''hi''"
      "example_request\<lparr>q_model := ''m2'', q_messages := \<lparr>msg_role = UserR, msg_content = ''I am Bob''\<rparr> # q_messages example_request\<rparr>"
      "[\<lparr>msg_role = UserR, msg_content = ''I am Bob''\<rparr>]" h c ans ctx undefined]
  by (simp add: example_request_def)

text \<open>The key a command writes\<close>

fun key_of :: "redis_command \<Rightarrow> string" where
  "key_of (Hset k e) = k"
| "key_of (Expire k n) = k"
| "key_of (Lpush k v) = k"
| "key_of (Ltrim k a b) = k"
| "key_of (SetFlag k) = k"
| "key_of (Del k) = k"

definition team_keys :: "string \<Rightarrow> string \<Rightarrow> string set" where
  "team_keys version team = {''semantic_cache:'' @ version @ '':team:'' @ team @ '':'' @ rest | rest. True}"

lemma team_keys_disjoint:
  assumes "CHR '':'' \<notin> set version" "CHR '':'' \<notin> set t" "CHR '':'' \<notin> set t'" "t \<noteq> t'"
  shows "team_keys version t \<inter> team_keys version t' = {}"
proof -
  have "t = t'" if "t @ CHR '':'' # r = t' @ CHR '':'' # r'" for r r'
    using split_first [OF that assms(2,3)] by simp
  with assms(4) show ?thesis by (auto simp: team_keys_def)
qed

text \<open>
  Teams are kept apart: every command of a store, or of the per-team switch, addresses keys of the
  request's own team, and no key belongs to two teams; a store sends nothing when the cache is off for
  the team.
\<close>

theorem cache_teams_apart:
  assumes "CHR '':'' \<notin> set (sc_version c)" "CHR '':'' \<notin> set t'" "CHR '':'' \<notin> set (ctx_team_id ctx)" "t' \<noteq> ctx_team_id ctx"
    and "cmd \<in> set (cache_store h c ans q ctx p @ disable_for_team c (ctx_team_id ctx) @ enable_for_team c (ctx_team_id ctx))"
  shows "key_of cmd \<in> team_keys (sc_version c) (ctx_team_id ctx) \<and> key_of cmd \<notin> team_keys (sc_version c) t' \<and>
    cache_store h c (ans\<lparr>ca_flag := Inr True\<rparr>) q ctx p = []"
proof -
  have "key_of cmd \<in> team_keys (sc_version c) (ctx_team_id ctx)"
    using assms(5)
    by (auto simp: cache_store_def disable_for_team_def enable_for_team_def Let_def cache_entry_key_def index_key_def
        disabled_key_def team_keys_def split: if_splits sum.splits)
  moreover from this have "key_of cmd \<notin> team_keys (sc_version c) t'"
    using team_keys_disjoint [OF assms(1,3,2)] assms(4) by auto
  moreover have "cache_store h c (ans\<lparr>ca_flag := Inr True\<rparr>) q ctx p = []"
    by (simp add: cache_store_def is_team_disabled_def)
  ultimately show ?thesis by simp
qed

theorem cache_teams_apart_witness:
  "disabled_key ''v1'' ''t'' \<notin> team_keys ''v1'' ''u''"
proof -
  have "SetFlag (disabled_key ''v1'' ''t'') \<in> set (disable_for_team example_cache (ctx_team_id example_context))"
    by (simp add: disable_for_team_def example_cache_def example_context_def)
  then show ?thesis
    using cache_teams_apart [of example_cache "''u''" example_context "SetFlag (disabled_key ''v1'' ''t'')"
        "\<lambda>c. []" cold example_request undefined]
    by (simp add: example_cache_def example_context_def)
qed

end
