(* ===== verification/Startup.thy ===== *)
theory Startup
  imports Providers Migrations Routing SemanticCache
begin

text \<open>
  What the process sets up before it serves (\<open>app/main.py\<close>, \<open>app/config/settings.py\<close>): the settings that
  decide which providers exist, the provider registry, the model catalog and its refresh task, the
  embedding client and the semantic cache (\<open>semantic_cache/embedding.py\<close>, \<open>build_semantic_cache\<close>). The
  environment, the database and the Ollama server are parameters.
\<close>

section \<open>Settings\<close>

record connection_settings =
  postgres_host :: string
  postgres_port :: int
  postgres_db :: string
  postgres_user :: string
  postgres_password :: string
  database_url :: string
  redis_host :: string
  redis_port :: int
  redis_url :: string

definition default_connection_settings :: connection_settings where
  "default_connection_settings = \<lparr>postgres_host = ''postgres'', postgres_port = 5432,
     postgres_db = ''cortex_gateway'', postgres_user = ''cortex_user'', postgres_password = ''change_me'',
     database_url = [], redis_host = ''redis'', redis_port = 6379, redis_url = []\<rparr>"

definition compose_connection_urls :: "connection_settings \<Rightarrow> connection_settings" where
  "compose_connection_urls s =
     (let s = (if database_url s = []
               then s\<lparr>database_url := ''postgresql+asyncpg://'' @ postgres_user s @ '':'' @ postgres_password s @
                      ''@'' @ postgres_host s @ '':'' @ str_int (postgres_port s) @ ''/'' @ postgres_db s\<rparr>
               else s)
      in if redis_url s = [] then s\<lparr>redis_url := ''redis://'' @ redis_host s @ '':'' @ str_int (redis_port s)\<rparr>
         else s)"

record provider_settings =
  gemini_api_key :: string
  gemini_enabled :: bool
  gemini_timeout_seconds :: int
  groq_api_key :: string
  groq_base_url :: string
  groq_enabled :: bool
  groq_timeout_seconds :: int
  ollama_base_url :: string
  ollama_enabled :: bool
  ollama_timeout_seconds :: int
  openai_api_key :: string
  openai_base_url :: string
  openai_enabled :: bool

definition default_provider_settings :: provider_settings where
  "default_provider_settings = \<lparr>gemini_api_key = [], gemini_enabled = True, gemini_timeout_seconds = 30,
     groq_api_key = [], groq_base_url = ''https://api.groq.com/openai/v1'', groq_enabled = True,
     groq_timeout_seconds = 30, ollama_base_url = ''http://localhost:11434'', ollama_enabled = True,
     ollama_timeout_seconds = 60, openai_api_key = [], openai_base_url = ''https://api.openai.com/v1'',
     openai_enabled = False\<rparr>"

definition gemini_available :: "provider_settings \<Rightarrow> bool" where
  "gemini_available s = (gemini_enabled s \<and> gemini_api_key s \<noteq> [])"

definition groq_available :: "provider_settings \<Rightarrow> bool" where
  "groq_available s = (groq_enabled s \<and> groq_api_key s \<noteq> [])"

definition ollama_available :: "provider_settings \<Rightarrow> bool" where
  "ollama_available s = (ollama_enabled s \<and> ollama_base_url s \<noteq> [])"

definition openai_available :: "provider_settings \<Rightarrow> bool" where
  "openai_available s = (openai_enabled s \<and> openai_api_key s \<noteq> [])"

record cache_settings =
  semantic_cache_enabled :: bool
  semantic_cache_version :: string
  semantic_cache_ttl_seconds :: int
  semantic_cache_similarity_threshold :: real
  semantic_cache_max_entries_per_team :: int
  semantic_cache_embedding_provider :: string
  semantic_cache_embedding_model :: string

definition default_cache_settings :: cache_settings where
  "default_cache_settings = \<lparr>semantic_cache_enabled = False, semantic_cache_version = ''v1'',
     semantic_cache_ttl_seconds = 3600, semantic_cache_similarity_threshold = 92 / 100,
     semantic_cache_max_entries_per_team = 500, semantic_cache_embedding_provider = ''ollama'',
     semantic_cache_embedding_model = ''nomic-embed-text''\<rparr>"

text \<open>\<open>raw.split(",")\<close>\<close>

fun split_on :: "char \<Rightarrow> string \<Rightarrow> string list" where
  "split_on d [] = [[]]"
| "split_on d (c # cs) = (if c = d then [] # split_on d cs
     else (case split_on d cs of [] \<Rightarrow> [[c]] | p # ps \<Rightarrow> (c # p) # ps))"

definition cors_origins_list :: "string \<Rightarrow> string list" where
  "cors_origins_list raw = map strip (filter (\<lambda>p. strip p \<noteq> []) (split_on CHR '','' raw))"

definition is_development :: "string \<Rightarrow> bool" where
  "is_development environment = (lower environment = ''development'')"

definition is_production :: "string \<Rightarrow> bool" where
  "is_production environment = (lower environment = ''production'')"

section \<open>Provider registry\<close>

definition init_providers :: "provider_settings \<Rightarrow> provider_registry \<Rightarrow> provider_registry" where
  "init_providers s reg =
     (let reg = (if gemini_available s then reg_register ''gemini'' reg else reg);
          reg = (if groq_available s then reg_register ''groq'' reg else reg)
      in if ollama_available s then reg_register ''ollama'' reg else reg)"

section \<open>Model catalog\<close>

text \<open>\<open>db\<close>: the rows of the model table, or what reading them raises. Both the load at startup and each
  round of the background task keep the catalog as it is when the read or the load fails.\<close>

definition init_model_catalog :: "exn + registry_table \<Rightarrow> model_catalog \<Rightarrow> model_catalog" where
  "init_model_catalog db c = (case db of
     Inl e \<Rightarrow> c
   | Inr rows \<Rightarrow> (case load_from_db rows c of Inl e \<Rightarrow> c | Inr c' \<Rightarrow> c'))"

fun catalog_refresh_loop :: "(exn + registry_table) list \<Rightarrow> model_catalog \<Rightarrow> model_catalog" where
  "catalog_refresh_loop [] c = c"
| "catalog_refresh_loop (db # dbs) c = catalog_refresh_loop dbs
     (case db of
        Inl e \<Rightarrow> c
      | Inr rows \<Rightarrow> (case load_from_db rows c of Inl e \<Rightarrow> c | Inr c' \<Rightarrow> c'))"

section \<open>Embedding client and semantic cache\<close>

record embedding_client =
  ec_base_url :: string
  ec_model :: string
  ec_timeout :: int

definition rstrip_slash :: "string \<Rightarrow> string" where
  "rstrip_slash s = rev (dropWhile (\<lambda>c. c = CHR ''/'') (rev s))"

definition new_embedding_client :: "string \<Rightarrow> string \<Rightarrow> int \<Rightarrow> embedding_client" where
  "new_embedding_client base_url model timeout =
     \<lparr>ec_base_url = rstrip_slash base_url, ec_model = model, ec_timeout = timeout\<rparr>"

text \<open>
  The body of an answer: one the parsing raises on (no JSON, no object, an entry that is no number), or
  the two fields it looks at, \<open>None\<close> when absent or not a list, and the keys.
\<close>

record embed_fields =
  ef_embeddings :: "real list list option"
  ef_embedding :: "real list option"
  ef_keys :: "string list"

definition embed ::
  "embedding_client \<Rightarrow> (string \<times> string \<times> string \<Rightarrow> embed_fields option http_reply http_answer) \<Rightarrow> string \<Rightarrow>
   exn + real list" where
  "embed c post txt =
     (let fail = (\<lambda>msg. Inl (Exn EmbeddingErrorC msg)); model = repr (ec_model c) in
      if strip txt = [] then fail ''Cannot embed empty text.''
      else (case post (ec_base_url c @ ''/api/embed'', ec_model c, txt) of
          HttpTimeout \<Rightarrow> fail (''Ollama embedding request timed out (model='' @ model @ '').'')
        | HttpConnect \<Rightarrow> fail (''Could not connect to Ollama for embeddings (model='' @ model @
            ''). Ensure Ollama is running and the model is pulled.'')
        | HttpFailure \<Rightarrow> fail ''Unexpected error contacting Ollama embedding endpoint''
        | Answered r \<Rightarrow>
            if hr_status r = 404 then fail (''Embedding model '' @ model @ '' not found in Ollama. Run: ollama pull '' @ ec_model c)
            else if hr_status r \<noteq> 200 then
              fail (''Ollama embedding endpoint returned HTTP '' @ str_int (hr_status r) @ ''.'')
            else (case hr_body r of
                None \<Rightarrow> fail ''Failed to parse Ollama embedding response''
              | Some d \<Rightarrow> (case ef_embeddings d of
                  Some ((x # xs) # vs) \<Rightarrow> Inr (x # xs)
                | _ \<Rightarrow> (case ef_embedding d of
                    Some (x # xs) \<Rightarrow> Inr (x # xs)
                  | _ \<Rightarrow> fail (''Unexpected embedding response structure from Ollama: '' @ repr_list (ef_keys d)))))))"

text \<open>The cache, and the client it holds.\<close>

definition build_embedding_client :: "provider_settings \<Rightarrow> cache_settings \<Rightarrow> embedding_client option" where
  "build_embedding_client ps cs =
     (if semantic_cache_enabled cs \<and> lower (semantic_cache_embedding_provider cs) = ''ollama''
      then Some (new_embedding_client (ollama_base_url ps) (semantic_cache_embedding_model cs) (ollama_timeout_seconds ps))
      else None)"

definition build_semantic_cache :: "bool \<Rightarrow> provider_settings \<Rightarrow> cache_settings \<Rightarrow> semantic_cache" where
  "build_semantic_cache redis ps cs =
     \<lparr>sc_connected = redis, sc_enabled = semantic_cache_enabled cs, sc_version = semantic_cache_version cs,
      sc_ttl = semantic_cache_ttl_seconds cs, sc_threshold = semantic_cache_similarity_threshold cs,
      sc_max_entries = semantic_cache_max_entries_per_team cs,
      sc_embedding_client = (build_embedding_client ps cs \<noteq> None)\<rparr>"

section \<open>Facts\<close>

lemma split_on_join: "join [d] (split_on d s) = s"
proof (induction s)
  case (Cons c cs)
  obtain p ps where "split_on d cs = p # ps" by (cases "split_on d cs") (cases cs; auto split: list.splits if_splits)+
  then show ?case using Cons by (cases ps) auto
qed simp

lemma cors_origins_clean: "list_all (\<lambda>p. p \<noteq> [] \<and> strip p = p) (cors_origins_list raw)"
  by (auto simp: cors_origins_list_def list_all_iff)

lemma explicit_urls_kept:
  "database_url s \<noteq> [] \<Longrightarrow> database_url (compose_connection_urls s) = database_url s"
  "redis_url s \<noteq> [] \<Longrightarrow> redis_url (compose_connection_urls s) = redis_url s"
  by (simp_all add: compose_connection_urls_def Let_def)

text \<open>
  Exactly the configured providers can be looked up, in any case and with blanks around the name; OpenAI
  is never among them, whatever its settings.
\<close>

lemma registered_map: "map_of (reg_register p reg) k = (if k = lower p then Some p else map_of reg k)"
  by (simp add: reg_register_def update_conv')

theorem startup_registry:
  "reg_get name (init_providers s []) = Inr p \<longleftrightarrow>
     lower (strip name) = p \<and>
     (p = ''gemini'' \<and> gemini_available s \<or> p = ''groq'' \<and> groq_available s \<or> p = ''ollama'' \<and> ollama_available s)"
proof -
  have "lower ''gemini'' = ''gemini''" "lower ''groq'' = ''groq''" "lower ''ollama'' = ''ollama''"
    by code_simp+
  then have "map_of (init_providers s []) k =
      (if k = ''ollama'' \<and> ollama_available s then Some ''ollama''
       else if k = ''groq'' \<and> groq_available s then Some ''groq''
       else if k = ''gemini'' \<and> gemini_available s then Some ''gemini'' else None)" for k
    by (simp add: init_providers_def Let_def registered_map)
  then show ?thesis
    by (auto simp: reg_get_def Let_def split: option.splits)
qed

text \<open>A cache whose embedding provider is not supported has no client, and then never finds anything.\<close>

theorem unsupported_embedding_disables_cache:
  assumes "lower (semantic_cache_embedding_provider cs) \<noteq> ''ollama''"
  shows "cache_lookup h (build_semantic_cache redis ps cs) ans q ctx = None \<and>
    cache_store h (build_semantic_cache redis ps cs) ans q ctx r = []"
  using assms
  by (simp add: cache_lookup_def candidate_entry_def cache_store_def build_semantic_cache_def
      build_embedding_client_def get_embedding_def)

text \<open>
  Whatever Ollama answers, the client returns a vector with at least one entry or raises
  \<open>EmbeddingError\<close>; a caller's cache treats this as a miss and stores nothing.
\<close>

theorem embedding_failure_is_a_miss:
  assumes "ca_embed ans = embed client post"
  shows "(case embed client post txt of Inr v \<Rightarrow> v \<noteq> [] | Inl e \<Rightarrow> class_of e = EmbeddingErrorC) \<and>
    (embed client post (extract_embedding_text q) = Inl e \<longrightarrow>
       cache_lookup h c ans q ctx = None \<and> cache_store h c ans q ctx r = [])"
proof (intro conjI impI)
  show "case embed client post txt of Inr v \<Rightarrow> v \<noteq> [] | Inl e \<Rightarrow> class_of e = EmbeddingErrorC"
    by (auto simp: embed_def Let_def split: http_answer.splits option.splits list.splits)
  assume "embed client post (extract_embedding_text q) = Inl e"
  then have "\<exists>e'. get_embedding c ans (extract_embedding_text q) = Inl e'"
    using assms by (simp add: get_embedding_def)
  then show "cache_lookup h c ans q ctx = None" "cache_store h c ans q ctx r = []"
    by (auto simp: cache_lookup_def candidate_entry_def cache_store_def)
qed

theorem embedding_failure_is_a_miss_witness:
  "cache_lookup h c (cold\<lparr>ca_embed := embed (new_embedding_client ''http://o/'' ''m'' 30) (\<lambda>call. HttpTimeout)\<rparr>) q ctx = None"
proof -
  let ?e = "embed (new_embedding_client ''http://o/'' ''m'' 30) (\<lambda>call. HttpTimeout)"
  have "\<exists>e. ?e (extract_embedding_text q) = Inl e"
    by (simp add: embed_def Let_def)
  then obtain e where "?e (extract_embedding_text q) = Inl e" ..
  then show ?thesis
    using embedding_failure_is_a_miss [of "cold\<lparr>ca_embed := ?e\<rparr>" "new_embedding_client ''http://o/'' ''m'' 30"
        "\<lambda>call. HttpTimeout"] by simp
qed

section \<open>A fresh installation\<close>

definition install_rows :: "string list \<Rightarrow> registry_table" where
  "install_rows ids = fold exec_rows (concat (map rv_upgrade (revisions (seed_rows ids)))) []"

definition free_of_charge :: "model_catalog \<Rightarrow> string \<Rightarrow> string \<Rightarrow> bool" where
  "free_of_charge c p m = (md_input_cost_per_1k (catalog_get c p m) = 0 \<and> md_output_cost_per_1k (catalog_get c p m) = 0)"

lemma install_seeds: "install_rows ids = seed_rows ids"
  by (simp add: install_rows_def revisions_def upgrade_0001_def upgrade_0002_def upgrade_0003_def upgrade_0004_def
      upgrade_0005_def upgrade_0006_def upgrade_0007_def upgrade_0008_def upgrade_0009_def)

definition seeds :: "(string \<Rightarrow> registry_entry) list" where
  "seeds = gemini_seeds @ groq_seeds @ ollama_seeds"

lemmas seed_defs = seeds_def gemini_seeds_def groq_seeds_def ollama_seeds_def seed_def

lemma seed_count: "length seeds = 15"
  by (simp add: seed_defs)

lemma seed_rows_map:
  assumes "length ids = 15" "\<And>s i. s \<in> set seeds \<Longrightarrow> f (s i) = g s"
  shows "map f (seed_rows ids) = map g seeds"
proof -
  have "map f (seed_rows ids) = map (g \<circ> fst) (zip seeds ids)"
    using assms(2) by (auto simp: seed_rows_def seeds_def [symmetric] dest!: set_zip_leftD)
  then show ?thesis
    using assms(1) by (simp add: map_map [symmetric] seed_count del: map_map)
qed

lemma seed_rows_ids: "length ids = 15 \<Longrightarrow> map e_id (seed_rows ids) = ids"
proof -
  assume len: "length ids = 15"
  have "map e_id (seed_rows ids) = map snd (zip seeds ids)"
    by (auto simp: seed_rows_def seeds_def [symmetric] dest!: set_zip_leftD) (auto simp: seed_defs)
  then show ?thesis using len by (simp add: seed_count)
qed

lemma seed_rows_all:
  assumes "length ids = 15" "list_all (\<lambda>s. \<forall>i. P (s i)) seeds"
  shows "\<forall>e \<in> set (seed_rows ids). P e"
  using assms by (auto simp: seed_rows_def seeds_def [symmetric] list_all_iff dest!: set_zip_leftD)

lemma seeds_wf: "length ids = 15 \<Longrightarrow> distinct ids \<Longrightarrow> wf_table (seed_rows ids)"
proof -
  assume ids: "length ids = 15" "distinct ids"
  have "\<forall>e \<in> set (seed_rows ids). wf_entry e"
    using ids(1) by (rule seed_rows_all)
      (simp add: seed_defs wf_entry_def known_providers_def known_capabilities_def strip_def lstrip_def is_space_def)
  moreover have "map row_key (seed_rows ids) = map (\<lambda>s. row_key (s [])) seeds"
    using ids(1) by (rule seed_rows_map) (auto simp: seed_defs row_key_def)
  moreover have "distinct (map (\<lambda>s. row_key (s [])) seeds)"
    by (simp add: seed_defs row_key_def)
  ultimately show ?thesis
    using ids seed_rows_ids by (simp add: wf_table_def)
qed

definition prices :: "registry_entry \<Rightarrow> string \<times> string \<times> real \<times> real \<times> bool" where
  "prices e = (e_provider e, e_model_name e, e_input_cost_per_1k e, e_output_cost_per_1k e, e_enabled e)"

lemma seed_prices: "length ids = 15 \<Longrightarrow> map prices (seed_rows ids) = map (\<lambda>s. prices (s [])) seeds"
  by (rule seed_rows_map) (auto simp: seed_defs prices_def)

lemma seeded_price:
  assumes "wf_table rows" "synced rows c" "(lower p, m, i, j, True) \<in> set (map prices rows)" "strip m = m"
  shows "md_input_cost_per_1k (catalog_get c p m) = i \<and> md_output_cost_per_1k (catalog_get c p m) = j"
proof -
  obtain e where e: "e \<in> set rows" "lower p = e_provider e" "m = e_model_name e" "e_enabled e"
    "e_input_cost_per_1k e = i" "e_output_cost_per_1k e = j"
    using assms(3) by (auto simp: prices_def)
  then have "Inr (catalog_get c p m) = metadata_of_row e"
    using catalog_lookup [OF assms(1,2), of p m] assms(4) by auto
  then show ?thesis
    using e by (auto simp: metadata_of_row_def Let_def split: option.splits if_splits)
qed

lemma seeded_charged:
  assumes "wf_table rows" "synced rows c" "strip m = m"
    and "list_ex (\<lambda>(q, n, i, j, on). q = lower p \<and> n = m \<and> i \<noteq> 0 \<and> on) (map prices rows)"
  shows "\<not> free_of_charge c p m"
proof -
  obtain i j where "(lower p, m, i, j, True) \<in> set (map prices rows)" "i \<noteq> 0"
    using assms(4) by (auto simp: list_ex_iff simp del: set_map list.set_map)
  then show ?thesis
    using seeded_price [OF assms(1,2) _ assms(3)] by (auto simp: free_of_charge_def)
qed

lemma unseeded_free:
  assumes "wf_table rows" "synced rows c" "CHR '':'' \<notin> set (lower p)"
    and "list_all (\<lambda>(q, n, i, j, on). q = lower p \<longrightarrow> n \<noteq> strip m \<and> n \<noteq> strip (before_colon m)) (map prices rows)"
  shows "free_of_charge c p m"
proof -
  have "catalog_get c p m = default_metadata c p m"
    using catalog_lookup [OF assms(1,2), of p m] assms(3,4) by (auto simp: list_all_iff prices_def)
  then show ?thesis by (simp add: free_of_charge_def default_metadata_def Let_def)
qed

lemma bare_names: "list_all (\<lambda>m. strip m = m \<and> strip (before_colon m) = m) (groq_known_models @ gemini_known_models)"
  by (simp add: groq_known_models_def gemini_known_models_def strip_def lstrip_def before_colon_def is_space_def)

text \<open>
  A fresh installation knows the models it ships with. The migrations leave a well-formed model
  table, and the catalog loaded from it at startup is exactly that table. Every model of Groq's built-in
  list has a positive price in it; of Gemini's built-in list, exactly two models have none, so that
  requests to them cost a team nothing.
\<close>

theorem fresh_install_catalog:
  assumes "length ids = 15" "distinct ids"
  shows "wf_table (install_rows ids) \<and>
    synced (install_rows ids) (init_model_catalog (Inr (install_rows ids)) new_catalog) \<and>
    filter (free_of_charge (init_model_catalog (Inr (install_rows ids)) new_catalog) ''groq'') groq_known_models = [] \<and>
    filter (free_of_charge (init_model_catalog (Inr (install_rows ids)) new_catalog) ''gemini'') gemini_known_models =
      [''gemini-1.5-flash-8b'', ''gemini-2.0-flash-lite'']"
proof -
  let ?rows = "install_rows ids"
  let ?c = "init_model_catalog (Inr ?rows) new_catalog"
  have wf: "wf_table ?rows" using assms by (simp add: install_seeds seeds_wf)
  then have sync: "synced ?rows ?c"
    by (simp add: init_model_catalog_def load_from_db_wf synced_wf)
  have prices: "map prices ?rows = map (\<lambda>s. prices (s [])) seeds"
    using assms(1) by (simp add: install_seeds seed_prices)
  have low: "lower ''groq'' = ''groq''" "lower ''gemini'' = ''gemini''" by code_simp+
  have "\<not> free_of_charge ?c ''groq'' m" if "m \<in> set groq_known_models" for m
  proof (rule seeded_charged [OF wf sync])
    show "strip m = m" using that bare_names by (auto simp: list_all_iff)
    show "list_ex (\<lambda>(q, n, i, j, on). q = lower ''groq'' \<and> n = m \<and> i \<noteq> 0 \<and> on) (map prices ?rows)"
      using that unfolding prices low by (auto simp: groq_known_models_def seed_defs prices_def)
  qed
  moreover have "free_of_charge ?c ''gemini'' m \<longleftrightarrow> m \<in> {''gemini-1.5-flash-8b'', ''gemini-2.0-flash-lite''}"
    if "m \<in> set gemini_known_models" for m
  proof (cases "m \<in> {''gemini-1.5-flash-8b'', ''gemini-2.0-flash-lite''}")
    case True
    have "list_all (\<lambda>(q, n, i, j, on). q = lower ''gemini'' \<longrightarrow> n \<noteq> strip m \<and> n \<noteq> strip (before_colon m)) (map prices ?rows)"
      using True bare_names unfolding prices low
      by (auto simp: list_all_iff gemini_known_models_def seed_defs prices_def)
    then show ?thesis using unseeded_free [OF wf sync, of "''gemini''" m] True low by simp
  next
    case False
    have "\<not> free_of_charge ?c ''gemini'' m"
    proof (rule seeded_charged [OF wf sync])
      show "strip m = m" using that bare_names by (auto simp: list_all_iff)
      show "list_ex (\<lambda>(q, n, i, j, on). q = lower ''gemini'' \<and> n = m \<and> i \<noteq> 0 \<and> on) (map prices ?rows)"
        using that False unfolding prices low by (auto simp: gemini_known_models_def seed_defs prices_def)
    qed
    then show ?thesis using False by simp
  qed
  ultimately show ?thesis
    using wf sync by (auto simp: filter_empty_conv) (simp add: gemini_known_models_def)
qed

theorem fresh_install_catalog_witness:
  "\<exists>ids. length ids = 15 \<and> wf_table (install_rows ids)"
proof -
  let ?ids = "map (\<lambda>n. replicate n CHR ''x'') [0..<15]"
  have "distinct ?ids" by (simp add: distinct_map inj_on_def replicate_eq_replicate)
  then have "wf_table (install_rows ?ids)"
    using fresh_install_catalog [of ?ids] by simp
  then show ?thesis by (intro exI [of _ ?ids]) simp
qed

text \<open>
  After a refresh that succeeds the catalog is the table's, and failing refreshes after it change nothing.
\<close>

theorem refresh_keeps_last_good:
  assumes "wf_table rows" "list_all (\<lambda>db. \<exists>e. db = Inl e) failing"
  shows "synced rows (catalog_refresh_loop (earlier @ [Inr rows] @ failing) c)"
proof (induction earlier arbitrary: c)
  case Nil
  have "catalog_refresh_loop failing c' = c'" for c'
    using assms(2) by (induction failing arbitrary: c') auto
  then show ?case using assms(1) by (simp add: load_from_db_wf synced_wf)
qed simp

theorem refresh_keeps_last_good_witness:
  "synced example_table (catalog_refresh_loop [Inl (Exn ConnectionErrorC []), Inr example_table, Inl (Exn ConnectionErrorC [])] new_catalog)"
  using refresh_keeps_last_good [OF example_table_wf, of "[Inl (Exn ConnectionErrorC [])]" "[Inl (Exn ConnectionErrorC [])]" new_catalog]
  by simp

end
