(* ===== verification/Server.thy ===== *)
theory Server
  imports App Accounts Startup
begin

text \<open>
  The process around the endpoints: the database and Redis clients with the session a request gets
  (\<open>app/database/session.py\<close>, \<open>app/utils/redis_client.py\<close>), \<open>lifespan\<close> and \<open>create_application\<close>
  (\<open>app/main.py\<close>), and the routes every file of \<open>app/api/v1/endpoints\<close> declares, each with what it
  demands of its caller. What the client libraries raise is a parameter. Paths are matched as the web
  framework documents it: a braced parameter stands for one nonempty part between slashes.
\<close>

section \<open>Sessions\<close>

text \<open>What a session has written, and what of it is committed.\<close>

record 'd session =
  ss_working :: 'd
  ss_committed :: 'd

definition open_session :: "'d \<Rightarrow> 'd session" where
  "open_session d = \<lparr>ss_working = d, ss_committed = d\<rparr>"

definition session_commit :: "'d session \<Rightarrow> 'd session" where
  "session_commit s = s\<lparr>ss_committed := ss_working s\<rparr>"

definition session_rollback :: "'d session \<Rightarrow> 'd session" where
  "session_rollback s = s\<lparr>ss_working := ss_committed s\<rparr>"

definition not_initialised :: exn where
  "not_initialised = Exn ExceptionC ''Database is not initialised. Call init_db() first.''"

text \<open>\<open>failure\<close>: what the commit at the end raises, if it does.\<close>

definition get_db_session ::
  "bool \<Rightarrow> exn option \<Rightarrow> ('d session \<Rightarrow> (exn + 'a) \<times> 'd session) \<Rightarrow> 'd \<Rightarrow> (exn + 'a) \<times> 'd" where
  "get_db_session factory failure body d =
     (if \<not> factory then (Inl not_initialised, d)
      else case body (open_session d) of
          (Inl e, s) \<Rightarrow> (Inl e, ss_committed (session_rollback s))
        | (Inr r, s) \<Rightarrow> (case failure of
              Some e \<Rightarrow> (Inl e, ss_committed (session_rollback s))
            | None \<Rightarrow> (Inr r, ss_committed (session_commit s))))"

section \<open>Clients and lifespan\<close>

datatype client = Open | Closed

text \<open>The module variables of the two files and the refresh task.\<close>

record clients =
  cl_engine :: "client option"
  cl_factory :: bool
  cl_redis :: "client option"
  cl_refresh :: bool

definition no_clients :: clients where
  "no_clients = \<lparr>cl_engine = None, cl_factory = False, cl_redis = None, cl_refresh = False\<rparr>"

text \<open>What the libraries raise when a client is made or closed.\<close>

record client_faults =
  cf_engine :: "exn option"
  cf_redis :: "exn option"
  cf_dispose :: "exn option"
  cf_aclose :: "exn option"

definition init_db :: "client_faults \<Rightarrow> clients \<Rightarrow> exn + clients" where
  "init_db f c = (case cf_engine f of Some e \<Rightarrow> Inl e | None \<Rightarrow> Inr (c\<lparr>cl_engine := Some Open, cl_factory := True\<rparr>))"

definition init_redis :: "client_faults \<Rightarrow> clients \<Rightarrow> exn + clients" where
  "init_redis f c = (case cf_redis f of Some e \<Rightarrow> Inl e | None \<Rightarrow> Inr (c\<lparr>cl_redis := Some Open\<rparr>))"

definition close_db :: "client_faults \<Rightarrow> clients \<Rightarrow> (exn + unit) \<times> clients" where
  "close_db f c = (case cl_engine c of
     None \<Rightarrow> (Inr (), c)
   | Some p \<Rightarrow> (case cf_dispose f of Some e \<Rightarrow> (Inl e, c) | None \<Rightarrow> (Inr (), c\<lparr>cl_engine := Some Closed\<rparr>)))"

definition close_redis :: "client_faults \<Rightarrow> clients \<Rightarrow> (exn + unit) \<times> clients" where
  "close_redis f c = (case cl_redis c of
     None \<Rightarrow> (Inr (), c)
   | Some p \<Rightarrow> (case cf_aclose f of Some e \<Rightarrow> (Inl e, c) | None \<Rightarrow> (Inr (), c\<lparr>cl_redis := Some Closed\<rparr>)))"

text \<open>
  \<open>lifespan\<close>: the clients before serving, \<open>Inl\<close> if the startup raised, then what the end of the server
  leaves. The task of the catalog runs from the startup on.
\<close>

definition lifespan_enter :: "client_faults \<Rightarrow> clients \<Rightarrow> exn + clients" where
  "lifespan_enter f c = (case init_db f c of
     Inl e \<Rightarrow> Inl e
   | Inr c \<Rightarrow> (case init_redis f c of Inl e \<Rightarrow> Inl e | Inr c \<Rightarrow> Inr (c\<lparr>cl_refresh := True\<rparr>)))"

definition lifespan_exit :: "client_faults \<Rightarrow> clients \<Rightarrow> (exn + unit) \<times> clients" where
  "lifespan_exit f c = (case close_db f (c\<lparr>cl_refresh := False\<rparr>) of
     (Inl e, c) \<Rightarrow> (Inl e, c)
   | (Inr u, c) \<Rightarrow> close_redis f c)"

section \<open>Routes\<close>

text \<open>What a route's dependencies demand: nothing, a key (\<open>get_request_context\<close>), an administrator's key.\<close>

datatype access = Anyone | KeyHolder | Administrator

record api_route =
  rt_method :: string
  rt_path :: string
  rt_handler :: string
  rt_access :: access

definition endpoint :: "string \<Rightarrow> string \<Rightarrow> string \<Rightarrow> access \<Rightarrow> api_route" where
  "endpoint m p h a = \<lparr>rt_method = m, rt_path = p, rt_handler = h, rt_access = a\<rparr>"

definition with_prefix :: "string \<Rightarrow> api_route list \<Rightarrow> api_route list" where
  "with_prefix prefix = map (\<lambda>r. r\<lparr>rt_path := prefix @ rt_path r\<rparr>)"

definition root_route :: api_route where
  "root_route = endpoint ''GET'' ''/'' ''root'' Anyone"

definition version_route :: api_route where
  "version_route = endpoint ''GET'' ''/version'' ''version'' Anyone"

definition health_route :: api_route where
  "health_route = endpoint ''GET'' ''/health'' ''health'' Anyone"

definition system_router :: "api_route list" where
  "system_router = [root_route, version_route, health_route]"

definition prometheus_metrics_route :: api_route where
  "prometheus_metrics_route = endpoint ''GET'' ''/metrics'' ''prometheus_metrics'' Anyone"

definition metrics_router :: "api_route list" where
  "metrics_router = [prometheus_metrics_route]"

definition chat_completions_route :: api_route where
  "chat_completions_route = endpoint ''POST'' ''/chat/completions'' ''chat_completions'' KeyHolder"

definition chat_router :: "api_route list" where
  "chat_router = [chat_completions_route]"

definition list_providers_route :: api_route where
  "list_providers_route = endpoint ''GET'' ''/providers'' ''list_providers'' Anyone"

definition get_provider_route :: api_route where
  "get_provider_route = endpoint ''GET'' ''/providers/{provider}'' ''get_provider'' Anyone"

definition list_provider_models_route :: api_route where
  "list_provider_models_route = endpoint ''GET'' ''/providers/{provider}/models'' ''list_provider_models'' Anyone"

definition providers_router :: "api_route list" where
  "providers_router = [list_providers_route, get_provider_route, list_provider_models_route]"

definition bootstrap_route :: api_route where
  "bootstrap_route = endpoint ''POST'' ''/bootstrap'' ''bootstrap'' Anyone"

definition bootstrap_router :: "api_route list" where
  "bootstrap_router = [bootstrap_route]"

definition create_organization_route :: api_route where
  "create_organization_route = endpoint ''POST'' ''/organizations'' ''create_organization'' Administrator"

definition get_organization_route :: api_route where
  "get_organization_route = endpoint ''GET'' ''/organizations/{org_id}'' ''get_organization'' KeyHolder"

definition organizations_router :: "api_route list" where
  "organizations_router = [create_organization_route, get_organization_route]"

definition create_team_route :: api_route where
  "create_team_route = endpoint ''POST'' ''/organizations/{org_id}/teams'' ''create_team'' Administrator"

definition list_teams_route :: api_route where
  "list_teams_route = endpoint ''GET'' ''/organizations/{org_id}/teams'' ''list_teams'' Administrator"

definition teams_router :: "api_route list" where
  "teams_router = [create_team_route, list_teams_route]"

definition create_api_key_route :: api_route where
  "create_api_key_route = endpoint ''POST'' ''/teams/{team_id}/keys'' ''create_api_key'' Administrator"

definition list_api_keys_route :: api_route where
  "list_api_keys_route = endpoint ''GET'' ''/teams/{team_id}/keys'' ''list_api_keys'' Administrator"

definition revoke_api_key_route :: api_route where
  "revoke_api_key_route = endpoint ''POST'' ''/teams/{team_id}/keys/{key_id}/revoke'' ''revoke_api_key'' Administrator"

definition api_keys_router :: "api_route list" where
  "api_keys_router = [create_api_key_route, list_api_keys_route, revoke_api_key_route]"

definition create_budget_route :: api_route where
  "create_budget_route = endpoint ''POST'' ''/teams/{team_id}/budget'' ''create_budget'' Administrator"

definition get_budget_route :: api_route where
  "get_budget_route = endpoint ''GET'' ''/teams/{team_id}/budget'' ''get_budget'' Administrator"

definition update_budget_route :: api_route where
  "update_budget_route = endpoint ''PATCH'' ''/teams/{team_id}/budget'' ''update_budget'' Administrator"

definition delete_budget_route :: api_route where
  "delete_budget_route = endpoint ''DELETE'' ''/teams/{team_id}/budget'' ''delete_budget'' Administrator"

definition budget_router :: "api_route list" where
  "budget_router = [create_budget_route, get_budget_route, update_budget_route, delete_budget_route]"

definition get_team_rate_limits_route :: api_route where
  "get_team_rate_limits_route = endpoint ''GET'' ''/teams/{team_id}/rate-limits'' ''get_team_rate_limits'' Administrator"

definition set_team_rate_limits_route :: api_route where
  "set_team_rate_limits_route = endpoint ''POST'' ''/teams/{team_id}/rate-limits'' ''set_team_rate_limits'' Administrator"

definition delete_team_rate_limits_route :: api_route where
  "delete_team_rate_limits_route = endpoint ''DELETE'' ''/teams/{team_id}/rate-limits'' ''delete_team_rate_limits'' Administrator"

definition rate_limits_router :: "api_route list" where
  "rate_limits_router = [get_team_rate_limits_route, set_team_rate_limits_route, delete_team_rate_limits_route]"

definition get_requests_route :: api_route where
  "get_requests_route = endpoint ''GET'' ''/requests'' ''get_requests'' Administrator"

definition get_costs_route :: api_route where
  "get_costs_route = endpoint ''GET'' ''/costs'' ''get_costs'' Administrator"

definition get_latency_route :: api_route where
  "get_latency_route = endpoint ''GET'' ''/latency'' ''get_latency'' Administrator"

definition get_errors_route :: api_route where
  "get_errors_route = endpoint ''GET'' ''/errors'' ''get_errors'' Administrator"

definition get_fallbacks_route :: api_route where
  "get_fallbacks_route = endpoint ''GET'' ''/fallbacks'' ''get_fallbacks'' Administrator"

definition get_budget_events_route :: api_route where
  "get_budget_events_route = endpoint ''GET'' ''/budget-events'' ''get_budget_events'' Administrator"

definition get_timeseries_route :: api_route where
  "get_timeseries_route = endpoint ''GET'' ''/timeseries'' ''get_timeseries'' Administrator"

definition analytics_router :: "api_route list" where
  "analytics_router = with_prefix ''/analytics'' [get_requests_route, get_costs_route, get_latency_route, get_errors_route,
     get_fallbacks_route, get_budget_events_route, get_timeseries_route]"

definition get_me_route :: api_route where
  "get_me_route = endpoint ''GET'' ''/auth/me'' ''get_me'' KeyHolder"

definition auth_me_router :: "api_route list" where
  "auth_me_router = [get_me_route]"

definition list_models_route :: api_route where
  "list_models_route = endpoint ''GET'' ''/models'' ''list_models'' Administrator"

definition create_model_route :: api_route where
  "create_model_route = endpoint ''POST'' ''/models'' ''create_model'' Administrator"

definition get_model_route :: api_route where
  "get_model_route = endpoint ''GET'' ''/models/{model_id}'' ''get_model'' Administrator"

definition update_model_route :: api_route where
  "update_model_route = endpoint ''PATCH'' ''/models/{model_id}'' ''update_model'' Administrator"

definition delete_model_route :: api_route where
  "delete_model_route = endpoint ''DELETE'' ''/models/{model_id}'' ''delete_model'' Administrator"

definition model_registry_router :: "api_route list" where
  "model_registry_router = [list_models_route, create_model_route, get_model_route, update_model_route,
     delete_model_route]"

definition get_policy_route :: api_route where
  "get_policy_route = endpoint ''GET'' ''/teams/{team_id}/policy'' ''get_policy'' Administrator"

definition put_policy_route :: api_route where
  "put_policy_route = endpoint ''PUT'' ''/teams/{team_id}/policy'' ''put_policy'' Administrator"

definition delete_policy_route :: api_route where
  "delete_policy_route = endpoint ''DELETE'' ''/teams/{team_id}/policy'' ''delete_policy'' Administrator"

definition policy_router :: "api_route list" where
  "policy_router = [get_policy_route, put_policy_route, delete_policy_route]"

section \<open>The application\<close>

datatype middleware = CORS "string list" | RequestLogging | RequestID

record fastapi =
  fa_middleware :: "middleware list"  \<comment> \<open>outermost first\<close>
  fa_routes :: "api_route list"

definition add_middleware :: "middleware \<Rightarrow> fastapi \<Rightarrow> fastapi" where
  "add_middleware m app = app\<lparr>fa_middleware := m # fa_middleware app\<rparr>"

definition include_router :: "string \<Rightarrow> api_route list \<Rightarrow> fastapi \<Rightarrow> fastapi" where
  "include_router prefix rs app = app\<lparr>fa_routes := fa_routes app @ with_prefix prefix rs\<rparr>"

definition create_application :: "string \<Rightarrow> fastapi" where
  "create_application cors_origins =
     (let app = \<lparr>fa_middleware = [], fa_routes = []\<rparr>;
          app = add_middleware (CORS (cors_origins_list cors_origins)) app;
          app = add_middleware RequestLogging app;
          app = add_middleware RequestID app;
          app = include_router [] system_router app;
          app = include_router [] metrics_router app
      in fold (include_router ''/api/v1'')
           [chat_router, providers_router, bootstrap_router, organizations_router, teams_router, api_keys_router,
            budget_router, rate_limits_router, analytics_router, auth_me_router, model_registry_router, policy_router]
           app)"

section \<open>Serving a request\<close>

datatype segment = Lit string | Param

definition segment :: "string \<Rightarrow> segment" where
  "segment s = (case s of c # cs \<Rightarrow> if c = CHR ''{'' then Param else Lit s | [] \<Rightarrow> Lit s)"

definition pattern :: "api_route \<Rightarrow> segment list" where
  "pattern r = map segment (split_on CHR ''/'' (rt_path r))"

fun segment_fits :: "segment \<Rightarrow> string \<Rightarrow> bool" where
  "segment_fits (Lit s) t = (s = t)"
| "segment_fits Param t = (t \<noteq> [])"

definition fits :: "string \<Rightarrow> string \<Rightarrow> api_route \<Rightarrow> bool" where
  "fits m path r = (rt_method r = m \<and> list_all2 segment_fits (pattern r) (split_on CHR ''/'' path))"

definition admit :: "auth_env \<Rightarrow> draw \<Rightarrow> string option \<Rightarrow> auth_db \<Rightarrow> access \<Rightarrow> exn + request_context option" where
  "admit env dr cred db a = (case a of
     Anyone \<Rightarrow> Inr None
   | KeyHolder \<Rightarrow> map_sum id Some (caller env dr cred db)
   | Administrator \<Rightarrow> map_sum id Some (require_admin (caller env dr cred db)))"

text \<open>
  What becomes of a request: no route fits (the framework answers itself: 404, 405 or a redirect), its
  dependencies raise, or the handler runs, with the context they found.
\<close>

datatype disposition = Unrouted | Refused exn | Handled string "request_context option"

definition serve ::
  "api_route list \<Rightarrow> auth_env \<Rightarrow> draw \<Rightarrow> string option \<Rightarrow> auth_db \<Rightarrow> string \<Rightarrow> string \<Rightarrow> disposition" where
  "serve routes env dr cred db m path = (case List.find (fits m path) routes of
     None \<Rightarrow> Unrouted
   | Some r \<Rightarrow> (case admit env dr cred db (rt_access r) of
         Inl e \<Rightarrow> Refused e
       | Inr ctx \<Rightarrow> Handled (rt_handler r) ctx))"

section \<open>Facts about sessions and clients\<close>

text \<open>
  The endpoints of an account's model run in such a session: \<open>run_session\<close> is this one around a handler
  that leaves committing to it.
\<close>

definition in_session :: "('d \<Rightarrow> (exn + 'a) \<times> 'd) \<Rightarrow> 'd session \<Rightarrow> (exn + 'a) \<times> 'd session" where
  "in_session handler s = (case handler (ss_working s) of (r, d) \<Rightarrow> (r, s\<lparr>ss_working := d\<rparr>))"

lemmas session_defs = get_db_session_def open_session_def session_commit_def session_rollback_def

lemma run_session_refines: "run_session d (handler d) = get_db_session True None (in_session handler) d"
  by (simp add: run_session_def session_defs in_session_def split: prod.splits sum.splits)

text \<open>
  A request that fails leaves of its writes exactly what it committed itself, a request that succeeds
  all of them; a failing commit at the end is a failure too.
\<close>

theorem session_keeps_commits:
  assumes "body (open_session d) = (r, s)"
  shows "get_db_session True failure body d =
    (case r of Inl e \<Rightarrow> (Inl e, ss_committed s)
     | Inr v \<Rightarrow> (case failure of Some e \<Rightarrow> (Inl e, ss_committed s) | None \<Rightarrow> (Inr v, ss_working s)))"
  using assms by (simp add: session_defs split: sum.splits option.splits)

theorem session_keeps_commits_witness:
  "get_db_session True None (\<lambda>s. (Inl not_initialised :: exn + unit, (session_commit (s\<lparr>ss_working := 1\<rparr>))\<lparr>ss_working := 2\<rparr>)) (0 :: nat)
     = (Inl not_initialised, 1)"
  by (subst session_keeps_commits [OF refl]) (simp add: open_session_def session_commit_def)

text \<open>
  After a startup that succeeds both clients are open. The shutdown stops the refresh and closes both,
  unless disposing of the engine raises: then the Redis client stays open. Either way the session
  factory stays, so a late request still gets a session instead of the error of \<open>get_db_session\<close>.
\<close>

theorem lifespan_closes_clients:
  assumes "lifespan_enter f no_clients = Inr c" "lifespan_exit f c = (r, c')"
  shows "cl_engine c = Some Open \<and> cl_redis c = Some Open \<and> cl_refresh c \<and>
    \<not> cl_refresh c' \<and> cl_factory c' \<and>
    (cl_engine c' = Some Closed) = (cf_dispose f = None) \<and>
    (cl_redis c' = Some Closed) = (cf_dispose f = None \<and> cf_aclose f = None) \<and>
    ((\<exists>u. r = Inr u) = (cf_dispose f = None \<and> cf_aclose f = None))"
  using assms
  by (auto simp: lifespan_enter_def lifespan_exit_def init_db_def init_redis_def close_db_def close_redis_def
      no_clients_def split: option.splits)

theorem lifespan_closes_clients_witness:
  "\<exists>c. snd (lifespan_exit \<lparr>cf_engine = None, cf_redis = None, cf_dispose = None, cf_aclose = None\<rparr> c) =
     \<lparr>cl_engine = Some Closed, cl_factory = True, cl_redis = Some Closed, cl_refresh = False\<rparr>"
proof -
  let ?f = "\<lparr>cf_engine = None, cf_redis = None, cf_dispose = None, cf_aclose = None\<rparr>"
  obtain c where c: "lifespan_enter ?f no_clients = Inr c"
    by (simp add: lifespan_enter_def init_db_def init_redis_def)
  obtain r c' where "lifespan_exit ?f c = (r, c')" by fastforce
  moreover from this have "c' = \<lparr>cl_engine = Some Closed, cl_factory = True, cl_redis = Some Closed, cl_refresh = False\<rparr>"
    using lifespan_closes_clients [OF c] by (cases c') simp
  ultimately show ?thesis by (intro exI [of _ c]) simp
qed

section \<open>Facts about the routes\<close>

text \<open>Two patterns overlap if some path fits both.\<close>

fun segments_overlap :: "segment \<Rightarrow> segment \<Rightarrow> bool" where
  "segments_overlap (Lit s) (Lit t) = (s = t)"
| "segments_overlap (Lit s) Param = (s \<noteq> [])"
| "segments_overlap Param (Lit t) = (t \<noteq> [])"
| "segments_overlap Param Param = True"

definition routes_overlap :: "string \<times> segment list \<Rightarrow> string \<times> segment list \<Rightarrow> bool" where
  "routes_overlap r r' = (fst r = fst r' \<and> list_all2 segments_overlap (snd r) (snd r'))"

lemma segment_overlap: "segment_fits s t \<Longrightarrow> segment_fits s' t \<Longrightarrow> segments_overlap s s'"
  by (cases s; cases s') auto

lemma overlap_complete: "list_all2 segment_fits p ts \<Longrightarrow> list_all2 segment_fits q ts \<Longrightarrow> list_all2 segments_overlap p q"
proof (induction p ts arbitrary: q rule: list_all2_induct)
  case (Cons s p t ts)
  then show ?case by (cases q) (auto intro: segment_overlap)
qed simp

definition routing_key :: "api_route \<Rightarrow> string \<times> segment list" where
  "routing_key r = (rt_method r, pattern r)"

definition gateway_routes :: "api_route list" where
  "gateway_routes = fa_routes (create_application [])"

lemma gateway_routes: "fa_routes (create_application cors) = gateway_routes"
  by (simp add: gateway_routes_def create_application_def include_router_def add_middleware_def Let_def)

lemma no_routes_overlap: "sorted_wrt (\<lambda>r r'. \<not> routes_overlap r r') (map routing_key gateway_routes)"
  by code_simp

lemma fits_overlap: "fits m path r \<Longrightarrow> fits m path r' \<Longrightarrow> routes_overlap (routing_key r) (routing_key r')"
  by (auto simp: fits_def routes_overlap_def routing_key_def intro: overlap_complete)

lemma fits_unique:
  assumes "sorted_wrt (\<lambda>r r'. \<not> routes_overlap r r') (map routing_key rs)"
    and "r \<in> set rs" "r' \<in> set rs" "fits m path r" "fits m path r'"
  shows "r = r'"
  using assms(1-3)
proof (induction rs)
  case (Cons x rs)
  then show ?case
    using fits_overlap [OF assms(4,5)] fits_overlap [OF assms(5,4)] by auto
qed simp

lemma find_unique:
  assumes "\<And>x y. x \<in> set xs \<Longrightarrow> y \<in> set xs \<Longrightarrow> P x \<Longrightarrow> P y \<Longrightarrow> x = y" "set xs = set ys"
  shows "List.find P xs = List.find P ys"
proof (cases "List.find P xs")
  case None
  then show ?thesis using assms(2) by (metis find_None_iff)
next
  case (Some x)
  then have x: "x \<in> set xs" "P x" by (auto simp: find_Some_iff)
  moreover obtain y where "List.find P ys = Some y" "y \<in> set ys" "P y"
    using x assms(2) by (cases "List.find P ys") (auto simp: find_None_iff find_Some_iff)
  ultimately show ?thesis using Some assms by metis
qed

text \<open>
  No route of the gateway shadows another. At most one of them fits a request, so the order in which
  the routers are included, and the routes within them, does not matter: any arrangement of the same
  routes serves every request alike.
\<close>

theorem route_order_irrelevant:
  assumes "mset routes = mset (fa_routes (create_application cors))"
  shows "serve routes env dr cred db m path = serve (fa_routes (create_application cors)) env dr cred db m path"
proof -
  have "List.find (fits m path) gateway_routes = List.find (fits m path) routes"
    using fits_unique [OF no_routes_overlap] mset_eq_setD [OF assms]
    by (intro find_unique) (auto simp: gateway_routes)
  then show ?thesis by (simp add: serve_def gateway_routes)
qed

theorem route_order_irrelevant_witness:
  "serve (rev (fa_routes (create_application ''*''))) example_env (example_draw ''a'') None empty_db ''GET'' ''/health'' =
     Handled ''health'' None"
proof -
  have "serve (fa_routes (create_application ''*'')) example_env (example_draw ''a'') None empty_db ''GET'' ''/health'' =
      Handled ''health'' None"
    by code_simp
  then show ?thesis by (subst route_order_irrelevant) simp_all
qed

section \<open>Who reaches what\<close>

definition open_handlers :: "string list" where
  "open_handlers = [''root'', ''version'', ''health'', ''prometheus_metrics'', ''list_providers'', ''get_provider'',
     ''list_provider_models'', ''bootstrap'']"

definition member_handlers :: "string list" where
  "member_handlers = [''chat_completions'', ''get_organization'', ''get_me'']"

lemma route_access:
  "list_all (\<lambda>r. case rt_access r of
       Anyone \<Rightarrow> List.member open_handlers (rt_handler r) \<and> (rt_method r = ''GET'' \<or> rt_handler r = ''bootstrap'')
     | KeyHolder \<Rightarrow> List.member member_handlers (rt_handler r) \<and> (rt_method r = ''GET'' \<or> rt_handler r = ''chat_completions'')
     | Administrator \<Rightarrow> True) gateway_routes"
  by code_simp

lemma admit_iff:
  "admit env dr cred db a = Inr ctx \<longleftrightarrow> (case a of
     Anyone \<Rightarrow> ctx = None
   | KeyHolder \<Rightarrow> \<exists>c. ctx = Some c \<and> caller env dr cred db = Inr c
   | Administrator \<Rightarrow> \<exists>c. ctx = Some c \<and> caller env dr cred db = Inr c \<and> ctx_role c = ''admin'')"
  by (cases "caller env dr cred db") (auto simp: admit_def require_admin_def split: access.splits)



end
