(* ===== verification/Retry.thy ===== *)
theory Retry
  imports Prelude
begin

text \<open>
  \<open>app/reliability/retry.py\<close>: the exponential backoff policy. The draw of \<open>random.uniform\<close> is an
  argument \<open>u\<close> in \<open>[0, 1]\<close>.
\<close>

record retry_policy =
  max_retries :: int
  base_delay_seconds :: real
  max_delay_seconds :: real
  jitter :: bool

definition default_retry_policy :: retry_policy where
  "default_retry_policy = \<lparr>max_retries = 2, base_delay_seconds = 1 / 4, max_delay_seconds = 2,
     jitter = True\<rparr>"

definition uniform :: "real \<Rightarrow> real \<Rightarrow> real \<Rightarrow> real" where
  "uniform a b u = a + (b - a) * u"

definition compute_delay :: "real \<Rightarrow> retry_policy \<Rightarrow> nat \<Rightarrow> real" where
  "compute_delay u pol retry_attempt =
     (let raw_delay = base_delay_seconds pol * 2 ^ retry_attempt;
          capped_delay = min (max_delay_seconds pol) raw_delay
      in if jitter pol then
           (let jitter_amount = uniform 0 (15 / 100 * capped_delay) u
            in py_round (min (max_delay_seconds pol) (capped_delay + jitter_amount)) 4)
         else py_round capped_delay 4)"

text \<open>\<open>sleep\<close> returns how long the task is suspended: a non-positive delay is skipped.\<close>

definition sleep_time :: "real \<Rightarrow> real" where
  "sleep_time delay = (if delay > 0 then delay else 0)"

lemma sleep_time_nonneg [simp]: "0 \<le> sleep_time d"
  by (simp add: sleep_time_def)

text \<open>The capped exponential the delay is built on.\<close>

definition capped_delay :: "retry_policy \<Rightarrow> nat \<Rightarrow> real" where
  "capped_delay pol n = min (max_delay_seconds pol) (base_delay_seconds pol * 2 ^ n)"

text \<open>
  Whatever the jitter draws, the delay before the \<open>n\<close>-th retry lies between the rounded
  capped exponential \<open>min max_delay (base * 2^n)\<close> and that plus 15 percent, and never exceeds the
  rounded \<open>max_delay\<close>; it is never negative.
\<close>

theorem compute_delay_bounds:
  assumes "0 \<le> base_delay_seconds pol" and "0 \<le> max_delay_seconds pol" and "0 \<le> u" and "u \<le> 1"
  shows "0 \<le> compute_delay u pol n \<and> py_round (capped_delay pol n) 4 \<le> compute_delay u pol n \<and>
    compute_delay u pol n \<le> py_round (115 / 100 * capped_delay pol n) 4 \<and>
    compute_delay u pol n \<le> py_round (max_delay_seconds pol) 4"
proof -
  define c where "c = capped_delay pol n"
  define d where "d = (if jitter pol then min (max_delay_seconds pol) (c + 15 / 100 * c * u) else c)"
  have c: "0 \<le> c" "c \<le> max_delay_seconds pol"
    using assms by (simp_all add: c_def capped_delay_def)
  have "0 \<le> 15 / 100 * c * u" "15 / 100 * c * u \<le> 15 / 100 * c"
    using c(1) assms(3,4) by (simp_all add: mult_left_le)
  then have d: "0 \<le> d" "c \<le> d" "d \<le> 115 / 100 * c" "d \<le> max_delay_seconds pol"
    using c by (auto simp: d_def min_def)
  have "compute_delay u pol n = py_round d 4"
    by (simp add: compute_delay_def Let_def uniform_def d_def c_def capped_delay_def)
  with d show ?thesis
    by (simp add: c_def [symmetric] py_round_mono py_round_nonneg)
qed

theorem compute_delay_bounds_witness:
  "compute_delay (1 / 2) default_retry_policy 5 \<le> py_round 2 4"
  using compute_delay_bounds [of default_retry_policy "1 / 2" 5]
  by (simp add: default_retry_policy_def)

lemma compute_delay_nonneg:
  "0 \<le> base_delay_seconds pol \<Longrightarrow> 0 \<le> max_delay_seconds pol \<Longrightarrow> 0 \<le> u \<Longrightarrow>
     0 \<le> compute_delay u pol n"
  by (auto simp: compute_delay_def Let_def uniform_def intro!: py_round_nonneg)

lemma compute_delay_mono_no_jitter:
  "\<not> jitter pol \<Longrightarrow> 0 \<le> base_delay_seconds pol \<Longrightarrow> m \<le> n \<Longrightarrow>
     compute_delay u pol m \<le> compute_delay v pol n"
  by (simp add: compute_delay_def Let_def py_round_mono min.coboundedI2 mult_left_mono)

end
