(* ===== verification/Failover.thy ===== *)
theory Failover
  imports Routing Breaker Retry
begin

text \<open>
  The state and the outside world of one request's execution, and the failover selection
  (\<open>app/reliability/failover.py\<close>).

  What the code cannot decide is in a \<open>world\<close>: the readings of the monotonic clock, the random draws,
  the outcome of each provider call, the probes of each candidate build, and what other requests do to
  the shared breakers, statistics and catalog while this one is suspended at an \<open>await\<close>. Each is a
  function of a counter kept in the state, so every theorem holds for every world. The gateway runs
  on one event loop: between two awaits a request runs alone.
\<close>

record shared =
  s_breakers :: breaker_registry
  s_stats :: stats_tracker
  s_catalog :: model_catalog

record world =
  w_clock :: "nat \<Rightarrow> real"
  w_draw :: "nat \<Rightarrow> real"
  w_chat :: "nat \<Rightarrow> string \<Rightarrow> chat_request \<Rightarrow> exn + chat_response"
  w_probe :: "nat \<Rightarrow> string \<Rightarrow> provider_probe"
  w_others :: "nat \<Rightarrow> shared \<Rightarrow> shared"

record exec_state =
  x_clock :: nat
  x_draws :: nat
  x_calls :: nat
  x_builds :: nat
  x_awaits :: nat
  x_shared :: shared

text \<open>The configuration of the executor and its routing engine.\<close>

record executor =
  k_registry :: provider_registry
  k_auto_weights :: "policy_weights option"
  k_default_mode :: string
  k_retry :: retry_policy
  k_total_timeout :: real
  k_max_failover :: int

definition engine_of :: "executor \<Rightarrow> shared \<Rightarrow> routing_engine" where
  "engine_of k sh = \<lparr>en_registry = k_registry k, en_stats = s_stats sh, en_catalog = s_catalog sh,
     en_auto_weights = k_auto_weights k, en_default_mode = k_default_mode k\<rparr>"

definition clock :: "world \<Rightarrow> exec_state \<Rightarrow> real \<times> exec_state" where
  "clock w x = (w_clock w (x_clock x), x\<lparr>x_clock := x_clock x + 1\<rparr>)"

definition suspend :: "world \<Rightarrow> exec_state \<Rightarrow> exec_state" where
  "suspend w x = x\<lparr>x_awaits := x_awaits x + 1, x_shared := w_others w (x_awaits x) (x_shared x)\<rparr>"

definition set_breakers :: "breaker_registry \<Rightarrow> exec_state \<Rightarrow> exec_state" where
  "set_breakers r x = x\<lparr>x_shared := (x_shared x)\<lparr>s_breakers := r\<rparr>\<rparr>"

definition set_stats :: "stats_tracker \<Rightarrow> exec_state \<Rightarrow> exec_state" where
  "set_stats t x = x\<lparr>x_shared := (x_shared x)\<lparr>s_stats := t\<rparr>\<rparr>"

section \<open>Failover selection\<close>

definition check_breaker :: "world \<Rightarrow> string \<Rightarrow> exec_state \<Rightarrow> bool \<times> exec_state" where
  "check_breaker w p x = (let (now, x) = clock w x;
     (ok, reg) = reg_can_execute now p (s_breakers (x_shared x)) in (ok, set_breakers reg x))"

text \<open>\<open>[c for c in eligible if circuit_registry.can_execute(c.provider)]\<close>\<close>

fun admitted :: "world \<Rightarrow> routing_candidate list \<Rightarrow> exec_state \<Rightarrow> routing_candidate list \<times> exec_state" where
  "admitted w [] x = ([], x)"
| "admitted w (c # cs) x =
     (let (ok, x) = check_breaker w (rc_provider c) x; (rest, x) = admitted w cs x
      in (if ok then c # rest else rest, x))"

definition build :: "world \<Rightarrow> executor \<Rightarrow> exec_state \<Rightarrow> routing_candidate list \<times> exec_state" where
  "build w k x =
     (let n = x_builds x; x = suspend w (x\<lparr>x_builds := n + 1\<rparr>); sh = x_shared x
      in (build_candidates (w_probe w n) (k_registry k) (s_catalog sh) (s_stats sh), x))"

definition select_fallback ::
  "world \<Rightarrow> executor \<Rightarrow> chat_request \<Rightarrow> string set \<Rightarrow> exec_state \<Rightarrow> (exn + routing_candidate option) \<times> exec_state" where
  "select_fallback w k q attempted x =
     (let (cs, x) = build w k x in
      if cs = [] then (Inr None, x)
      else let eligible = filter (\<lambda>c. lower (rc_provider c) \<notin> lower ` attempted) cs in
      if eligible = [] then (Inr None, x)
      else let (available, x) = admitted w eligible x in
      if available = [] then (Inr None, x)
      else let available = capable_pool q available in
      if available = [] then (Inr None, x)
      else let pool = healthy_pool available in
      case resolve_routing_mode (k_default_mode k) q of
        Inl err \<Rightarrow> (Inl err, x)
      | Inr mode \<Rightarrow>
         (let scored = score_candidates (get_weights (k_auto_weights k) mode) pool in
          if scored = [] then (Inr None, x) else (Inr (Some (sc_candidate (hd scored))), x)))"

section \<open>Facts\<close>

text \<open>The parts of the state the selection leaves alone: no provider is called, nothing is drawn.\<close>

lemma clock_frame [frame]:
  "x_calls (snd (clock w x)) = x_calls x" "x_draws (snd (clock w x)) = x_draws x"
  "x_shared (snd (clock w x)) = x_shared x" "x_builds (snd (clock w x)) = x_builds x"
  "x_awaits (snd (clock w x)) = x_awaits x"
  by (simp_all add: clock_def)

lemma suspend_frame [frame]: "x_calls (suspend w x) = x_calls x" "x_draws (suspend w x) = x_draws x"
  by (simp_all add: suspend_def)

lemma set_frame [frame]: "x_calls (set_breakers r x) = x_calls x" "x_draws (set_breakers r x) = x_draws x"
  "x_calls (set_stats t x) = x_calls x" "x_draws (set_stats t x) = x_draws x"
  "s_breakers (x_shared (set_breakers r x)) = r" "s_stats (x_shared (set_breakers r x)) = s_stats (x_shared x)"
  "s_breakers (x_shared (set_stats t x)) = s_breakers (x_shared x)" "s_stats (x_shared (set_stats t x)) = t"
  by (simp_all add: set_breakers_def set_stats_def)

lemma check_breaker_frame [frame]:
  "x_calls (snd (check_breaker w p x)) = x_calls x" "x_draws (snd (check_breaker w p x)) = x_draws x"
  by (simp_all add: check_breaker_def split_def Let_def frame)

lemma admitted_frame [frame]:
  "x_calls (snd (admitted w cs x)) = x_calls x" "x_draws (snd (admitted w cs x)) = x_draws x"
  by (induction cs arbitrary: x) (simp_all add: split_def Let_def frame)

lemma build_frame [frame]: "x_calls (snd (build w k x)) = x_calls x" "x_draws (snd (build w k x)) = x_draws x"
  by (simp_all add: build_def Let_def frame)

lemma select_fallback_frame [frame]:
  "x_calls (snd (select_fallback w k q a x)) = x_calls x"
  "x_draws (snd (select_fallback w k q a x)) = x_draws x"
  by (simp_all add: select_fallback_def split_def Let_def frame split: sum.splits)

lemma admitted_subset: "set (fst (admitted w cs x)) \<subseteq> set cs"
  by (induction cs arbitrary: x) (auto simp: split_def Let_def)

lemma capable_pool_mem: "c \<in> set (capable_pool q cs) \<longleftrightarrow> c \<in> set cs \<and> has_capabilities (required_caps q) c"
  by (auto simp: capable_pool_def filter_by_capabilities_def)

lemma select_fallback_Some:
  assumes "select_fallback w k q attempted x = (Inr (Some c), x')"
  obtains cs x1 where "build w k x = (cs, x1)"
    "c \<in> set (fst (admitted w (filter (\<lambda>c. lower (rc_provider c) \<notin> lower ` attempted) cs) x1))"
    "x' = snd (admitted w (filter (\<lambda>c. lower (rc_provider c) \<notin> lower ` attempted) cs) x1)"
    "c \<in> set cs" "lower (rc_provider c) \<notin> lower ` attempted" "has_capabilities (required_caps q) c"
    "(\<exists>d \<in> set (fst (admitted w (filter (\<lambda>c. lower (rc_provider c) \<notin> lower ` attempted) cs) x1)).
        has_capabilities (required_caps q) d \<and> rc_is_healthy d) \<longrightarrow> rc_is_healthy c"
proof -
  obtain cs x1 where build: "build w k x = (cs, x1)" by (meson surj_pair)
  let ?el = "filter (\<lambda>c. lower (rc_provider c) \<notin> lower ` attempted) cs"
  obtain av x2 where av: "admitted w ?el x1 = (av, x2)" by (meson surj_pair)
  obtain mode where sel: "capable_pool q av \<noteq> []"
    "c = sc_candidate (hd (score_candidates (get_weights (k_auto_weights k) mode) (healthy_pool (capable_pool q av))))"
    "x' = x2"
    using assms build av by (auto simp: select_fallback_def Let_def split: sum.splits if_splits)
  have "c \<in> set (healthy_pool (capable_pool q av))"
    using scorer.best_mem [of "healthy_pool (capable_pool q av)"] sel by simp
  then have "c \<in> set av" "has_capabilities (required_caps q) c"
    "(\<exists>d \<in> set av. has_capabilities (required_caps q) d \<and> rc_is_healthy d) \<longrightarrow> rc_is_healthy c"
    by (auto simp: healthy_pool_set capable_pool_mem split: if_splits)
  then show ?thesis
    using that [OF build] av sel(3) admitted_subset [of w ?el x1] by auto
qed

lemma fallback_is_eligible_aux:
  "select_fallback w k q attempted x = (Inr (Some c), x') \<Longrightarrow> lower (rc_provider c) \<notin> lower ` attempted"
  by (erule select_fallback_Some)

text \<open>
  A fallback candidate was found by the builder, belongs to no provider already tried for this
  request, has the required capabilities, was admitted by its circuit breaker during this selection,
  and is healthy if any such candidate is.
\<close>

theorem fallback_is_eligible:
  assumes "select_fallback w k q attempted x = (Inr (Some c), x')"
  shows "\<exists>cs x1 av. build w k x = (cs, x1) \<and> c \<in> set cs \<and> lower (rc_provider c) \<notin> lower ` attempted \<and>
    has_capabilities (required_caps q) c \<and>
    av = fst (admitted w (filter (\<lambda>c. lower (rc_provider c) \<notin> lower ` attempted) cs) x1) \<and> c \<in> set av \<and>
    ((\<exists>d \<in> set av. has_capabilities (required_caps q) d \<and> rc_is_healthy d) \<longrightarrow> rc_is_healthy c)"
  using assms by (rule select_fallback_Some) blast

section \<open>Half-open trials and failover\<close>

lemma check_breaker_at:
  "breaker_at (s_breakers (x_shared (snd (check_breaker w p x)))) q =
     (if provider_key q = provider_key p
      then snd (can_execute (w_clock w (x_clock x)) (breaker_at (s_breakers (x_shared x)) p))
      else breaker_at (s_breakers (x_shared x)) q)"
  by (simp add: check_breaker_def clock_def reg_can_execute_def split_def Let_def frame on_breaker_at)

lemma check_breaker_result:
  "fst (check_breaker w p x) = fst (can_execute (w_clock w (x_clock x)) (breaker_at (s_breakers (x_shared x)) p))"
  by (simp add: check_breaker_def clock_def reg_can_execute_def split_def Let_def on_breaker_result)

text \<open>A breaker that is not closed and allows a single trial; its trial spent.\<close>

definition recovering :: "breaker \<Rightarrow> bool" where
  "recovering b = (b_state b \<noteq> CLOSED \<and> half_open_trials b = 1 \<and> 0 \<le> half_open_trial_count b \<and>
     half_open_trial_count b \<le> 1)"

definition trial_spent :: "breaker \<Rightarrow> bool" where
  "trial_spent b = (b_state b = HALF_OPEN \<and> half_open_trials b \<le> half_open_trial_count b)"

lemma recovering_can_execute:
  assumes "recovering b"
  shows "recovering (snd (can_execute t b)) \<and> (fst (can_execute t b) \<longrightarrow> trial_spent (snd (can_execute t b)))"
  using assms
  by (auto simp: recovering_def trial_spent_def can_execute_def resolve_state_def Let_def
      split: option.splits if_splits)

lemma trial_spent_can_execute: "trial_spent b \<Longrightarrow> can_execute t b = (False, b)"
  by (simp add: trial_spent_def can_execute_def resolve_state_def)

lemma admitted_spends_trial:
  assumes "recovering (breaker_at (s_breakers (x_shared x)) p)"
  shows "(trial_spent (breaker_at (s_breakers (x_shared x)) p) \<longrightarrow>
      trial_spent (breaker_at (s_breakers (x_shared (snd (admitted w cs x)))) p)) \<and>
    (\<forall>c \<in> set (fst (admitted w cs x)). provider_key (rc_provider c) = provider_key p \<longrightarrow>
      trial_spent (breaker_at (s_breakers (x_shared (snd (admitted w cs x)))) p))"
  using assms
proof (induction cs arbitrary: x)
  case Nil
  then show ?case by simp
next
  case (Cons c cs)
  let ?x = "snd (check_breaker w (rc_provider c) x)"
  let ?b = "breaker_at (s_breakers (x_shared x)) p"
  have same: "breaker_at (s_breakers (x_shared x)) (rc_provider c) = ?b"
    if "provider_key (rc_provider c) = provider_key p"
    using that breaker_cells.cell_key by blast
  have rec: "recovering (breaker_at (s_breakers (x_shared ?x)) p)"
    using Cons.prems recovering_can_execute by (simp add: check_breaker_at same)
  have spent: "trial_spent ?b \<longrightarrow> trial_spent (breaker_at (s_breakers (x_shared ?x)) p)"
    using trial_spent_can_execute by (simp add: check_breaker_at same)
  have now: "trial_spent (breaker_at (s_breakers (x_shared ?x)) p)"
    if "fst (check_breaker w (rc_provider c) x)" "provider_key (rc_provider c) = provider_key p"
    using that recovering_can_execute [OF Cons.prems] by (simp add: check_breaker_at check_breaker_result same)
  have split: "fst (admitted w (c # cs) x) =
      (if fst (check_breaker w (rc_provider c) x) then c # fst (admitted w cs ?x) else fst (admitted w cs ?x))"
    "snd (admitted w (c # cs) x) = snd (admitted w cs ?x)"
    by (simp_all add: split_def Let_def)
  show ?case
    using Cons.IH [OF rec] spent now unfolding split by (auto split: if_splits)
qed

lemma fallback_trial_refused:
  assumes "select_fallback w k q attempted x = (Inr (Some c), x')"
    and "recovering (breaker_at (s_breakers (x_shared (snd (build w k x)))) (rc_provider c))"
  shows "\<not> fst (reg_can_execute t (rc_provider c) (s_breakers (x_shared x')))"
proof -
  obtain cs x1 where sel: "build w k x = (cs, x1)"
    "c \<in> set (fst (admitted w (filter (\<lambda>c. lower (rc_provider c) \<notin> lower ` attempted) cs) x1))"
    "x' = snd (admitted w (filter (\<lambda>c. lower (rc_provider c) \<notin> lower ` attempted) cs) x1)"
    using select_fallback_Some [OF assms(1)] by metis
  have "recovering (breaker_at (s_breakers (x_shared x1)) (rc_provider c))"
    using assms(2) sel(1) by simp
  from admitted_spends_trial [OF this]
  have "trial_spent (breaker_at (s_breakers (x_shared x')) (rc_provider c))"
    using sel(2,3) by blast
  then show ?thesis
    by (simp add: reg_can_execute_def on_breaker_result trial_spent_can_execute)
qed

text \<open>
  Failover spends the trial it needs: with the default single half-open trial, when the selected
  fallback's breaker was not closed, choosing it has used up that trial, so every later
  \<open>can_execute\<close> for it is refused, at any time, until a verdict is recorded.
\<close>

theorem fallback_spends_half_open_trial:
  assumes "select_fallback w k q attempted x = (Inr (Some c), x')"
    and "recovering (breaker_at (s_breakers (x_shared (snd (build w k x)))) (rc_provider c))"
  shows "\<not> fst (reg_can_execute t (rc_provider c) (s_breakers (x_shared x')))"
  using assms by (rule fallback_trial_refused)

section \<open>An example world\<close>

definition example_world :: "(nat \<Rightarrow> string \<Rightarrow> chat_request \<Rightarrow> exn + chat_response) \<Rightarrow> world" where
  "example_world chat = \<lparr>w_clock = real, w_draw = (\<lambda>n. 0), w_chat = chat,
     w_probe = (\<lambda>n. example_probe), w_others = (\<lambda>n sh. sh)\<rparr>"

definition example_executor :: executor where
  "example_executor = \<lparr>k_registry = [(''groq'', ''groq'')], k_auto_weights = None, k_default_mode = ''auto'',
     k_retry = default_retry_policy, k_total_timeout = 120, k_max_failover = 2\<rparr>"

text \<open>A state in which the circuit of groq is half-open with its trial free.\<close>

definition recovering_state :: exec_state where
  "recovering_state = \<lparr>x_clock = 0, x_draws = 0, x_calls = 0, x_builds = 0, x_awaits = 0,
     x_shared = \<lparr>s_breakers = (new_registry 5 30 1)\<lparr>breakers :=
         [''groq'' \<mapsto> (new_breaker ''groq'' 5 30 1)\<lparr>b_state := HALF_OPEN\<rparr>]\<rparr>,
       s_stats = (\<lambda>k. None), s_catalog = new_catalog\<rparr>\<rparr>"

lemma example_key: "provider_key ''groq'' = ''groq''"
  by code_simp

lemma example_recovering: "recovering (breaker_at (s_breakers (x_shared (snd
    (build (example_world chat) example_executor recovering_state)))) ''groq'')"
  by (simp add: build_def suspend_def Let_def example_world_def recovering_state_def breaker_at_eq
      example_key recovering_def new_breaker_def)

lemma example_build:
  "fst (build (example_world chat) example_executor recovering_state) =
     [candidate_of new_catalog (\<lambda>k. None) ''groq'' True ''m1'']"
  using example_built
  by (simp add: build_def suspend_def Let_def example_world_def recovering_state_def example_executor_def
      example_engine_def)

lemma example_select:
  "\<exists>x'. select_fallback (example_world chat) example_executor auto_request {} recovering_state =
     (Inr (Some (candidate_of new_catalog (\<lambda>k. None) ''groq'' True ''m1'')), x')"
proof -
  let ?c = "candidate_of new_catalog (\<lambda>k. None) ''groq'' True ''m1''"
  obtain x1 where b: "build (example_world chat) example_executor recovering_state = ([?c], x1)"
    using example_build [of chat] by (metis prod.collapse)
  have "b_state (breaker_at (s_breakers (x_shared x1)) ''groq'') = HALF_OPEN"
    "half_open_trial_count (breaker_at (s_breakers (x_shared x1)) ''groq'') <
       half_open_trials (breaker_at (s_breakers (x_shared x1)) ''groq'')"
    using b by (auto simp: build_def suspend_def Let_def example_world_def recovering_state_def
        breaker_at_eq example_key new_breaker_def)
  then have "fst (check_breaker (example_world chat) ''groq'' x1)"
    by (simp add: check_breaker_result can_execute_def resolve_state_def)
  moreover have "rc_provider ?c = ''groq''"
    by (simp add: candidate_of_def Let_def)
  ultimately have av: "fst (admitted (example_world chat) [?c] x1) = [?c]"
    by (simp add: split_def Let_def)
  have mode: "resolve_routing_mode (k_default_mode example_executor) auto_request = Inr ''auto''"
    using auto_request_mode by (simp add: example_executor_def example_engine_def)
  have caps: "capable_pool auto_request cs = cs" for cs
    by (simp add: capable_pool_def required_caps_def auto_request_def example_request_def)
  have pool: "healthy_pool [?c] = [?c]"
    by (simp add: healthy_pool_def)
  have "score_candidates w [?c] = [score_one (normalize_weights w) (pool_bounds_of [?c]) ?c]" for w
    by (simp add: score_candidates_def)
  then show ?thesis
    using av by (simp add: select_fallback_def b split_def Let_def mode caps pool del: admitted.simps)
qed

theorem fallback_is_eligible_witness:
  "\<exists>c x'. select_fallback (example_world (\<lambda>n p q. Inl (Exn ProviderErrorC [])))
       example_executor auto_request {} recovering_state = (Inr (Some c), x') \<and>
     has_capabilities (required_caps auto_request) c"
proof -
  obtain x' where "select_fallback (example_world (\<lambda>n p q. Inl (Exn ProviderErrorC []))) example_executor
      auto_request {} recovering_state = (Inr (Some (candidate_of new_catalog (\<lambda>k. None) ''groq'' True ''m1'')), x')"
    using example_select by blast
  from this fallback_is_eligible [OF this] show ?thesis by blast
qed

theorem fallback_spends_half_open_trial_witness:
  "\<exists>x'. fst (select_fallback (example_world (\<lambda>n p q. Inl (Exn ProviderErrorC [])))
       example_executor auto_request {} recovering_state) \<noteq> Inr None \<and>
     x' = snd (select_fallback (example_world (\<lambda>n p q. Inl (Exn ProviderErrorC [])))
       example_executor auto_request {} recovering_state) \<and>
     \<not> fst (reg_can_execute 1000000 ''groq'' (s_breakers (x_shared x')))"
proof -
  obtain x' where sel: "select_fallback (example_world (\<lambda>n p q. Inl (Exn ProviderErrorC []))) example_executor
      auto_request {} recovering_state = (Inr (Some (candidate_of new_catalog (\<lambda>k. None) ''groq'' True ''m1'')), x')"
    using example_select by blast
  have "rc_provider (candidate_of new_catalog (\<lambda>k. None) ''groq'' True ''m1'') = ''groq''"
    by (simp add: candidate_of_def Let_def)
  then show ?thesis
    using fallback_spends_half_open_trial [OF sel] example_recovering sel by simp
qed

end
