(* ===== verification/Executor.thy ===== *)
theory Executor
  imports Failover
begin

text \<open>
  The reliability executor (\<open>app/reliability/executor.py\<close>): the deadline, the circuit-breaker gate,
  the retry loop of one provider and the failover loop over providers. \<open>attempt\<close> is one provider
  call with its bookkeeping, \<open>retry_loop\<close> the inner \<open>for\<close>, \<open>iteration\<close> one pass of the outer \<open>while\<close>,
  \<open>execute\<close> the method. The context object is returned with the result, so that properties can speak
  of it after a raise; an attempt record keeps the exception itself where the code keeps its text.
\<close>

section \<open>Context\<close>

record attempt_record =
  at_provider :: string
  at_model :: string
  at_number :: nat
  at_is_failover :: bool
  at_latency_ms :: real
  at_error :: "exn option"   \<comment> \<open>\<open>None\<close>: is_success\<close>

record exec_context =
  cx_deadline :: real
  cx_original_provider :: string
  cx_original_model :: string
  cx_selected_provider :: string
  cx_selected_model :: string
  cx_attempted :: "string set"
  cx_retry_count :: int
  cx_failover_attempts :: int
  cx_failover_triggered :: bool
  cx_attempts :: "attempt_record list"

definition new_context :: "real \<Rightarrow> string \<Rightarrow> string \<Rightarrow> exec_context" where
  "new_context deadline p m = \<lparr>cx_deadline = deadline, cx_original_provider = p, cx_original_model = m,
     cx_selected_provider = p, cx_selected_model = m, cx_attempted = {}, cx_retry_count = 0,
     cx_failover_attempts = 0, cx_failover_triggered = False, cx_attempts = []\<rparr>"

definition deadline_exceeded :: exn where
  "deadline_exceeded = Exn TotalDeadlineExceededErrorC
     ''Total request deadline exceeded across provider attempts.''"

definition circuit_open :: "string \<Rightarrow> exn" where
  "circuit_open p = Exn CircuitOpenErrorC
     (''Provider '' @ repr p @ '' circuit breaker is OPEN. Requests are temporarily blocked.'')"

definition failover_exhausted :: exn where
  "failover_exhausted = Exn FailoverExhaustedErrorC ''All failover candidates failed or were unavailable.''"

text \<open>What does not change while a request is executed.\<close>

record call =
  a_request :: chat_request
  a_request_id :: string
  a_mode :: "string option"

text \<open>The target of an attempt.\<close>

record target =
  t_provider :: string
  t_model :: string
  t_failover :: bool

section \<open>One provider attempt\<close>

datatype attempt_result = Returned chat_response | Raised exn | Failed_transient exn

definition max_attempts :: "executor \<Rightarrow> nat" where
  "max_attempts k = nat (1 + max_retries (k_retry k))"

definition log_attempt :: "target \<Rightarrow> nat \<Rightarrow> real \<Rightarrow> exn option \<Rightarrow> exec_context \<Rightarrow> exec_context" where
  "log_attempt t idx seconds err cx = cx\<lparr>cx_attempts := cx_attempts cx @
     [\<lparr>at_provider = t_provider t, at_model = t_model t, at_number = idx + 1,
       at_is_failover = t_failover t, at_latency_ms = py_round (seconds * 1000) 2, at_error = err\<rparr>]\<rparr>"

text \<open>\<open>registry.get(..)\<close> and \<open>provider.chat(resolved_request, request_id)\<close>\<close>

definition call_provider ::
  "world \<Rightarrow> executor \<Rightarrow> call \<Rightarrow> target \<Rightarrow> exec_state \<Rightarrow> (exn + chat_response) \<times> exec_state" where
  "call_provider w k a t x = (case reg_get (t_provider t) (k_registry k) of
     Inl err \<Rightarrow> (Inl err, x)
   | Inr p \<Rightarrow> (w_chat w (x_calls x) p ((a_request a)\<lparr>q_provider := Some (t_provider t), q_model := t_model t\<rparr>),
       suspend w (x\<lparr>x_calls := x_calls x + 1\<rparr>)))"

definition attach_metadata :: "call \<Rightarrow> target \<Rightarrow> exec_context \<Rightarrow> circuit_state \<Rightarrow> chat_response \<Rightarrow> chat_response" where
  "attach_metadata a t cx st r = r\<lparr>p_metadata := (p_metadata r)\<lparr>
     m_routing_mode := a_mode a, m_selected_provider := Some (t_provider t),
     m_selected_model := Some (t_model t), m_original_provider := Some (cx_original_provider cx),
     m_failover_triggered := cx_failover_triggered cx, m_retry_count := cx_retry_count cx,
     m_failover_attempts := cx_failover_attempts cx, m_circuit_breaker_state := Some (circuit_value st)\<rparr>\<rparr>"

definition on_success ::
  "world \<Rightarrow> call \<Rightarrow> target \<Rightarrow> exec_context \<Rightarrow> chat_response \<Rightarrow> exec_state \<Rightarrow> chat_response \<times> exec_state" where
  "on_success w a t cx r x =
     (let (now, x) = clock w x;
          x = set_breakers (reg_record_success now (t_provider t) (s_breakers (x_shared x))) x;
          x = set_stats (tracker_success (t_provider t) (t_model t) (m_latency_ms (p_metadata r))
                (s_stats (x_shared x))) x;
          (now, x) = clock w x;
          (st, reg) = reg_get_state now (t_provider t) (s_breakers (x_shared x))
      in (attach_metadata a t cx st r, set_breakers reg x))"

definition on_failure ::
  "world \<Rightarrow> executor \<Rightarrow> target \<Rightarrow> nat \<Rightarrow> exn \<Rightarrow> exec_state \<Rightarrow> attempt_result \<times> exec_state" where
  "on_failure w k t idx err x =
     (let x = set_stats (tracker_failure (t_provider t) (t_model t) (s_stats (x_shared x))) x in
      if \<not> is_transient_error err then (Raised err, x)
      else if idx = max_attempts k - 1 then
        (let (now, x) = clock w x; (now', x) = clock w x in
         (Failed_transient err,
          set_breakers (reg_record_failure now now' err (t_provider t) (s_breakers (x_shared x))) x))
      else (Failed_transient err, x))"

definition attempt ::
  "world \<Rightarrow> executor \<Rightarrow> call \<Rightarrow> target \<Rightarrow> nat \<Rightarrow> exec_context \<Rightarrow> exec_state \<Rightarrow> attempt_result \<times> exec_context \<times> exec_state" where
  "attempt w k a t idx cx x =
     (let (start, x) = clock w x; (res, x) = call_provider w k a t x; (stop, x) = clock w x in
      case res of
        Inr r \<Rightarrow>
          (let cx = log_attempt t idx (stop - start) None cx; (r, x) = on_success w a t cx r x
           in (Returned r, cx, x))
      | Inl err \<Rightarrow>
          (let cx = log_attempt t idx (stop - start) (Some err) cx; (res, x) = on_failure w k t idx err x
           in (res, cx, x)))"

section \<open>The retry loop\<close>

text \<open>The deadline check and the backoff before attempt \<open>idx\<close>.\<close>

definition backoff ::
  "world \<Rightarrow> executor \<Rightarrow> nat \<Rightarrow> exec_context \<Rightarrow> exec_state \<Rightarrow> exn option \<times> exec_context \<times> exec_state" where
  "backoff w k idx cx x =
     (let (now, x) = clock w x in
      if now \<ge> cx_deadline cx then (Some deadline_exceeded, cx, x)
      else if idx = 0 then (None, cx, x)
      else let delay = compute_delay (w_draw w (x_draws x)) (k_retry k) (idx - 1);
               x = x\<lparr>x_draws := x_draws x + 1\<rparr>; (now, x) = clock w x in
        if now + delay \<ge> cx_deadline cx then (Some deadline_exceeded, cx, x)
        else (None, cx\<lparr>cx_retry_count := cx_retry_count cx + 1\<rparr>, if delay > 0 then suspend w x else x))"

datatype loop_result = Finished chat_response | Error exn | Exhausted "exn option"

fun retry_loop ::
  "world \<Rightarrow> executor \<Rightarrow> call \<Rightarrow> target \<Rightarrow> nat list \<Rightarrow> exn option \<Rightarrow> exec_context \<Rightarrow> exec_state \<Rightarrow>
   loop_result \<times> exec_context \<times> exec_state" where
  "retry_loop w k a t [] prev cx x = (Exhausted prev, cx, x)"
| "retry_loop w k a t (idx # rest) prev cx x =
     (case backoff w k idx cx x of
        (Some err, cx, x) \<Rightarrow> (Error err, cx, x)
      | (None, cx, x) \<Rightarrow>
         (case attempt w k a t idx cx x of
            (Returned r, cx, x) \<Rightarrow> (Finished r, cx, x)
          | (Raised err, cx, x) \<Rightarrow> (Error err, cx, x)
          | (Failed_transient err, cx, x) \<Rightarrow> retry_loop w k a t rest (Some err) cx x))"

section \<open>The failover loop\<close>

datatype iteration_result = Stop "exn + chat_response" | Next target "exn option"

definition last_or_exhausted :: "exn option \<Rightarrow> exn" where
  "last_or_exhausted prev = (case prev of Some err \<Rightarrow> err | None \<Rightarrow> failover_exhausted)"

definition fail_over ::
  "world \<Rightarrow> executor \<Rightarrow> call \<Rightarrow> exn \<Rightarrow> exn option \<Rightarrow> exec_context \<Rightarrow> exec_state \<Rightarrow>
   iteration_result \<times> exec_context \<times> exec_state" where
  "fail_over w k a err prev cx x =
     (case select_fallback w k (a_request a) (cx_attempted cx) x of
        (Inl e, x) \<Rightarrow> (Stop (Inl e), cx, x)
      | (Inr None, x) \<Rightarrow> (Stop (Inl err), cx, x)
      | (Inr (Some c), x) \<Rightarrow>
         (Next \<lparr>t_provider = rc_provider c, t_model = rc_model c, t_failover = True\<rparr> prev,
          cx\<lparr>cx_failover_triggered := True, cx_failover_attempts := cx_failover_attempts cx + 1\<rparr>, x))"

definition enter :: "target \<Rightarrow> exec_context \<Rightarrow> exec_context" where
  "enter t cx = cx\<lparr>cx_attempted := insert (lower (t_provider t)) (cx_attempted cx),
     cx_selected_provider := t_provider t, cx_selected_model := t_model t\<rparr>"

definition iteration ::
  "world \<Rightarrow> executor \<Rightarrow> call \<Rightarrow> target \<Rightarrow> exn option \<Rightarrow> exec_context \<Rightarrow> exec_state \<Rightarrow>
   iteration_result \<times> exec_context \<times> exec_state" where
  "iteration w k a t prev cx x =
     (let (now, x) = clock w x in
      if now \<ge> cx_deadline cx then (Stop (Inl deadline_exceeded), cx, x)
      else let cx = enter t cx; (ok, x) = check_breaker w (t_provider t) x in
      if \<not> ok then
        (let err = circuit_open (t_provider t) in
         if q_failover_enabled (a_request a) = Some False then (Stop (Inl err), cx, x)
         else fail_over w k a err (Some err) cx x)
      else case retry_loop w k a t [0..<max_attempts k] prev cx x of
        (Finished r, cx, x) \<Rightarrow> (Stop (Inr r), cx, x)
      | (Error err, cx, x) \<Rightarrow> (Stop (Inl err), cx, x)
      | (Exhausted prev, cx, x) \<Rightarrow>
          if q_failover_enabled (a_request a) = Some False then (Stop (Inl (last_or_exhausted prev)), cx, x)
          else if cx_failover_attempts cx \<ge> k_max_failover k then (Stop (Inl (last_or_exhausted prev)), cx, x)
          else fail_over w k a (last_or_exhausted prev) prev cx x)"

text \<open>Every pass that goes on to another target has counted one more failover.\<close>

lemma attempt_frame [frame]:
  assumes "attempt w k a t idx cx x = (res, cx', x')"
  shows "cx_failover_attempts cx' = cx_failover_attempts cx \<and> cx_attempted cx' = cx_attempted cx \<and>
    cx_deadline cx' = cx_deadline cx \<and> cx_retry_count cx' = cx_retry_count cx \<and>
    cx_original_provider cx' = cx_original_provider cx \<and>
    cx_failover_triggered cx' = cx_failover_triggered cx \<and>
    cx_selected_provider cx' = cx_selected_provider cx \<and> cx_selected_model cx' = cx_selected_model cx"
  using assms by (auto simp: attempt_def log_attempt_def Let_def split: prod.splits sum.splits)

lemma backoff_frame [frame]:
  assumes "backoff w k idx cx x = (res, cx', x')"
  shows "cx_failover_attempts cx' = cx_failover_attempts cx \<and> cx_attempted cx' = cx_attempted cx \<and>
    cx_deadline cx' = cx_deadline cx \<and> cx_attempts cx' = cx_attempts cx \<and>
    cx_original_provider cx' = cx_original_provider cx \<and>
    cx_failover_triggered cx' = cx_failover_triggered cx \<and>
    cx_selected_provider cx' = cx_selected_provider cx \<and> cx_selected_model cx' = cx_selected_model cx"
  using assms by (auto simp: backoff_def Let_def split: prod.splits if_splits)

lemma retry_loop_frame [frame]:
  assumes "retry_loop w k a t idxs prev cx x = (res, cx', x')"
  shows "cx_failover_attempts cx' = cx_failover_attempts cx \<and> cx_attempted cx' = cx_attempted cx \<and>
    cx_deadline cx' = cx_deadline cx \<and> cx_original_provider cx' = cx_original_provider cx \<and>
    cx_failover_triggered cx' = cx_failover_triggered cx \<and>
    cx_selected_provider cx' = cx_selected_provider cx \<and> cx_selected_model cx' = cx_selected_model cx"
  using assms
proof (induction idxs arbitrary: prev cx x)
  case Nil
  then show ?case by simp
next
  case (Cons idx rest)
  obtain e cx1 x1 where b: "backoff w k idx cx x = (e, cx1, x1)" by (metis prod_cases3)
  obtain r cx2 x2 where at: "attempt w k a t idx cx1 x1 = (r, cx2, x2)" by (metis prod_cases3)
  show ?case
    using Cons.prems Cons.IH [of _ cx2 x2] backoff_frame [OF b] attempt_frame [OF at]
    by (auto simp: b at split: option.splits attempt_result.splits)
qed

lemma fail_over_Next:
  "fail_over w k a err prev cx x = (Next t' prev', cx', x') \<Longrightarrow>
     cx_failover_attempts cx' = cx_failover_attempts cx + 1"
  by (auto simp: fail_over_def split: prod.splits sum.splits option.splits)

lemma iteration_Next:
  assumes "iteration w k a t prev cx x = (Next t' prev', cx', x')"
  shows "cx_failover_attempts cx' = cx_failover_attempts cx + 1"
proof -
  have enter: "cx_failover_attempts (enter t cx) = cx_failover_attempts cx"
    by (simp add: enter_def)
  show ?thesis
    using assms fail_over_Next retry_loop_frame enter
    by (fastforce simp: iteration_def Let_def split: prod.splits if_splits loop_result.splits)
qed

text \<open>The \<open>while\<close> loop, with its guard, and the method.\<close>

function execute_loop ::
  "world \<Rightarrow> executor \<Rightarrow> call \<Rightarrow> target \<Rightarrow> exn option \<Rightarrow> exec_context \<Rightarrow> exec_state \<Rightarrow>
   (exn + chat_response) \<times> exec_context \<times> exec_state" where
  "execute_loop w k a t prev cx x =
     (if cx_failover_attempts cx > k_max_failover k then (Inl (last_or_exhausted prev), cx, x)
      else case iteration w k a t prev cx x of
        (Stop r, cx, x) \<Rightarrow> (r, cx, x)
      | (Next t' prev', cx, x) \<Rightarrow> execute_loop w k a t' prev' cx x)"
  by pat_completeness auto
termination
  by (relation "measure (\<lambda>(w, k, a, t, prev, cx, x). nat (k_max_failover k + 1 - cx_failover_attempts cx))")
    (auto dest!: iteration_Next [OF sym])

declare execute_loop.simps [simp del]

definition execute ::
  "world \<Rightarrow> executor \<Rightarrow> chat_request \<Rightarrow> string \<Rightarrow> string \<Rightarrow> string \<Rightarrow> string option \<Rightarrow> exec_state \<Rightarrow>
   (exn + chat_response) \<times> exec_context \<times> exec_state" where
  "execute w k q rid p m mode x =
     (let (now, x) = clock w x in
      execute_loop w k \<lparr>a_request = q, a_request_id = rid, a_mode = mode\<rparr>
        \<lparr>t_provider = p, t_model = m, t_failover = False\<rparr> None (new_context (now + k_total_timeout k) p m) x)"

section \<open>What one attempt records\<close>

definition on_target :: "target \<Rightarrow> attempt_record \<Rightarrow> bool" where
  "on_target t r = (at_provider r = t_provider t \<and> at_model r = t_model t \<and> at_is_failover r = t_failover t)"

definition transient_failure :: "attempt_record \<Rightarrow> bool" where
  "transient_failure r = (case at_error r of None \<Rightarrow> False | Some e \<Rightarrow> is_transient_error e)"

definition is_retry :: "attempt_record \<Rightarrow> bool" where
  "is_retry r = (1 < at_number r)"

text \<open>
  \<open>r\<close> is the answer of a registered provider to the request with the target filled in, with the
  execution's metadata attached.
\<close>

definition served :: "world \<Rightarrow> executor \<Rightarrow> call \<Rightarrow> target \<Rightarrow> exec_context \<Rightarrow> chat_response \<Rightarrow> bool" where
  "served w k a t cx r = (\<exists>n p r0 st. reg_get (t_provider t) (k_registry k) = Inr p \<and>
     w_chat w n p ((a_request a)\<lparr>q_provider := Some (t_provider t), q_model := t_model t\<rparr>) = Inr r0 \<and>
     r = attach_metadata a t cx st r0)"

lemma on_success_calls [frame]: "x_calls (snd (on_success w a t cx r x)) = x_calls x"
  by (simp add: on_success_def split_def Let_def frame)

lemma on_success_response: "\<exists>st. fst (on_success w a t cx r x) = attach_metadata a t cx st r"
  by (auto simp: on_success_def split_def Let_def)

lemma on_failure_calls [frame]: "x_calls (snd (on_failure w k t idx err x)) = x_calls x"
  by (simp add: on_failure_def split_def Let_def frame)

lemma on_failure_result:
  "fst (on_failure w k t idx err x) = (if is_transient_error err then Failed_transient err else Raised err)"
  by (simp add: on_failure_def split_def Let_def)

lemma call_provider_calls: "x_calls (snd (call_provider w k a t x)) \<le> x_calls x + 1"
  by (simp add: call_provider_def frame split: sum.splits)

lemma call_provider_Inr:
  assumes "fst (call_provider w k a t x) = Inr r"
  shows "\<exists>n p. reg_get (t_provider t) (k_registry k) = Inr p \<and>
     w_chat w n p ((a_request a)\<lparr>q_provider := Some (t_provider t), q_model := t_model t\<rparr>) = Inr r"
  using assms by (auto simp: call_provider_def split: sum.splits)

lemma attempt_log:
  assumes "attempt w k a t idx cx x = (res, cx', x')"
  shows "\<exists>rec. cx_attempts cx' = cx_attempts cx @ [rec] \<and> on_target t rec \<and> at_number rec = idx + 1 \<and>
    x_calls x' \<le> x_calls x + 1 \<and>
    (case res of
       Returned r \<Rightarrow> at_error rec = None \<and> served w k a t cx' r
     | Raised e \<Rightarrow> at_error rec = Some e \<and> \<not> is_transient_error e
     | Failed_transient e \<Rightarrow> at_error rec = Some e \<and> is_transient_error e)"
proof -
  let ?x1 = "snd (clock w x)"
  let ?call = "call_provider w k a t ?x1"
  have calls: "x_calls (snd ?call) \<le> x_calls x + 1"
    using call_provider_calls [of w k a t ?x1] by (simp add: frame)
  show ?thesis
  proof (cases "fst ?call")
    case (Inl err)
    then show ?thesis
      using assms calls on_failure_result [of w k t idx err "snd (clock w (snd ?call))"]
        on_failure_calls [of w k t idx err "snd (clock w (snd ?call))"]
      by (auto simp: attempt_def split_def Let_def log_attempt_def on_target_def frame
          split: attempt_result.splits if_splits)
  next
    case (Inr r)
    let ?cx = "log_attempt t idx (fst (clock w (snd ?call)) - fst (clock w x)) None cx"
    let ?succ = "on_success w a t ?cx r (snd (clock w (snd ?call)))"
    have eq: "attempt w k a t idx cx x = (Returned (fst ?succ), ?cx, snd ?succ)"
      using Inr by (simp add: attempt_def split_def Let_def)
    have res: "res = Returned (fst ?succ)" "cx' = ?cx" "x' = snd ?succ"
      using trans [OF sym [OF assms] eq] unfolding prod.inject by blast+
    have "served w k a t ?cx (fst (on_success w a t ?cx r (snd (clock w (snd ?call)))))"
      using call_provider_Inr [OF Inr] on_success_response unfolding served_def by blast
    then show ?thesis
      using calls by (simp add: res frame) (simp add: log_attempt_def on_target_def)
  qed
qed

lemma backoff_count:
  assumes "backoff w k idx cx x = (res, cx', x')"
  shows "x_calls x' = x_calls x \<and>
    (case res of None \<Rightarrow> cx_retry_count cx' = cx_retry_count cx + (if idx = 0 then 0 else 1)
     | Some e \<Rightarrow> e = deadline_exceeded \<and> cx_retry_count cx' = cx_retry_count cx)"
  using assms by (auto simp: backoff_def Let_def clock_def suspend_def split: if_splits)

section \<open>What the retry loop records\<close>

definition all_transient :: "attempt_record list \<Rightarrow> bool" where
  "all_transient rs = list_all transient_failure rs"

definition loop_outcome ::
  "world \<Rightarrow> executor \<Rightarrow> call \<Rightarrow> target \<Rightarrow> exn option \<Rightarrow> exec_context \<Rightarrow> attempt_record list \<Rightarrow> loop_result \<Rightarrow> bool" where
  "loop_outcome w k a t prev cx' recs res = (case res of
     Finished r \<Rightarrow> recs \<noteq> [] \<and> at_error (last recs) = None \<and> all_transient (butlast recs) \<and> served w k a t cx' r
   | Error e \<Rightarrow> (e = deadline_exceeded \<and> all_transient recs) \<or>
       (recs \<noteq> [] \<and> at_error (last recs) = Some e \<and> \<not> is_transient_error e \<and> all_transient (butlast recs))
   | Exhausted e \<Rightarrow> all_transient recs \<and> e = (if recs = [] then prev else at_error (last recs)))"

lemma loop_outcome_Cons:
  assumes "transient_failure rec" "at_error rec = Some e" "loop_outcome w k a t (Some e) cx' recs res"
  shows "loop_outcome w k a t prev cx' (rec # recs) res"
  using assms by (cases "recs = []") (auto simp: loop_outcome_def all_transient_def split: loop_result.splits)

lemma retry_loop_log:
  assumes "retry_loop w k a t idxs prev cx x = (res, cx', x')"
  shows "\<exists>recs. cx_attempts cx' = cx_attempts cx @ recs \<and> length recs \<le> length idxs \<and>
    list_all (on_target t) recs \<and> x_calls x' \<le> x_calls x + length recs \<and>
    cx_retry_count cx' = cx_retry_count cx + int (length (filter is_retry recs)) \<and>
    loop_outcome w k a t prev cx' recs res"
  using assms
proof (induction idxs arbitrary: prev cx x)
  case Nil
  then show ?case by (auto simp: loop_outcome_def all_transient_def)
next
  case (Cons idx rest)
  obtain e cx1 x1 where b: "backoff w k idx cx x = (e, cx1, x1)" by (metis prod_cases3)
  obtain r cx2 x2 where at: "attempt w k a t idx cx1 x1 = (r, cx2, x2)" by (metis prod_cases3)
  note b_frame = backoff_frame [OF b] and b_count = backoff_count [OF b] and at_frame = attempt_frame [OF at]
  obtain rec where rec: "cx_attempts cx2 = cx_attempts cx1 @ [rec]" "on_target t rec" "at_number rec = idx + 1"
    "x_calls x2 \<le> x_calls x1 + 1"
    "case r of Returned r \<Rightarrow> at_error rec = None \<and> served w k a t cx2 r
       | Raised e \<Rightarrow> at_error rec = Some e \<and> \<not> is_transient_error e
       | Failed_transient e \<Rightarrow> at_error rec = Some e \<and> is_transient_error e"
    using attempt_log [OF at] by blast
  show ?case
  proof (cases e)
    case (Some err)
    then have "res = Error err" "cx' = cx1" "x' = x1"
      using Cons.prems by (simp_all add: b)
    then show ?thesis
      using Some b_frame b_count by (intro exI [of _ "[]"]) (simp add: loop_outcome_def all_transient_def)
  next
    case None
    have retries: "cx_retry_count cx2 = cx_retry_count cx + int (length (filter is_retry [rec]))"
      using b_count at_frame rec(3) None by (simp add: is_retry_def)
    show ?thesis
    proof (cases r)
      case (Failed_transient err)
      then have rest: "retry_loop w k a t rest (Some err) cx2 x2 = (res, cx', x')"
        using Cons.prems None by (simp add: b at)
      obtain recs where recs: "cx_attempts cx' = cx_attempts cx2 @ recs" "length recs \<le> length rest"
        "list_all (on_target t) recs" "x_calls x' \<le> x_calls x2 + length recs"
        "cx_retry_count cx' = cx_retry_count cx2 + int (length (filter is_retry recs))"
        "loop_outcome w k a t (Some err) cx' recs res"
        using Cons.IH [OF rest] by blast
      have "loop_outcome w k a t prev cx' (rec # recs) res"
        using rec(5) Failed_transient recs(6)
        by (intro loop_outcome_Cons [where e = err]) (simp_all add: transient_failure_def)
      then show ?thesis
        using recs rec(1,2,4) retries b_frame b_count
        by (intro exI [of _ "rec # recs"]) auto
    next
      case (Returned resp)
      then have "res = Finished resp" "cx' = cx2" "x' = x2"
        using Cons.prems None by (simp_all add: b at)
      then show ?thesis
        using Returned rec retries b_frame b_count
        by (intro exI [of _ "[rec]"]) (simp add: loop_outcome_def all_transient_def)
    next
      case (Raised err)
      then have "res = Error err" "cx' = cx2" "x' = x2"
        using Cons.prems None by (simp_all add: b at)
      then show ?thesis
        using Raised rec retries b_frame b_count
        by (intro exI [of _ "[rec]"]) (simp add: loop_outcome_def all_transient_def)
    qed
  qed
qed

section \<open>What the failover loop keeps\<close>

definition provider_log :: "exec_context \<Rightarrow> string list" where
  "provider_log cx = map (\<lambda>r. lower (at_provider r)) (cx_attempts cx)"

text \<open>
  The log lists each provider's attempts in one block of at most \<open>max_attempts\<close>, under providers
  entered; the retry counter counts the repeated attempts in it; the failover fields agree.
\<close>

definition log_inv :: "executor \<Rightarrow> exec_context \<Rightarrow> bool" where
  "log_inv k cx =
     (set (provider_log cx) \<subseteq> cx_attempted cx \<and> (\<forall>p \<in> cx_attempted cx. lower p = p) \<and>
      distinct (remdups_adj (provider_log cx)) \<and>
      (\<forall>p. count_list (provider_log cx) p \<le> max_attempts k) \<and>
      cx_retry_count cx = int (length (filter is_retry (cx_attempts cx))) \<and>
      0 \<le> cx_failover_attempts cx \<and> cx_failover_triggered cx = (0 < cx_failover_attempts cx))"

definition control_error :: "exn \<Rightarrow> bool" where
  "control_error e = (e = deadline_exceeded \<or> (\<exists>p. e = circuit_open p) \<or> e = failover_exhausted \<or>
     class_of e = InvalidRoutingModeErrorC)"

definition last_error :: "exec_context \<Rightarrow> exn \<Rightarrow> bool" where
  "last_error cx e = (cx_attempts cx \<noteq> [] \<and> at_error (last (cx_attempts cx)) = Some e)"

definition loop_inv :: "executor \<Rightarrow> target \<Rightarrow> exn option \<Rightarrow> exec_context \<Rightarrow> bool" where
  "loop_inv k t prev cx = (log_inv k cx \<and> lower (t_provider t) \<notin> cx_attempted cx \<and>
     all_transient (cx_attempts cx) \<and> (\<forall>e. prev = Some e \<longrightarrow> control_error e \<or> last_error cx e))"

definition explained :: "world \<Rightarrow> executor \<Rightarrow> call \<Rightarrow> exn + chat_response \<Rightarrow> exec_context \<Rightarrow> bool" where
  "explained w k a res cx = (log_inv k cx \<and> all_transient (butlast (cx_attempts cx)) \<and>
     (case res of
        Inl e \<Rightarrow> control_error e \<or> last_error cx e
      | Inr r \<Rightarrow> cx_attempts cx \<noteq> [] \<and> at_error (last (cx_attempts cx)) = None \<and>
          (\<exists>t. on_target t (last (cx_attempts cx)) \<and> served w k a t cx r)))"

lemma count_list_replicate: "count_list (replicate n x) y = (if x = y then n else 0)"
  by (induction n) auto

lemma remdups_adj_block:
  assumes "distinct (remdups_adj xs)" "x \<notin> set xs"
  shows "distinct (remdups_adj (xs @ replicate n x))"
proof (cases "n = 0 \<or> xs = []")
  case True
  then show ?thesis
    using assms by (auto simp: remdups_adj_replicate)
next
  case False
  then have "remdups_adj (xs @ replicate n x) = remdups_adj xs @ remdups_adj (replicate n x)"
    using assms(2) by (intro remdups_adj_append') (metis last_in_set hd_replicate)
  then show ?thesis
    using assms by (auto simp: remdups_adj_replicate)
qed

lemma count_list_0: "x \<notin> set xs \<Longrightarrow> count_list xs x = 0"
  by (simp add: count_list_0_iff)

lemma provider_log_block:
  assumes "list_all (on_target t) recs"
  shows "map (\<lambda>r. lower (at_provider r)) recs = replicate (length recs) (lower (t_provider t))"
  using assms by (induction recs) (auto simp: on_target_def)

lemma log_inv_extend:
  assumes "log_inv k cx" "lower (t_provider t) \<notin> cx_attempted cx"
    and "cx_attempts cx' = cx_attempts cx @ recs" "list_all (on_target t) recs"
    and "length recs \<le> max_attempts k" "cx_attempted cx' = insert (lower (t_provider t)) (cx_attempted cx)"
    and "cx_retry_count cx' = cx_retry_count cx + int (length (filter is_retry recs))"
    and "cx_failover_attempts cx' = cx_failover_attempts cx" "cx_failover_triggered cx' = cx_failover_triggered cx"
  shows "log_inv k cx'"
proof -
  let ?p = "lower (t_provider t)"
  have log: "provider_log cx' = provider_log cx @ replicate (length recs) ?p"
    using assms(3) provider_log_block [OF assms(4)] by (simp add: provider_log_def)
  have fresh: "?p \<notin> set (provider_log cx)"
    using assms(1,2) by (auto simp: log_inv_def)
  have "distinct (remdups_adj (provider_log cx'))"
    unfolding log using assms(1) fresh by (intro remdups_adj_block) (auto simp: log_inv_def)
  moreover have "count_list (provider_log cx') p \<le> max_attempts k" for p
    using assms(1,5) fresh by (cases "p = ?p") (auto simp: log count_list_replicate count_list_0 log_inv_def)
  moreover have "set (provider_log cx') \<subseteq> cx_attempted cx'"
    using assms(1,6) by (auto simp: log log_inv_def)
  ultimately show ?thesis
    using assms by (auto simp: log_inv_def)
qed

lemma resolve_mode_error: "resolve_routing_mode d q = Inl e \<Longrightarrow> class_of e = InvalidRoutingModeErrorC"
  by (auto simp: resolve_routing_mode_def Let_def split: if_splits)

lemma select_fallback_error:
  "select_fallback w k q a x = (Inl e, x') \<Longrightarrow> class_of e = InvalidRoutingModeErrorC"
  using resolve_mode_error
  by (auto simp: select_fallback_def Let_def split: prod.splits if_splits sum.splits)

lemma fail_over_explained:
  assumes "fail_over w k a err prev cx x = (res, cx', x')" "log_inv k cx" "all_transient (cx_attempts cx)"
    and "control_error err \<or> last_error cx err" "\<forall>e. prev = Some e \<longrightarrow> control_error e \<or> last_error cx e"
  shows "case res of Stop r \<Rightarrow> explained w k a r cx' | Next t' prev' \<Rightarrow> loop_inv k t' prev' cx'"
proof -
  have bl: "all_transient (butlast (cx_attempts cx))"
    using assms(3) by (auto simp: all_transient_def list_all_iff dest: in_set_butlastD)
  obtain sel x1 where sel: "select_fallback w k (a_request a) (cx_attempted cx) x = (sel, x1)"
    by (meson surj_pair)
  show ?thesis
  proof (cases sel)
    case (Inl e)
    then have "control_error e"
      using select_fallback_error sel by (auto simp: control_error_def)
    then show ?thesis
      using assms bl Inl sel by (auto simp: fail_over_def explained_def)
  next
    case (Inr opt)
    show ?thesis
    proof (cases opt)
      case None
      then show ?thesis
        using assms bl Inr sel by (auto simp: fail_over_def explained_def)
    next
      case (Some c)
      have "lower (rc_provider c) \<notin> lower ` cx_attempted cx"
        using fallback_is_eligible_aux sel Inr Some by blast
      moreover have "lower ` cx_attempted cx = cx_attempted cx"
        using assms(2) by (force simp: log_inv_def)
      ultimately show ?thesis
        using assms Some Inr sel
        by (auto simp: fail_over_def loop_inv_def log_inv_def provider_log_def last_error_def)
    qed
  qed
qed

lemma all_transient_append [simp]: "all_transient (xs @ ys) = (all_transient xs \<and> all_transient ys)"
  by (simp add: all_transient_def)

lemma all_transient_butlast: "all_transient xs \<Longrightarrow> all_transient (butlast xs)"
  by (auto simp: all_transient_def list_all_iff dest: in_set_butlastD)

lemma enter_fields [simp]:
  "cx_attempts (enter t cx) = cx_attempts cx" "cx_deadline (enter t cx) = cx_deadline cx"
  "cx_attempted (enter t cx) = insert (lower (t_provider t)) (cx_attempted cx)"
  "cx_retry_count (enter t cx) = cx_retry_count cx"
  "cx_failover_attempts (enter t cx) = cx_failover_attempts cx"
  "cx_failover_triggered (enter t cx) = cx_failover_triggered cx"
  by (simp_all add: enter_def)

text \<open>After the retry loop: what is known of the log, by outcome.\<close>

lemma retry_loop_explained:
  assumes "retry_loop w k a t [0..<max_attempts k] prev (enter t cx) x = (res, cx', x')" "loop_inv k t prev cx"
  shows "case res of
      Finished r \<Rightarrow> explained w k a (Inr r) cx'
    | Error e \<Rightarrow> explained w k a (Inl e) cx'
    | Exhausted prev' \<Rightarrow> log_inv k cx' \<and> all_transient (cx_attempts cx') \<and>
        (\<forall>e. prev' = Some e \<longrightarrow> control_error e \<or> last_error cx' e)"
proof -
  obtain recs where recs: "cx_attempts cx' = cx_attempts cx @ recs" "length recs \<le> max_attempts k"
    "list_all (on_target t) recs" "cx_retry_count cx' = cx_retry_count cx + int (length (filter is_retry recs))"
    "loop_outcome w k a t prev cx' recs res"
    using retry_loop_log [OF assms(1)] by auto
  have inv: "log_inv k cx" "lower (t_provider t) \<notin> cx_attempted cx" "all_transient (cx_attempts cx)"
    "\<forall>e. prev = Some e \<longrightarrow> control_error e \<or> last_error cx e"
    using assms(2) by (auto simp: loop_inv_def)
  have log: "log_inv k cx'"
    using log_inv_extend [OF inv(1,2) recs(1,3,2) _ recs(4)] retry_loop_frame [OF assms(1)] by simp
  have last: "recs \<noteq> [] \<Longrightarrow> last (cx_attempts cx') = last recs \<and> cx_attempts cx' \<noteq> [] \<and>
      butlast (cx_attempts cx') = cx_attempts cx @ butlast recs \<and> on_target t (last recs)"
    using recs(1,3) by (auto simp: butlast_append list_all_iff)
  show ?thesis
  proof (cases res)
    case (Finished r)
    then show ?thesis
      using recs(5) last log inv(3) by (auto simp: loop_outcome_def explained_def)
  next
    case (Error e)
    then show ?thesis
      using recs(1,5) last log inv(3) all_transient_butlast [of "cx_attempts cx'"]
      by (auto simp: loop_outcome_def explained_def last_error_def control_error_def)
  next
    case (Exhausted prev')
    then show ?thesis
      using recs(1,5) last log inv(3,4)
      by (auto simp: loop_outcome_def last_error_def split: if_splits)
  qed
qed

lemma iteration_explained:
  assumes "iteration w k a t prev cx x = (res, cx', x')" "loop_inv k t prev cx"
  shows "case res of Stop r \<Rightarrow> explained w k a r cx' | Next t' prev' \<Rightarrow> loop_inv k t' prev' cx'"
proof -
  let ?x1 = "snd (clock w x)"
  obtain ok x2 where gate: "check_breaker w (t_provider t) ?x1 = (ok, x2)" by (meson surj_pair)
  obtain lr cx3 x3 where loop: "retry_loop w k a t [0..<max_attempts k] prev (enter t cx) x2 = (lr, cx3, x3)"
    by (metis prod_cases3)
  have inv: "log_inv k cx" "lower (t_provider t) \<notin> cx_attempted cx" "all_transient (cx_attempts cx)"
    using assms(2) by (auto simp: loop_inv_def)
  have entered: "log_inv k (enter t cx)"
    by (rule log_inv_extend [OF inv(1,2), where recs = "[]"]) simp_all
  have expl: "explained w k a (Inl e) c" if "control_error e \<or> last_error c e" "log_inv k c"
      "all_transient (cx_attempts c)" for e c
    using that all_transient_butlast by (simp add: explained_def)
  have open_ctl: "control_error (circuit_open (t_provider t))" and dead: "control_error deadline_exceeded"
    by (auto simp: control_error_def)
  consider (deadline) "fst (clock w x) \<ge> cx_deadline cx"
    | (blocked) "\<not> fst (clock w x) \<ge> cx_deadline cx" "\<not> ok"
    | (run) "\<not> fst (clock w x) \<ge> cx_deadline cx" "ok"
    by blast
  then show ?thesis
  proof cases
    case deadline
    then show ?thesis
      using assms(1) expl [OF _ inv(1,3)] dead by (auto simp: iteration_def split_def Let_def)
  next
    case blocked
    show ?thesis
    proof (cases "q_failover_enabled (a_request a) = Some False")
      case True
      then show ?thesis
        using assms(1) blocked gate expl [OF _ entered] inv(3) open_ctl
        by (auto simp: iteration_def split_def Let_def)
    next
      case False
      let ?err = "circuit_open (t_provider t)"
      have "fail_over w k a ?err (Some ?err) (enter t cx) x2 = (res, cx', x')"
        using assms(1) blocked gate False by (simp add: iteration_def split_def Let_def)
      from fail_over_explained [OF this entered] show ?thesis
        using inv(3) open_ctl by simp
    qed
  next
    case run
    note after = retry_loop_explained [OF loop assms(2)]
    show ?thesis
    proof (cases lr)
      case (Exhausted prev')
      then have ex: "log_inv k cx3" "all_transient (cx_attempts cx3)"
        "\<forall>e. prev' = Some e \<longrightarrow> control_error e \<or> last_error cx3 e"
        using after by auto
      then have err: "control_error (last_or_exhausted prev') \<or> last_error cx3 (last_or_exhausted prev')"
        by (auto simp: last_or_exhausted_def control_error_def split: option.splits)
      show ?thesis
      proof (cases "q_failover_enabled (a_request a) = Some False \<or> cx_failover_attempts cx3 \<ge> k_max_failover k")
        case True
        then have "res = Stop (Inl (last_or_exhausted prev'))" "cx' = cx3"
          using assms(1) run gate loop Exhausted by (auto simp: iteration_def split_def Let_def split: if_splits)
        then show ?thesis
          using expl [OF err ex(1,2)] by simp
      next
        case False
        then have "fail_over w k a (last_or_exhausted prev') prev' cx3 x3 = (res, cx', x')"
          using assms(1) run gate loop Exhausted by (simp add: iteration_def split_def Let_def)
        from fail_over_explained [OF this ex(1,2) err ex(3)] show ?thesis .
      qed
    qed (use assms(1) run gate loop after in \<open>auto simp: iteration_def split_def Let_def\<close>)
  qed
qed

lemma execute_loop_explained:
  assumes "execute_loop w k a t prev cx x = (res, cx', x')" "loop_inv k t prev cx"
  shows "explained w k a res cx'"
  using assms
proof (induction w k a t prev cx x rule: execute_loop.induct)
  case (1 w k a t prev cx x)
  obtain ir cx1 x1 where it: "iteration w k a t prev cx x = (ir, cx1, x1)" by (metis prod_cases3)
  note step = iteration_explained [OF it 1(3)]
  show ?case
  proof (cases "cx_failover_attempts cx > k_max_failover k")
    case True
    then have "res = Inl (last_or_exhausted prev)" "cx' = cx"
      using 1(2) by (auto simp: execute_loop.simps [of w k a t])
    then show ?thesis
      using 1(3) all_transient_butlast
      by (auto simp: explained_def loop_inv_def last_or_exhausted_def control_error_def split: option.splits)
  next
    case False
    then show ?thesis
      using 1(1) [OF False it [symmetric]] 1(2) step
      by (cases ir) (auto simp: execute_loop.simps [of w k a t] it)
  qed
qed

lemma new_context_inv: "loop_inv k t None (new_context d p m)"
  by (simp add: loop_inv_def log_inv_def new_context_def provider_log_def all_transient_def)

section \<open>Properties of the executor\<close>

lemma execute_explained:
  assumes "execute w k q rid p m mode x = (res, cx', x')"
  shows "explained w k \<lparr>a_request = q, a_request_id = rid, a_mode = mode\<rparr> res cx'"
  using assms new_context_inv by (auto simp: execute_def split_def Let_def intro: execute_loop_explained)

text \<open>What the metadata of a response say, and the target they started from.\<close>

lemma iteration_original:
  assumes "iteration w k a t prev cx x = (res, cx', x')"
  shows "cx_original_provider cx' = cx_original_provider cx"
proof -
  obtain ok x2 where gate: "check_breaker w (t_provider t) (snd (clock w x)) = (ok, x2)" by (meson surj_pair)
  obtain lr cx3 x3 where loop: "retry_loop w k a t [0..<max_attempts k] prev (enter t cx) x2 = (lr, cx3, x3)"
    by (metis prod_cases3)
  have fo: "fail_over w k a err pv c y = (r, c', y') \<Longrightarrow> cx_original_provider c' = cx_original_provider c"
    for err pv c y r c' y'
    by (auto simp: fail_over_def split: prod.splits sum.splits option.splits)
  show ?thesis
    using assms gate loop retry_loop_frame [OF loop] fo
    by (fastforce simp: iteration_def split_def Let_def enter_def split: if_splits loop_result.splits)
qed

lemma execute_loop_original:
  assumes "execute_loop w k a t prev cx x = (res, cx', x')"
  shows "cx_original_provider cx' = cx_original_provider cx"
  using assms
proof (induction w k a t prev cx x rule: execute_loop.induct)
  case (1 w k a t prev cx x)
  obtain ir cx1 x1 where it: "iteration w k a t prev cx x = (ir, cx1, x1)" by (metis prod_cases3)
  show ?case
    using 1(2) 1(1) [OF _ it [symmetric] _ refl] iteration_original [OF it]
    by (cases ir) (auto simp: execute_loop.simps [of w k a t] it split: if_splits)
qed

lemma execute_response:
  assumes "execute w k q rid p m mode x = (Inr r, cx', x')"
  shows "m_original_provider (p_metadata r) = Some p"
    and "cx_attempts cx' \<noteq> []"
    and "m_selected_provider (p_metadata r) = Some (at_provider (last (cx_attempts cx')))"
    and "m_selected_model (p_metadata r) = Some (at_model (last (cx_attempts cx')))"
    and "m_failover_attempts (p_metadata r) = cx_failover_attempts cx'"
    and "m_failover_triggered (p_metadata r) = (0 < cx_failover_attempts cx')"
proof -
  have orig: "cx_original_provider cx' = p"
    using assms execute_loop_original by (fastforce simp: execute_def split_def Let_def new_context_def)
  have ex: "log_inv k cx'" "cx_attempts cx' \<noteq> []"
    using execute_explained [OF assms] by (auto simp: explained_def)
  obtain t where t: "on_target t (last (cx_attempts cx'))"
    "served w k \<lparr>a_request = q, a_request_id = rid, a_mode = mode\<rparr> t cx' r"
    using execute_explained [OF assms] by (auto simp: explained_def)
  show "cx_attempts cx' \<noteq> []" by (fact ex(2))
  show "m_original_provider (p_metadata r) = Some p"
    "m_selected_provider (p_metadata r) = Some (at_provider (last (cx_attempts cx')))"
    "m_selected_model (p_metadata r) = Some (at_model (last (cx_attempts cx')))"
    "m_failover_attempts (p_metadata r) = cx_failover_attempts cx'"
    "m_failover_triggered (p_metadata r) = (0 < cx_failover_attempts cx')"
    using t ex orig by (auto simp: served_def attach_metadata_def on_target_def log_inv_def)
qed

text \<open>
  C13: failover makes progress: the attempts of an execution form one block per provider, no provider
  is returned to once left, and no provider gets more than \<open>1 + max_retries\<close> attempts, whatever the
  providers answer and whatever other requests do meanwhile.
\<close>

theorem attempts_form_provider_blocks:
  "case execute w k q rid p m mode x of (res, cx', x') \<Rightarrow>
     distinct (remdups_adj (map (\<lambda>r. lower (at_provider r)) (cx_attempts cx'))) \<and>
     length (filter (\<lambda>r. lower (at_provider r) = s) (cx_attempts cx')) \<le> nat (1 + max_retries (k_retry k))"
proof -
  obtain res cx' x' where run: "execute w k q rid p m mode x = (res, cx', x')" by (metis prod_cases3)
  then have "log_inv k cx'"
    using execute_explained by (simp add: explained_def)
  moreover have "count_list (map (\<lambda>r. lower (at_provider r)) xs) s =
      length (filter (\<lambda>r. lower (at_provider r) = s) xs)" for xs
    by (induction xs) auto
  ultimately show ?thesis
    unfolding run prod.case log_inv_def provider_log_def max_attempts_def by metis
qed


text \<open>
  A failed execution raises the error that ended it: that of the last attempt made, or one of
  the executor's own (deadline, open circuit, no candidate left, unknown mode); only the last attempt
  can have failed with an error that is not transient, so such an error is never retried or failed
  over.
\<close>

theorem execution_error_explained:
  assumes "execute w k q rid p m mode x = (Inl e, cx', x')"
  shows "(control_error e \<or> cx_attempts cx' \<noteq> [] \<and> at_error (last (cx_attempts cx')) = Some e) \<and>
    (\<forall>r \<in> set (butlast (cx_attempts cx')). \<exists>e'. at_error r = Some e' \<and> is_transient_error e')"
  using execute_explained [OF assms]
  by (auto simp: explained_def last_error_def all_transient_def list_all_iff transient_failure_def
      split: option.splits)

subsection \<open>Number of provider calls\<close>

lemma check_breaker_calls: "check_breaker w p x = (ok, x') \<Longrightarrow> x_calls x' = x_calls x"
  using check_breaker_frame(1) [of w p x] by simp

lemma fail_over_calls: "fail_over w k a err prev cx x = (res, cx', x') \<Longrightarrow> x_calls x' = x_calls x"
  using select_fallback_frame(1) [of w k "a_request a" "cx_attempted cx" x]
  by (auto simp: fail_over_def split: prod.splits sum.splits option.splits)

lemma iteration_calls:
  assumes "iteration w k a t prev cx x = (res, cx', x')"
  shows "x_calls x' \<le> x_calls x + max_attempts k"
proof -
  let ?x1 = "snd (clock w x)"
  obtain ok x2 where gate: "check_breaker w (t_provider t) ?x1 = (ok, x2)" by (meson surj_pair)
  obtain lr cx3 x3 where loop: "retry_loop w k a t [0..<max_attempts k] prev (enter t cx) x2 = (lr, cx3, x3)"
    by (metis prod_cases3)
  have x2: "x_calls x2 = x_calls x"
    using check_breaker_calls [OF gate] by (simp add: frame)
  have x3: "x_calls x3 \<le> x_calls x2 + max_attempts k"
    using retry_loop_log [OF loop] by auto
  show ?thesis
    using assms gate loop x2 x3 fail_over_calls
    by (fastforce simp: iteration_def split_def Let_def frame split: if_splits loop_result.splits)
qed

lemma execute_loop_calls:
  assumes "execute_loop w k a t prev cx x = (res, cx', x')"
  shows "x_calls x' \<le> x_calls x + nat (k_max_failover k + 1 - cx_failover_attempts cx) * max_attempts k"
  using assms
proof (induction w k a t prev cx x rule: execute_loop.induct)
  case (1 w k a t prev cx x)
  obtain ir cx1 x1 where it: "iteration w k a t prev cx x = (ir, cx1, x1)" by (metis prod_cases3)
  show ?case
  proof (cases "cx_failover_attempts cx > k_max_failover k")
    case True
    then show ?thesis
      using 1(2) by (auto simp: execute_loop.simps [of w k a t])
  next
    case False
    then have more: "nat (k_max_failover k + 1 - cx_failover_attempts cx) =
        Suc (nat (k_max_failover k - cx_failover_attempts cx))"
      by simp
    show ?thesis
    proof (cases ir)
      case (Stop r)
      then show ?thesis
        using 1(2) False iteration_calls [OF it] by (simp add: execute_loop.simps [of w k a t] it more)
    next
      case (Next t' prev')
      then have "execute_loop w k a t' prev' cx1 x1 = (res, cx', x')"
        using 1(2) False by (simp add: execute_loop.simps [of w k a t] it)
      then have "x_calls x' \<le> x_calls x1 + nat (k_max_failover k + 1 - cx_failover_attempts cx1) * max_attempts k"
        using 1(1) [OF False it [symmetric] Next refl] by blast
      then show ?thesis
        using iteration_calls [OF it] iteration_Next [OF it [unfolded Next]] by (simp add: more)
    qed
  qed
qed

text \<open>
  C23: an execution always ends, and makes at most
  \<open>(1 + max_failover_attempts) * (1 + max_retries)\<close> provider calls.
\<close>

theorem execute_call_bound:
  "case execute w k q rid p m mode x of (res, cx', x') \<Rightarrow>
     x_calls x' \<le> x_calls x + nat (1 + k_max_failover k) * nat (1 + max_retries (k_retry k))"
proof -
  obtain res cx' x' where "execute w k q rid p m mode x = (res, cx', x')" by (metis prod_cases3)
  moreover from this have "x_calls x' \<le> x_calls x + nat (k_max_failover k + 1) * max_attempts k"
    using execute_loop_calls by (fastforce simp: execute_def split_def Let_def frame new_context_def)
  ultimately show ?thesis
    by (simp add: max_attempts_def add.commute)
qed

subsection \<open>Failover switched off\<close>

lemma iteration_no_failover:
  assumes "q_failover_enabled (a_request a) = Some False" "iteration w k a t prev cx x = (res, cx', x')"
  shows "(\<exists>r. res = Stop r) \<and> cx_failover_attempts cx' = cx_failover_attempts cx \<and>
    (\<exists>recs. cx_attempts cx' = cx_attempts cx @ recs \<and> list_all (on_target t) recs)"
proof -
  let ?x1 = "snd (clock w x)"
  obtain ok x2 where gate: "check_breaker w (t_provider t) ?x1 = (ok, x2)" by (meson surj_pair)
  obtain lr cx3 x3 where loop: "retry_loop w k a t [0..<max_attempts k] prev (enter t cx) x2 = (lr, cx3, x3)"
    by (metis prod_cases3)
  have "\<exists>recs. cx_attempts cx3 = cx_attempts cx @ recs \<and> list_all (on_target t) recs"
    "cx_failover_attempts cx3 = cx_failover_attempts cx"
    using retry_loop_log [OF loop] retry_loop_frame [OF loop] by auto
  then show ?thesis
    using assms gate loop
    by (auto simp: iteration_def split_def Let_def split: if_splits loop_result.splits)
qed

text \<open>The result of such a request names the target it was routed to.\<close>

lemma no_failover_execution:
  assumes "q_failover_enabled q = Some False" "execute w k q rid p m mode x = (res, cx', x')"
  shows "cx_failover_attempts cx' = 0" "\<forall>r \<in> set (cx_attempts cx'). at_provider r = p \<and> at_model r = m"
proof -
  let ?a = "\<lparr>a_request = q, a_request_id = rid, a_mode = mode\<rparr>"
  let ?t = "\<lparr>t_provider = p, t_model = m, t_failover = False\<rparr>"
  let ?cx = "new_context (fst (clock w x) + k_total_timeout k) p m"
  obtain ir cx1 x1 where it: "iteration w k ?a ?t None ?cx (snd (clock w x)) = (ir, cx1, x1)"
    by (metis prod_cases3)
  have stop: "(\<exists>r. ir = Stop r) \<and> cx_failover_attempts cx1 = 0 \<and>
      (\<exists>recs. cx_attempts cx1 = recs \<and> list_all (on_target ?t) recs)"
    using iteration_no_failover [OF _ it] assms(1) by (simp add: new_context_def)
  have "execute_loop w k ?a ?t None ?cx (snd (clock w x)) = (res, cx', x')"
    using assms(2) by (simp add: execute_def split_def Let_def)
  then have "cx' = cx1 \<or> cx' = ?cx"
    using stop by (auto simp: execute_loop.simps [of w k ?a ?t] it split: if_splits)
  then show "cx_failover_attempts cx' = 0" "\<forall>r \<in> set (cx_attempts cx'). at_provider r = p \<and> at_model r = m"
    using stop by (auto simp: list_all_iff on_target_def new_context_def)
qed

text \<open>
  A request that switches failover off is only ever sent to the provider and model it was routed
  to.
\<close>

theorem failover_disabled_stays:
  assumes "q_failover_enabled q = Some False" "execute w k q rid p m mode x = (res, cx', x')"
  shows "cx_failover_attempts cx' = 0 \<and> (\<forall>r \<in> set (cx_attempts cx'). at_provider r = p \<and> at_model r = m)"
  using no_failover_execution [OF assms] by blast

subsection \<open>A recovering provider is not probed by failover\<close>

text \<open>
  C22: with the default of one half-open trial, failing over to a provider whose breaker was not closed
  never reaches the provider: choosing it spent the trial, so the pass that follows calls no provider
  and returns no response.
\<close>

theorem failover_never_probes:
  assumes "fail_over w k a err prev cx x = (Next t' prev', cx', x')"
    and "recovering (breaker_at (s_breakers (x_shared (snd (build w k x)))) (t_provider t'))"
    and "iteration w k a t' prev' cx' x' = (res, cx2, x2)"
  shows "x_calls x2 = x_calls x' \<and> cx_attempts cx2 = cx_attempts cx' \<and> (\<nexists>r. res = Stop (Inr r))"
proof -
  obtain c x1 where sel: "select_fallback w k (a_request a) (cx_attempted cx) x = (Inr (Some c), x1)"
    "t' = \<lparr>t_provider = rc_provider c, t_model = rc_model c, t_failover = True\<rparr>" "x' = x1"
    using assms(1) by (auto simp: fail_over_def split: prod.splits sum.splits option.splits)
  have refused: "\<not> fst (check_breaker w (t_provider t') (snd (clock w x')))"
    using fallback_trial_refused [OF sel(1)] assms(2) sel(2,3)
    by (simp add: check_breaker_def clock_def reg_can_execute_def split_def Let_def)
  have calls: "x_calls (snd (check_breaker w (t_provider t') (snd (clock w x')))) = x_calls x'"
    by (simp add: frame)
  show ?thesis
  proof (cases "fst (clock w x') \<ge> cx_deadline cx'")
    case True
    then show ?thesis
      using assms(3) by (auto simp: iteration_def split_def Let_def frame)
  next
    case False
    let ?err = "circuit_open (t_provider t')"
    let ?y = "snd (check_breaker w (t_provider t') (snd (clock w x')))"
    have "(res, cx2, x2) = (if q_failover_enabled (a_request a) = Some False
        then (Stop (Inl ?err), enter t' cx', ?y) else fail_over w k a ?err (Some ?err) (enter t' cx') ?y)"
      using assms(3) False refused by (simp add: iteration_def split_def Let_def)
    then show ?thesis
      using calls fail_over_calls [of w k a ?err "Some ?err" "enter t' cx'" ?y res cx2 x2]
      by (auto simp: fail_over_def split: if_splits prod.splits sum.splits option.splits)
  qed
qed

section \<open>Witnesses\<close>

definition fresh_state :: exec_state where
  "fresh_state = \<lparr>x_clock = 0, x_draws = 0, x_calls = 0, x_builds = 0, x_awaits = 0,
     x_shared = \<lparr>s_breakers = new_registry 5 30 1, s_stats = (\<lambda>k. None), s_catalog = new_catalog\<rparr>\<rparr>"

definition answer :: chat_response where
  "answer = \<lparr>p_provider = ''groq'', p_model = ''m1'', p_choices = [\<lparr>ch_index = 0, ch_content = ''hello'',
     ch_finish_reason = None\<rparr>], p_usage = \<lparr>prompt_tokens = Some 3, completion_tokens = Some 2,
     total_tokens = Some 5\<rparr>, p_metadata = new_metadata ''rid'' 12\<rparr>"

lemma example_world_fields [simp]:
  "w_clock (example_world chat) n = real n" "w_chat (example_world chat) = chat"
  by (simp_all add: example_world_def)

lemma example_gate:
  "\<exists>x'. check_breaker (example_world chat) ''groq'' (fresh_state\<lparr>x_clock := 2\<rparr>) = (True, x') \<and>
     x_clock x' = 3 \<and> x_calls x' = 0"
proof -
  have "fst (check_breaker (example_world chat) ''groq'' (fresh_state\<lparr>x_clock := 2\<rparr>))"
    by (simp add: check_breaker_result fresh_state_def breaker_at_eq new_registry_def example_key
        new_breaker_def can_execute_def resolve_state_def)
  moreover have "x_clock (snd (check_breaker (example_world chat) ''groq'' (fresh_state\<lparr>x_clock := 2\<rparr>))) = 3"
    by (simp add: check_breaker_def clock_def split_def Let_def set_breakers_def)
  moreover have "x_calls (snd (check_breaker (example_world chat) ''groq'' (fresh_state\<lparr>x_clock := 2\<rparr>))) = 0"
    by (simp add: frame fresh_state_def)
  ultimately show ?thesis by (metis prod.collapse)
qed

text \<open>The first pass of an execution in that world, when the provider answers or fails for good.\<close>

lemma example_run:
  assumes "chat 0 ''groq'' (q\<lparr>q_provider := Some ''groq'', q_model := ''m1''\<rparr>) = res"
    and "\<forall>e. res = Inl e \<longrightarrow> \<not> is_transient_error e"
  shows "\<exists>res' cx' x'. execute (example_world chat) example_executor q rid ''groq'' ''m1'' mode fresh_state =
    (res', cx', x') \<and> (case res of Inl e \<Rightarrow> res' = Inl e | Inr r \<Rightarrow> \<exists>r'. res' = Inr r')"
proof -
  obtain x2 where x2: "check_breaker (example_world chat) ''groq'' (fresh_state\<lparr>x_clock := 2\<rparr>) = (True, x2)"
    "x_clock x2 = 3" "x_calls x2 = 0"
    using example_gate by blast
  have groq: "lower (strip ''groq'') = ''groq''" by code_simp
  have ticks: "x_clock fresh_state = 0" "fresh_state\<lparr>x_clock := Suc (Suc 0)\<rparr> = fresh_state\<lparr>x_clock := 2\<rparr>"
    by (simp_all add: fresh_state_def numeral_2_eq_2)
  show ?thesis
    using assms
    by (cases res) (simp_all add: execute_def split_def Let_def execute_loop.simps clock_def ticks
        example_executor_def new_context_def iteration_def max_attempts_def x2 groq
        default_retry_policy_def upt_rec backoff_def attempt_def call_provider_def reg_get_def on_failure_def)
qed


theorem execution_error_explained_witness:
  "\<exists>cx' x'. execute (example_world (\<lambda>n p q. Inl (Exn InvalidModelErrorC []))) example_executor auto_request
       ''rid'' ''groq'' ''m1'' None fresh_state = (Inl (Exn InvalidModelErrorC []), cx', x') \<and>
     cx_attempts cx' \<noteq> []"
proof -
  let ?e = "Exn InvalidModelErrorC []"
  obtain cx' x' where run: "execute (example_world (\<lambda>n p q. Inl ?e)) example_executor auto_request
      ''rid'' ''groq'' ''m1'' None fresh_state = (Inl ?e, cx', x')"
    using example_run [of "\<lambda>n p q. Inl ?e" auto_request "Inl ?e" "''rid''" None] by (auto simp: classify_defs)
  have "\<not> control_error ?e"
    by (simp add: control_error_def deadline_exceeded_def circuit_open_def failover_exhausted_def)
  with execution_error_explained [OF run] run show ?thesis by blast
qed

theorem failover_disabled_stays_witness:
  "\<exists>res cx' x'. execute (example_world (\<lambda>n p q. Inl (Exn ProviderTimeoutErrorC []))) example_executor
       (auto_request\<lparr>q_failover_enabled := Some False\<rparr>) ''rid'' ''groq'' ''m1'' None fresh_state = (res, cx', x') \<and>
     cx_failover_attempts cx' = 0"
proof -
  obtain res cx' x' where run: "execute (example_world (\<lambda>n p q. Inl (Exn ProviderTimeoutErrorC [])))
      example_executor (auto_request\<lparr>q_failover_enabled := Some False\<rparr>) ''rid'' ''groq'' ''m1'' None
      fresh_state = (res, cx', x')" by (metis prod_cases3)
  then show ?thesis
    using failover_disabled_stays [OF _ run] by auto
qed

theorem failover_never_probes_witness:
  "\<exists>t' prev' cx' x' res cx2 x2. fail_over (example_world (\<lambda>n p q. Inr answer)) example_executor
       \<lparr>a_request = auto_request, a_request_id = ''rid'', a_mode = None\<rparr> failover_exhausted None
       (new_context 120 ''openai'' ''m'') recovering_state = (Next t' prev', cx', x') \<and>
     iteration (example_world (\<lambda>n p q. Inr answer)) example_executor
       \<lparr>a_request = auto_request, a_request_id = ''rid'', a_mode = None\<rparr> t' prev' cx' x' = (res, cx2, x2) \<and>
     x_calls x2 = x_calls x'"
proof -
  let ?w = "example_world (\<lambda>n p q. Inr answer)" and ?a = "\<lparr>a_request = auto_request, a_request_id = ''rid'', a_mode = None\<rparr>"
  let ?c = "candidate_of new_catalog (\<lambda>k. None) ''groq'' True ''m1''"
  obtain x' where sel: "select_fallback ?w example_executor auto_request {} recovering_state = (Inr (Some ?c), x')"
    using example_select by blast
  obtain cx' where fo: "fail_over ?w example_executor ?a failover_exhausted None (new_context 120 ''openai'' ''m'')
      recovering_state = (Next \<lparr>t_provider = ''groq'', t_model = ''m1'', t_failover = True\<rparr> None, cx', x')"
    using sel by (auto simp: fail_over_def new_context_def candidate_of_def Let_def)
  obtain res cx2 x2 where it: "iteration ?w example_executor ?a \<lparr>t_provider = ''groq'', t_model = ''m1'', t_failover = True\<rparr>
      None cx' x' = (res, cx2, x2)" by (metis prod_cases3)
  then show ?thesis
    using failover_never_probes [OF fo _ it] example_recovering fo by auto
qed

end
