(* ===== verification/TeamLimits.thy ===== *)
theory TeamLimits
  imports Overrides Budget
begin

text \<open>
  Per-team rate limit overrides (\<open>app/rate_limit/team_limits.py\<close>,
  \<open>api/v1/endpoints/rate_limits.py\<close>): the row, the service and the admin endpoints. Row timestamps are
  left out.
\<close>

record team_rate_limit =
  tl_id :: string
  tl_team_id :: string
  requests_per_minute :: "int option"
  requests_per_hour :: "int option"

type_synonym limits_table = "string \<Rightarrow> team_rate_limit option"

definition limits_get :: "string \<Rightarrow> limits_table \<Rightarrow> team_rate_limit option" where
  "limits_get team tbl = tbl team"

definition limits_set ::
  "string \<Rightarrow> string \<Rightarrow> int option \<Rightarrow> int option \<Rightarrow> limits_table \<Rightarrow> team_rate_limit \<times> limits_table" where
  "limits_set new_id team rpm rph tbl =
     (let row = (case limits_get team tbl of
          None \<Rightarrow> \<lparr>tl_id = new_id, tl_team_id = team, requests_per_minute = rpm, requests_per_hour = rph\<rparr>
        | Some row \<Rightarrow> row\<lparr>requests_per_minute := rpm, requests_per_hour := rph\<rparr>)
      in (row, tbl(team \<mapsto> row)))"

definition limits_delete :: "string \<Rightarrow> limits_table \<Rightarrow> bool \<times> limits_table" where
  "limits_delete team tbl = (case limits_get team tbl of
     None \<Rightarrow> (False, tbl) | Some row \<Rightarrow> (True, tbl(team := None)))"

section \<open>The endpoints\<close>

record limits_response =
  lr_team_id :: string
  effective_requests_per_minute :: int
  effective_requests_per_hour :: "int option"
  override_requests_per_minute :: "int option"
  override_requests_per_hour :: "int option"
  global_requests_per_minute :: int
  global_requests_per_hour :: "int option"

definition build_limits_response :: "string \<Rightarrow> team_rate_limit option \<Rightarrow> int \<Rightarrow> limits_response" where
  "build_limits_response team row global_rpm =
     (let override_rpm = (case row of Some r \<Rightarrow> requests_per_minute r | None \<Rightarrow> None);
          override_rph = (case row of Some r \<Rightarrow> requests_per_hour r | None \<Rightarrow> None)
      in \<lparr>lr_team_id = team,
          effective_requests_per_minute = (case override_rpm of Some n \<Rightarrow> n | None \<Rightarrow> global_rpm),
          effective_requests_per_hour = override_rph,
          override_requests_per_minute = override_rpm,
          override_requests_per_hour = override_rph,
          global_requests_per_minute = global_rpm,
          global_requests_per_hour = None\<rparr>)"

definition validate_limits :: "int option \<times> int option \<Rightarrow> bool" where
  "validate_limits body = (case body of (rpm, rph) \<Rightarrow>
     (case rpm of None \<Rightarrow> True | Some n \<Rightarrow> 1 \<le> n) \<and> (case rph of None \<Rightarrow> True | Some n \<Rightarrow> 1 \<le> n))"

definition get_team_rate_limits ::
  "(string \<times> string) list \<Rightarrow> string \<Rightarrow> int \<Rightarrow> string \<Rightarrow> limits_table \<Rightarrow> exn + limits_response" where
  "get_team_rate_limits teams org global_rpm team tbl = (case resolve_team teams org team of
     Some err \<Rightarrow> Inl err
   | None \<Rightarrow> Inr (build_limits_response team (limits_get team tbl) global_rpm))"

text \<open>The body is validated before the handler runs. The response is built from the row.\<close>

definition set_team_rate_limits ::
  "(string \<times> string) list \<Rightarrow> string \<Rightarrow> string \<Rightarrow> string \<times> int option \<times> int option \<Rightarrow> limits_table \<Rightarrow>
   (exn + team_rate_limit) \<times> limits_table" where
  "set_team_rate_limits teams org team arg tbl = (case arg of (new_id, rpm, rph) \<Rightarrow>
     if \<not> validate_limits (rpm, rph) then (Inl (RequestValidationError [([''body''], ''value_error'')]), tbl)
     else (case resolve_team teams org team of
         Some err \<Rightarrow> (Inl err, tbl)
       | None \<Rightarrow> (case limits_set new_id team rpm rph tbl of (row, tbl') \<Rightarrow> (Inr row, tbl'))))"

definition delete_team_rate_limits ::
  "(string \<times> string) list \<Rightarrow> string \<Rightarrow> string \<Rightarrow> limits_table \<Rightarrow> (exn + unit) \<times> limits_table" where
  "delete_team_rate_limits teams org team tbl = (case resolve_team teams org team of
     Some err \<Rightarrow> (Inl err, tbl)
   | None \<Rightarrow> (case limits_delete team tbl of
         (True, tbl') \<Rightarrow> (Inr (), tbl')
       | (False, tbl') \<Rightarrow>
           (Inl (HTTPException 404 (''No rate limit overrides configured for team '' @ repr team @ ''.'')), tbl')))"

lemma set_limits_outcome:
  "(\<exists>e. set_team_rate_limits teams org t arg tbl = (Inl e, tbl)) \<or>
   (t, org) \<in> set teams \<and> (\<exists>row. set_team_rate_limits teams org t arg tbl = (Inr row, tbl(t \<mapsto> row)))"
proof (cases arg)
  case (fields i rpm rph)
  show ?thesis
    by (simp add: fields set_team_rate_limits_def limits_set_def Let_def resolve_team_def List.member_iff)
qed

lemma delete_limits_outcome:
  "(\<exists>e. delete_team_rate_limits teams org t tbl = (Inl e, tbl)) \<and> visible teams org tbl t = None \<or>
   (t, org) \<in> set teams \<and> tbl t \<noteq> None \<and> delete_team_rate_limits teams org t tbl = (Inr (), tbl(t := None))"
  by (cases "tbl t")
    (simp_all add: delete_team_rate_limits_def limits_delete_def limits_get_def resolve_team_def visible_def List.member_iff)

interpretation limits_admin: override_table "visible teams org" "set_team_rate_limits teams org"
  "delete_team_rate_limits teams org"
proof (unfold_locales, goal_cases)
  case (1 t a tbl row tbl')
  then show ?case using set_limits_outcome [of teams org t a tbl] by (auto simp: visible_upd)
next
  case (2 t a tbl e tbl')
  then show ?case using set_limits_outcome [of teams org t a tbl] by auto
next
  case (3 t tbl d tbl')
  then show ?case
    using delete_limits_outcome [of teams org t tbl] by (auto simp: visible_upd) (simp add: visible_def)
next
  case (4 t tbl e tbl')
  then show ?case using delete_limits_outcome [of teams org t tbl] by auto
qed

lemma limits_step_other_org:
  assumes "(t, org) \<notin> set teams"
  shows "snd (override_step (set_team_rate_limits teams org) (delete_team_rate_limits teams org) op tbl) t = tbl t"
proof (cases op)
  case (Put_row t' a)
  then show ?thesis
    using assms set_limits_outcome [of teams org t' a tbl] by auto
next
  case (Drop_row t')
  then show ?thesis
    using assms delete_limits_outcome [of teams org t' tbl] by auto
qed

text \<open>
  After any sequence of requests by an admin, the limits reported for a team of the organization are
  the last ones set, or the global default where none are, and no other organization's rows have
  changed.
\<close>

theorem limits_report_overrides:
  assumes "override_run (set_team_rate_limits teams org) (delete_team_rate_limits teams org) ops tbl = (cs, tbl')"
  shows "get_team_rate_limits teams org d t tbl' =
      (if (t, org) \<in> set teams then Inr (build_limits_response t (fold apply_change cs (visible teams org tbl) t) d)
       else Inl (HTTPException 403 ''Team not found in your organization.'')) \<and>
    ((t, org) \<notin> set teams \<longrightarrow> tbl' t = tbl t)"
proof -
  have "visible teams org tbl' = fold apply_change cs (visible teams org tbl)"
    by (rule limits_admin.run_look [OF assms])
  from fun_cong [OF this, of t] have "(t, org) \<in> set teams \<Longrightarrow> tbl' t = fold apply_change cs (visible teams org tbl) t"
    by (simp add: visible_def)
  moreover have "tbl' t = tbl t" if "(t, org) \<notin> set teams"
    using override_run_frame [where row = "\<lambda>s. s t", OF limits_step_other_org [OF that], of ops tbl] assms by simp
  ultimately show ?thesis
    by (simp add: get_team_rate_limits_def resolve_team_def List.member_iff limits_get_def)
qed

theorem limits_report_overrides_witness:
  "\<exists>cs tbl'. override_run (set_team_rate_limits [(''t'', ''o'')] ''o'') (delete_team_rate_limits [(''t'', ''o'')] ''o'')
      [Put_row ''t'' (''i'', Some 7, None)] Map.empty = (cs, tbl') \<and>
    map_option effective_requests_per_minute (case get_team_rate_limits [(''t'', ''o'')] ''o'' 500 ''t'' tbl' of
      Inl e \<Rightarrow> None | Inr x \<Rightarrow> Some x) = Some 7"
proof -
  let ?row = "\<lparr>tl_id = ''i'', tl_team_id = ''t'', requests_per_minute = Some 7, requests_per_hour = None\<rparr>"
  have run: "override_run (set_team_rate_limits [(''t'', ''o'')] ''o'') (delete_team_rate_limits [(''t'', ''o'')] ''o'')
      [Put_row ''t'' (''i'', Some 7, None)] Map.empty = ([Put ''t'' ?row], [''t'' \<mapsto> ?row])"
    by (simp add: set_team_rate_limits_def validate_limits_def limits_set_def limits_get_def resolve_team_def Let_def)
  show ?thesis
    using limits_report_overrides [OF run, of 500 "''t''"] run
    by (simp add: build_limits_response_def Let_def)
qed

end
