(* ===== verification/Experiment.thy ===== *)
theory Experiment
  imports Policy
begin

text \<open>
  Experiment assignment (\<open>app/experiment\<close>): hashing a request into one of 10000 buckets and
  mapping the bucket to an arm by cumulative weights. The digest function is a parameter.
\<close>

record experiment_assignment =
  as_experiment_id :: string
  as_experiment_version :: int
  as_arm_name :: string
  as_provider :: string
  as_model :: string

definition bucket_size :: int where
  "bucket_size = 10000"

text \<open>\<open>int.from_bytes(bs, "big")\<close>\<close>

definition from_bytes_big :: "int list \<Rightarrow> int" where
  "from_bytes_big bs = foldl (\<lambda>n b. n * 256 + b) 0 bs"

definition hash_input :: "string \<Rightarrow> string \<Rightarrow> experiment_config \<Rightarrow> string" where
  "hash_input team request x =
     team @ '':'' @ ex_id x @ '':'' @ str_int (ex_version x) @ '':'' @ request"

definition bucket_of :: "(string \<Rightarrow> int list) \<Rightarrow> string \<Rightarrow> string \<Rightarrow> experiment_config \<Rightarrow> int" where
  "bucket_of sha256 team request x =
     from_bytes_big (take 4 (sha256 (hash_input team request x))) mod bucket_size"

text \<open>The loop over the arms: the first whose cumulative threshold exceeds the bucket.\<close>

fun pick_arm :: "int \<Rightarrow> int \<Rightarrow> experiment_arm \<Rightarrow> experiment_arm list \<Rightarrow> experiment_arm" where
  "pick_arm bucket cumulative fallback [] = fallback"
| "pick_arm bucket cumulative fallback (arm # arms) =
     (let cumulative = cumulative + arm_weight arm * (bucket_size div 100) in
      if bucket < cumulative then arm else pick_arm bucket cumulative fallback arms)"

definition select_arm ::
  "(string \<Rightarrow> int list) \<Rightarrow> string \<Rightarrow> string \<Rightarrow> experiment_config \<Rightarrow> experiment_assignment" where
  "select_arm sha256 team request x =
     (let arm = pick_arm (bucket_of sha256 team request x) 0 (last (ex_arms x)) (ex_arms x)
      in \<lparr>as_experiment_id = ex_id x, as_experiment_version = ex_version x, as_arm_name = arm_name arm,
          as_provider = arm_provider arm, as_model = arm_model arm\<rparr>)"

definition assign ::
  "(string \<Rightarrow> int list) \<Rightarrow> string \<Rightarrow> string \<Rightarrow> experiment_config option \<Rightarrow> experiment_assignment option" where
  "assign sha256 team request experiment = (case experiment of
     None \<Rightarrow> None
   | Some x \<Rightarrow> if \<not> ex_enabled x then None else if ex_arms x = [] then None
       else Some (select_arm sha256 team request x))"

section \<open>Traffic shares\<close>

definition threshold :: "experiment_arm list \<Rightarrow> int" where
  "threshold arms = 100 * sum_list (map arm_weight arms)"

lemma threshold_simps [simp]: "threshold [] = 0" "threshold (a # arms) = 100 * arm_weight a + threshold arms"
  "threshold (xs @ ys) = threshold xs + threshold ys"
  by (simp_all add: threshold_def)

lemma threshold_nonneg: "\<forall>a \<in> set arms. 0 < arm_weight a \<Longrightarrow> 0 \<le> threshold arms"
  by (induction arms) auto

lemma pick_arm_range:
  assumes "\<forall>a \<in> set (us @ a # vs). 0 < arm_weight a"
    and "c + threshold us \<le> b" "b < c + threshold us + 100 * arm_weight a"
  shows "pick_arm b c d (us @ a # vs) = a"
  using assms
proof (induction us arbitrary: c)
  case Nil
  then show ?case by (simp add: bucket_size_def)
next
  case (Cons u us)
  have "0 \<le> threshold us" using Cons.prems(1) by (intro threshold_nonneg) auto
  with Cons.prems show ?case
    using Cons.IH [of "c + 100 * arm_weight u"] by (simp add: bucket_size_def Let_def algebra_simps)
qed

lemma pick_arm_exists:
  assumes "\<forall>a \<in> set arms. 0 < arm_weight a" "0 \<le> b" "b < threshold arms"
  shows "\<exists>us a vs. arms = us @ a # vs \<and> threshold us \<le> b \<and> b < threshold us + 100 * arm_weight a"
  using assms
proof (induction arms arbitrary: b)
  case Nil
  then show ?case by simp
next
  case (Cons x arms)
  show ?case
  proof (cases "b < 100 * arm_weight x")
    case True
    then show ?thesis using Cons.prems(2) by (intro exI [of _ "[]"] exI [of _ x] exI [of _ arms]) simp
  next
    case False
    then obtain us a vs where "arms = us @ a # vs" "threshold us \<le> b - 100 * arm_weight x"
      "b - 100 * arm_weight x < threshold us + 100 * arm_weight a"
      using Cons.IH [of "b - 100 * arm_weight x"] Cons.prems by auto
    then show ?thesis by (intro exI [of _ "x # us"] exI [of _ a] exI [of _ vs]) simp
  qed
qed

lemma bucket_range: "0 \<le> bucket_of sha256 team request x" "bucket_of sha256 team request x < 10000"
  by (simp_all add: bucket_of_def bucket_size_def)

text \<open>The buckets of one arm: a run of \<open>100 * weight\<close> of them.\<close>

lemma arm_buckets:
  assumes "\<forall>a \<in> set arms. 0 < arm_weight a" "threshold arms = 10000" "distinct (map arm_name arms)"
    and "arms = us @ a # vs"
  shows "{b. 0 \<le> b \<and> b < 10000 \<and> pick_arm b 0 d arms = a} = {threshold us ..< threshold us + 100 * arm_weight a}"
proof (intro set_eqI iffI)
  fix b assume b: "b \<in> {b. 0 \<le> b \<and> b < 10000 \<and> pick_arm b 0 d arms = a}"
  then obtain us' a' vs' where split: "arms = us' @ a' # vs'" "threshold us' \<le> b" "b < threshold us' + 100 * arm_weight a'"
    using pick_arm_exists [OF assms(1), of b] assms(2) by auto
  have "pick_arm b 0 d arms = a'"
    using pick_arm_range [of us' a' vs' 0 b d] assms(1) split by simp
  with b have "a' = a" by simp
  have "a \<notin> set us" "a \<notin> set vs"
    using assms(3,4) by auto
  moreover have "us @ a # vs = us' @ a # vs'"
    using assms(4) split(1) \<open>a' = a\<close> by simp
  ultimately have "us' = us"
    using append_Cons_eq_iff [of a us vs us' vs'] by simp
  with split \<open>a' = a\<close> show "b \<in> {threshold us ..< threshold us + 100 * arm_weight a}" by simp
next
  fix b assume b: "b \<in> {threshold us ..< threshold us + 100 * arm_weight a}"
  have "0 \<le> threshold us" "0 \<le> threshold vs" using assms(1,4) by (auto intro!: threshold_nonneg)
  then have "0 \<le> b \<and> b < 10000" using b assms(2,4) by auto
  moreover have "pick_arm b 0 d arms = a"
    using pick_arm_range [of us a vs 0 b d] assms(1,4) b by simp
  ultimately show "b \<in> {b. 0 \<le> b \<and> b < 10000 \<and> pick_arm b 0 d arms = a}" by simp
qed

text \<open>
  C27: a validated experiment splits the buckets exactly by its weights: each arm owns 100 buckets per
  percent of weight, an enabled experiment always assigns one of its arms, and the assignment depends
  on the request only through its bucket.
\<close>

theorem arm_shares_exact:
  assumes "validate_experiment x = Some y" "ex_enabled y"
  shows "(\<forall>a \<in> set (ex_arms y). card {b. 0 \<le> b \<and> b < bucket_size \<and> pick_arm b 0 (last (ex_arms y)) (ex_arms y) = a} =
      nat (100 * arm_weight a)) \<and>
    (\<exists>a \<in> set (ex_arms y). pick_arm (bucket_of sha256 team request y) 0 (last (ex_arms y)) (ex_arms y) = a \<and>
      assign sha256 team request (Some y) = Some \<lparr>as_experiment_id = ex_id y, as_experiment_version = ex_version y,
        as_arm_name = arm_name a, as_provider = arm_provider a, as_model = arm_model a\<rparr>)"
proof -
  from valid_arms [OF assms(1)] have arms: "\<forall>a \<in> set (ex_arms y). 0 < arm_weight a" "threshold (ex_arms y) = 10000"
    "distinct (map arm_name (ex_arms y))" "ex_arms y \<noteq> []"
    by (auto simp: threshold_def)
  have "card {b. 0 \<le> b \<and> b < bucket_size \<and> pick_arm b 0 (last (ex_arms y)) (ex_arms y) = a} = nat (100 * arm_weight a)"
    if a: "a \<in> set (ex_arms y)" for a
  proof -
    obtain us vs where "ex_arms y = us @ a # vs" using a by (meson split_list)
    from arm_buckets [OF arms(1-3) this] show ?thesis by (simp add: bucket_size_def)
  qed
  moreover obtain us a vs where split: "ex_arms y = us @ a # vs" "threshold us \<le> bucket_of sha256 team request y"
    "bucket_of sha256 team request y < threshold us + 100 * arm_weight a"
    using pick_arm_exists [OF arms(1) bucket_range(1) [of sha256 team request y]] bucket_range(2) [of sha256 team request y]
      arms(2) by auto
  have "pick_arm (bucket_of sha256 team request y) 0 (last (ex_arms y)) (ex_arms y) = a"
    using pick_arm_range [of us a vs 0 "bucket_of sha256 team request y"] arms(1) split by simp
  ultimately show ?thesis
    using assms(2) arms(4) split(1) by (auto simp: assign_def select_arm_def Let_def)
qed

theorem arm_shares_exact_witness:
  "card {b. 0 \<le> b \<and> b < bucket_size \<and> pick_arm b 0 \<lparr>arm_name = ''canary'', arm_provider = ''groq'', arm_model = ''m2'', arm_weight = 5\<rparr>
      (ex_arms (the (in_experiment example_policy_valid))) =
      \<lparr>arm_name = ''canary'', arm_provider = ''groq'', arm_model = ''m2'', arm_weight = 5\<rparr>} = 500"
proof -
  have "validate_experiment (the (in_experiment example_policy)) = Some (the (in_experiment example_policy_valid))"
    by code_simp
  from arm_shares_exact [OF this, of "\<lambda>s. []" "[]" "[]"] show ?thesis
    by (simp add: example_policy_valid_def)
qed

end
