(* ===== verification/RateLimit.thy ===== *)
theory RateLimit
  imports Errors
begin

text \<open>
  The sliding-window rate limiter (\<open>app/rate_limit/limiter.py\<close>, \<open>models.py\<close>): the key names, the Lua
  script run by the Redis server, the check of one scope and the combined check of the three scopes.
  Redis is a service: its commands are the fields of the record \<open>redis\<close>, over a server state of any
  type, and \<open>counts\<close> states what its documentation says of them. Times are seconds; a Lua number and a
  Python float are real numbers.
\<close>

section \<open>The server\<close>

record 'r redis =
  rd_incr :: "string \<Rightarrow> 'r \<Rightarrow> int \<times> 'r"
  rd_expire :: "string \<Rightarrow> int \<Rightarrow> 'r \<Rightarrow> 'r"
  rd_get :: "string \<Rightarrow> 'r \<Rightarrow> int option"
  rd_ttl :: "string \<Rightarrow> 'r \<Rightarrow> int"

text \<open>\<open>_LUA_SCRIPT\<close>: one atomic execution. The reply is (effective count, TTL, current count).\<close>

definition lua_script ::
  "'r redis \<Rightarrow> string \<Rightarrow> string \<Rightarrow> int \<Rightarrow> int \<Rightarrow> int \<Rightarrow> 'r \<Rightarrow> (int \<times> int \<times> int) \<times> 'r" where
  "lua_script rd curr_key prev_key limit window elapsed_ms r =
     (let elapsed = real_of_int elapsed_ms / 1000;
          (curr_count, r) = rd_incr rd curr_key r;
          r = (if curr_count = 1 then rd_expire rd curr_key (window * 2) r else r);
          prev_count = (case rd_get rd prev_key r of Some n \<Rightarrow> n | None \<Rightarrow> 0);
          fraction = elapsed / real_of_int window;
          effective = real_of_int prev_count * (1 - fraction) + real_of_int curr_count;
          effective_int = \<lceil>effective\<rceil>;
          ttl = rd_ttl rd curr_key r;
          ttl = (if ttl < 0 then window else ttl)
      in ((effective_int, ttl, curr_count), r))"

section \<open>One scope\<close>

record rate_limit_result =
  rr_allowed :: bool
  rr_scope :: string
  rr_limit :: int
  rr_current_count :: int
  rr_remaining :: int
  rr_retry_after :: int

definition always_allowed :: "string \<Rightarrow> int \<Rightarrow> rate_limit_result" where
  "always_allowed scope limit = \<lparr>rr_allowed = True, rr_scope = scope, rr_limit = limit,
     rr_current_count = 0, rr_remaining = limit, rr_retry_after = 0\<rparr>"

definition rate_key :: "string \<Rightarrow> string \<Rightarrow> int \<Rightarrow> string" where
  "rate_key scope ident window_start =
     ''ratelimit:'' @ scope @ '':'' @ ident @ '':'' @ str_int window_start"

definition window_start :: "real \<Rightarrow> int \<Rightarrow> int" where
  "window_start now window = \<lfloor>now\<rfloor> div window * window"

definition elapsed_ms :: "real \<Rightarrow> int \<Rightarrow> int" where
  "elapsed_ms now window = \<lfloor>(now - real_of_int (window_start now window)) * 1000\<rfloor>"

text \<open>
  The connection: a call runs the script, or fails before the server has run it, or fails after
  (a lost reply).
\<close>

datatype connection = Up | LostCall | LostReply

fun evaluate_reply :: "string \<Rightarrow> int \<Rightarrow> int \<Rightarrow> int \<times> int \<times> int \<Rightarrow> rate_limit_result" where
  "evaluate_reply scope limit window (count, ttl0, curr_count) =
     (let ttl = (if ttl0 > 0 then ttl0 else window);
          allowed = (count \<le> limit)
      in \<lparr>rr_allowed = allowed, rr_scope = scope, rr_limit = limit, rr_current_count = count,
          rr_remaining = max 0 (limit - count), rr_retry_after = (if \<not> allowed then ttl else 0)\<rparr>)"

text \<open>A window of 0 seconds raises \<open>ZeroDivisionError\<close> outside of the \<open>try\<close>.\<close>

definition check_scope ::
  "'r redis option \<Rightarrow> connection \<Rightarrow> real \<Rightarrow> string \<Rightarrow> string \<Rightarrow> int \<Rightarrow> int \<Rightarrow> 'r \<Rightarrow>
   (exn + rate_limit_result) \<times> 'r" where
  "check_scope redis conn now scope ident limit window r =
     (case redis of
        None \<Rightarrow> (Inr (always_allowed scope limit), r)
      | Some rd \<Rightarrow>
          if window = 0 then (Inl (Exn ExceptionC ''integer division or modulo by zero''), r)
          else (let start = window_start now window;
                    curr_key = rate_key scope ident start;
                    prev_key = rate_key scope ident (start - window);
                    (reply, r') = lua_script rd curr_key prev_key limit window (elapsed_ms now window) r
                in (case conn of
                      Up \<Rightarrow> (Inr (evaluate_reply scope limit window reply), r')
                    | LostCall \<Rightarrow> (Inr (always_allowed scope limit), r)
                    | LostReply \<Rightarrow> (Inr (always_allowed scope limit), r'))))"

section \<open>All scopes\<close>

record rate_limit_outcome =
  ro_allowed :: bool
  ro_binding :: rate_limit_result
  ro_key :: rate_limit_result
  ro_team :: rate_limit_result
  ro_org :: rate_limit_result

text \<open>\<open>max(xs, key=f)\<close> and \<open>min(xs, key=f)\<close>: the first extreme element of a non-empty list.\<close>

fun max_by :: "('a \<Rightarrow> int) \<Rightarrow> 'a \<Rightarrow> 'a list \<Rightarrow> 'a" where
  "max_by f b [] = b"
| "max_by f b (x # xs) = max_by f (if f x > f b then x else b) xs"

fun min_by :: "('a \<Rightarrow> int) \<Rightarrow> 'a \<Rightarrow> 'a list \<Rightarrow> 'a" where
  "min_by f b [] = b"
| "min_by f b (x # xs) = min_by f (if f x < f b then x else b) xs"

definition outcome_of :: "rate_limit_result \<Rightarrow> rate_limit_result \<Rightarrow> rate_limit_result \<Rightarrow> rate_limit_outcome" where
  "outcome_of k t g = (let binding = (case filter (\<lambda>x. \<not> rr_allowed x) [k, t, g] of
         b # blocked \<Rightarrow> max_by rr_retry_after b blocked
       | [] \<Rightarrow> min_by rr_remaining k [t, g])
     in \<lparr>ro_allowed = (rr_allowed k \<and> rr_allowed t \<and> rr_allowed g), ro_binding = binding,
         ro_key = k, ro_team = t, ro_org = g\<rparr>)"

record rate_config =
  rc_key_limit :: int
  rc_key_window :: int
  rc_team_limit :: int
  rc_team_window :: int
  rc_org_limit :: int
  rc_org_window :: int

text \<open>Each scope reads the clock and makes a call of its own.\<close>

record rate_env =
  re_conn :: "string \<Rightarrow> connection"
  re_now :: "string \<Rightarrow> real"

definition check_all ::
  "'r redis option \<Rightarrow> rate_env \<Rightarrow> string \<Rightarrow> string \<Rightarrow> string \<Rightarrow> rate_config \<Rightarrow> 'r \<Rightarrow>
   (exn + rate_limit_outcome) \<times> 'r" where
  "check_all redis env api_key_id team_id org_id cfg r =
     (case check_scope redis (re_conn env ''key'') (re_now env ''key'') ''key'' api_key_id
             (rc_key_limit cfg) (rc_key_window cfg) r of
        (Inl e, r) \<Rightarrow> (Inl e, r)
      | (Inr k, r) \<Rightarrow> (case check_scope redis (re_conn env ''team'') (re_now env ''team'') ''team'' team_id
             (rc_team_limit cfg) (rc_team_window cfg) r of
          (Inl e, r) \<Rightarrow> (Inl e, r)
        | (Inr t, r) \<Rightarrow> (case check_scope redis (re_conn env ''org'') (re_now env ''org'') ''org'' org_id
             (rc_org_limit cfg) (rc_org_window cfg) r of
            (Inl e, r) \<Rightarrow> (Inl e, r)
          | (Inr g, r) \<Rightarrow> (Inr (outcome_of k t g), r))))"

section \<open>Keys do not collide\<close>

lemma digits_value: "foldl (\<lambda>a c. 10 * a + (of_char c - 48)) 0 (digits_nat n) = n"
proof (induction n rule: digits_nat.induct)
  case (1 n)
  then show ?case
    by (subst digits_nat.simps) (auto simp: of_char_of)
qed

lemma digit_char:
  assumes "k < 10" "of_char c \<notin> {48..57 :: nat}"
  shows "char_of (48 + k :: nat) \<noteq> c"
proof
  assume "char_of (48 + k) = c"
  then have "of_char (char_of (48 + k) :: char) = (of_char c :: nat)" by simp
  then have "of_char c = 48 + k" using assms(1) by (simp add: of_char_of)
  with assms show False by simp
qed

lemma digits_chars:
  assumes "of_char c \<notin> {48..57 :: nat}"
  shows "c \<notin> set (digits_nat n)"
proof (induction n rule: digits_nat.induct)
  case (1 n)
  then show ?case
    using digit_char [OF _ assms, of n] digit_char [OF _ assms, of "n mod 10"]
    by (subst digits_nat.simps) (auto simp del: of_char_of)
qed

lemma digits_no_separator: "CHR '':'' \<notin> set (digits_nat n)" "CHR ''-'' \<notin> set (digits_nat n)"
  by (rule digits_chars, simp)+

lemma digits_inj: "digits_nat m = digits_nat n \<Longrightarrow> m = n"
  by (metis digits_value)

lemma str_int_no_colon: "CHR '':'' \<notin> set (str_int i)"
  using digits_no_separator by (simp add: str_int_def)

lemma str_int_inj: "str_int i = str_int j \<Longrightarrow> i = j"
proof (cases "i < 0"; cases "j < 0")
  assume "str_int i = str_int j" "i < 0" "\<not> j < 0"
  then have "CHR ''-'' \<in> set (digits_nat (nat j))" by (simp add: str_int_def flip: list.set_intros(1))
       (metis list.set_intros(1))
  then show "i = j" using digits_no_separator by simp
next
  assume "str_int i = str_int j" "\<not> i < 0" "j < 0"
  then have "CHR ''-'' \<in> set (digits_nat (nat i))" by (simp add: str_int_def) 
  then show "i = j" using digits_no_separator by simp
qed (auto simp: str_int_def dest: digits_inj)

text \<open>Keys of scopes without a colon determine the scope, the identifier and the window.\<close>

lemma rate_key_inj:
  assumes "rate_key sc ident st = rate_key sc' ident' st'" "CHR '':'' \<notin> set sc" "CHR '':'' \<notin> set sc'"
  shows "sc = sc' \<and> ident = ident' \<and> st = st'"
proof -
  have "sc @ CHR '':'' # (ident @ CHR '':'' # str_int st) = sc' @ CHR '':'' # (ident' @ CHR '':'' # str_int st')"
    using assms(1) by (simp add: rate_key_def)
  from split_first [OF this assms(2,3)] have "sc = sc'"
    and rest: "ident @ CHR '':'' # str_int st = ident' @ CHR '':'' # str_int st'" by simp_all
  from split_final [OF rest str_int_no_colon str_int_no_colon] \<open>sc = sc'\<close> show ?thesis
    by (auto dest: str_int_inj)
qed

section \<open>What Redis promises\<close>

text \<open>
  The view of a server: the value of a counter (0 when the key does not exist), the time at which a
  key expires, the server's clock, and the passage of time.
\<close>

record 'r redis_view =
  vw_count :: "'r \<Rightarrow> string \<Rightarrow> int"
  vw_deadline :: "'r \<Rightarrow> string \<Rightarrow> real option"
  vw_clock :: "'r \<Rightarrow> real"
  vw_wait :: "real \<Rightarrow> 'r \<Rightarrow> 'r"

definition incr_law :: "'r redis \<Rightarrow> 'r redis_view \<Rightarrow> bool" where
  "incr_law rd vw = (\<forall>k r. fst (rd_incr rd k r) = vw_count vw r k + 1 \<and>
     vw_count vw (snd (rd_incr rd k r)) = (vw_count vw r)(k := vw_count vw r k + 1) \<and>
     vw_deadline vw (snd (rd_incr rd k r)) = vw_deadline vw r \<and>
     vw_clock vw (snd (rd_incr rd k r)) = vw_clock vw r)"

definition expire_law :: "'r redis \<Rightarrow> 'r redis_view \<Rightarrow> bool" where
  "expire_law rd vw = (\<forall>k n r. 0 < n \<and> 0 < vw_count vw r k \<longrightarrow>
     vw_count vw (rd_expire rd k n r) = vw_count vw r \<and>
     vw_deadline vw (rd_expire rd k n r) = (vw_deadline vw r)(k \<mapsto> vw_clock vw r + of_int n) \<and>
     vw_clock vw (rd_expire rd k n r) = vw_clock vw r)"

definition get_law :: "'r redis \<Rightarrow> 'r redis_view \<Rightarrow> bool" where
  "get_law rd vw = (\<forall>k r. (case rd_get rd k r of Some n \<Rightarrow> n | None \<Rightarrow> 0) = vw_count vw r k)"

text \<open>TTL rounds the remaining seconds and is negative for a key without expiry.\<close>

definition ttl_law :: "'r redis \<Rightarrow> 'r redis_view \<Rightarrow> bool" where
  "ttl_law rd vw = (\<forall>k r. case vw_deadline vw r k of
     None \<Rightarrow> rd_ttl rd k r < 0
   | Some d \<Rightarrow> \<bar>of_int (rd_ttl rd k r) - (d - vw_clock vw r)\<bar> \<le> 1 / 2)"

definition expired :: "'r redis_view \<Rightarrow> 'r \<Rightarrow> real \<Rightarrow> string \<Rightarrow> bool" where
  "expired vw r t k = (case vw_deadline vw r k of None \<Rightarrow> False | Some d \<Rightarrow> d \<le> t)"

definition wait_law :: "'r redis_view \<Rightarrow> bool" where
  "wait_law vw = (\<forall>t r. vw_clock vw r \<le> t \<longrightarrow> vw_clock vw (vw_wait vw t r) = t \<and>
     (\<forall>k. vw_count vw (vw_wait vw t r) k = (if expired vw r t k then 0 else vw_count vw r k) \<and>
          vw_deadline vw (vw_wait vw t r) k = (if expired vw r t k then None else vw_deadline vw r k)))"

definition redis_laws :: "'r redis \<Rightarrow> 'r redis_view \<Rightarrow> bool" where
  "redis_laws rd vw = (incr_law rd vw \<and> expire_law rd vw \<and> get_law rd vw \<and> ttl_law rd vw \<and> wait_law vw)"

section \<open>Runs\<close>

text \<open>
  A run: checks of any scopes and identifiers in the order in which the server executes their
  scripts, each at its time; \<open>win\<close> and \<open>quota\<close> give the window of a scope and the limit of an identifier.
\<close>

fun limiter_run ::
  "'r redis \<Rightarrow> 'r redis_view \<Rightarrow> (string \<Rightarrow> int) \<Rightarrow> (string \<Rightarrow> string \<Rightarrow> int) \<Rightarrow> (string \<times> string \<times> real) list \<Rightarrow>
   'r \<Rightarrow> (exn + rate_limit_result) list" where
  "limiter_run rd vw win quota [] r = []"
| "limiter_run rd vw win quota ((scope, ident, t) # es) r =
     (let (res, r') = check_scope (Some rd) Up t scope ident (quota scope ident) (win scope) (vw_wait vw t r)
      in res # limiter_run rd vw win quota es r')"

text \<open>The specification: how often an identifier has asked in a window, and the weighted count.\<close>

definition attempts ::
  "(string \<Rightarrow> int) \<Rightarrow> (string \<times> string \<times> real) list \<Rightarrow> string \<Rightarrow> string \<Rightarrow> int \<Rightarrow> nat" where
  "attempts win hist scope ident start =
     length (filter (\<lambda>(sc, i, t). sc = scope \<and> i = ident \<and> window_start t (win scope) = start) hist)"

definition weighted ::
  "(string \<Rightarrow> int) \<Rightarrow> (string \<times> string \<times> real) list \<Rightarrow> string \<Rightarrow> string \<Rightarrow> real \<Rightarrow> int" where
  "weighted win hist scope ident t =
     (let w = win scope; start = window_start t w in
      \<lceil>real (attempts win hist scope ident (start - w)) * (1 - real_of_int (elapsed_ms t w) / 1000 / real_of_int w)
        + real (attempts win hist scope ident start) + 1\<rceil>)"

definition plain_scopes :: "(string \<times> string \<times> real) list \<Rightarrow> bool" where
  "plain_scopes es = (\<forall>(sc, i, t) \<in> set es. CHR '':'' \<notin> set sc)"

definition limiter_inv ::
  "'r redis_view \<Rightarrow> (string \<Rightarrow> int) \<Rightarrow> (string \<times> string \<times> real) list \<Rightarrow> 'r \<Rightarrow> bool" where
  "limiter_inv vw win hist r = (\<forall>sc i st. CHR '':'' \<notin> set sc \<longrightarrow>
     (let k = rate_key sc i st; life = real_of_int (st + 2 * win sc) in
        (vw_count vw r k = int (attempts win hist sc i st) \<or> life \<le> vw_clock vw r \<and> vw_count vw r k = 0) \<and>
        (0 < vw_count vw r k \<longrightarrow> (\<exists>d. vw_deadline vw r k = Some d \<and> life \<le> d))))"

lemma window_bounds:
  assumes "0 < w"
  shows "real_of_int (window_start t w) \<le> t" "t < real_of_int (window_start t w) + real_of_int w"
proof -
  have "window_start t w \<le> \<lfloor>t\<rfloor>" "\<lfloor>t\<rfloor> < window_start t w + w"
    using pos_mod_sign [OF assms, of "\<lfloor>t\<rfloor>"] pos_mod_bound [OF assms, of "\<lfloor>t\<rfloor>"]
      div_mult_mod_eq [of "\<lfloor>t\<rfloor>" w] unfolding window_start_def by linarith+
  then show "real_of_int (window_start t w) \<le> t" "t < real_of_int (window_start t w) + real_of_int w"
    by linarith+
qed

lemma inv_wait:
  assumes "redis_laws rd vw" "limiter_inv vw win hist r" "vw_clock vw r \<le> t"
  shows "limiter_inv vw win hist (vw_wait vw t r)"
proof -
  have wait: "vw_clock vw (vw_wait vw t r) = t"
    "vw_count vw (vw_wait vw t r) k = (if expired vw r t k then 0 else vw_count vw r k)"
    "vw_deadline vw (vw_wait vw t r) k = (if expired vw r t k then None else vw_deadline vw r k)" for k
    using assms(1,3) by (auto simp: redis_laws_def wait_law_def)
  show ?thesis
    unfolding limiter_inv_def Let_def
  proof (intro allI impI)
    fix sc i st
    assume "CHR '':'' \<notin> set sc"
    then have inv: "vw_count vw r (rate_key sc i st) = int (attempts win hist sc i st) \<or>
        real_of_int (st + 2 * win sc) \<le> vw_clock vw r \<and> vw_count vw r (rate_key sc i st) = 0"
      "0 < vw_count vw r (rate_key sc i st) \<longrightarrow>
        (\<exists>d. vw_deadline vw r (rate_key sc i st) = Some d \<and> real_of_int (st + 2 * win sc) \<le> d)"
      using assms(2) by (auto simp: limiter_inv_def Let_def)
    then show "(vw_count vw (vw_wait vw t r) (rate_key sc i st) = int (attempts win hist sc i st) \<or>
        real_of_int (st + 2 * win sc) \<le> vw_clock vw (vw_wait vw t r) \<and>
        vw_count vw (vw_wait vw t r) (rate_key sc i st) = 0) \<and>
      (0 < vw_count vw (vw_wait vw t r) (rate_key sc i st) \<longrightarrow>
        (\<exists>d. vw_deadline vw (vw_wait vw t r) (rate_key sc i st) = Some d \<and> real_of_int (st + 2 * win sc) \<le> d))"
      using assms(3) unfolding wait expired_def
      by (cases "attempts win hist sc i st = 0") (auto split: option.splits)
  qed
qed

lemma attempts_snoc: "attempts win (hist @ [(sc, i, t)]) sc' i' st =
    attempts win hist sc' i' st + (if sc = sc' \<and> i = i' \<and> window_start t (win sc') = st then 1 else 0)"
  by (simp add: attempts_def)

text \<open>The script on a server whose live counters are the attempts.\<close>

lemma inv_script:
  assumes laws: "redis_laws rd vw" and inv: "limiter_inv vw win hist r"
    and sc: "CHR '':'' \<notin> set sc" and w: "0 < win sc" and now: "vw_clock vw r = t"
  shows "\<exists>ttl r'. lua_script rd (rate_key sc i (window_start t (win sc)))
      (rate_key sc i (window_start t (win sc) - win sc)) quota (win sc) (elapsed_ms t (win sc)) r =
      ((weighted win hist sc i t, ttl, int (attempts win hist sc i (window_start t (win sc))) + 1), r') \<and>
    limiter_inv vw win (hist @ [(sc, i, t)]) r' \<and> vw_clock vw r' = t \<and>
    real_of_int (window_start t (win sc) + 2 * win sc) - t - 1 / 2 \<le> real_of_int ttl"
proof -
  let ?start = "window_start t (win sc)"
  let ?k = "rate_key sc i ?start" and ?p = "rate_key sc i (?start - win sc)"
  have live: "vw_count vw r (rate_key sc i st) = int (attempts win hist sc i st)"
    if "t < real_of_int (st + 2 * win sc)" for st
  proof -
    have "vw_count vw r (rate_key sc i st) = int (attempts win hist sc i st) \<or>
        real_of_int (st + 2 * win sc) \<le> vw_clock vw r"
      using inv sc unfolding limiter_inv_def Let_def by blast
    with now that show ?thesis by linarith
  qed
  have "t < real_of_int (?start + win sc)"
    using window_bounds(2) [OF w, of t] by simp
  then have count: "vw_count vw r ?k = int (attempts win hist sc i ?start)"
    "vw_count vw r ?p = int (attempts win hist sc i (?start - win sc))"
    using w by (auto intro!: live)
  have other: "?p \<noteq> ?k"
    using rate_key_inj [OF _ sc sc] w by force
  define r1 where "r1 = snd (rd_incr rd ?k r)"
  define r2 where "r2 = (if vw_count vw r ?k + 1 = 1 then rd_expire rd ?k (win sc * 2) r1 else r1)"
  have r1: "fst (rd_incr rd ?k r) = vw_count vw r ?k + 1" "vw_count vw r1 = (vw_count vw r)(?k := vw_count vw r ?k + 1)"
    "vw_deadline vw r1 = vw_deadline vw r" "vw_clock vw r1 = t"
    using laws now by (simp_all add: r1_def redis_laws_def incr_law_def)
  have pos: "0 < vw_count vw r1 ?k"
    using count(1) r1(2) by simp
  have r2: "vw_count vw r2 = vw_count vw r1" "vw_clock vw r2 = t"
    "vw_deadline vw r2 = (if vw_count vw r ?k + 1 = 1 then (vw_deadline vw r)(?k \<mapsto> t + of_int (win sc * 2)) else vw_deadline vw r)"
    using laws pos w r1(3,4) by (auto simp: r2_def redis_laws_def expire_law_def)
  have prev: "(case rd_get rd ?p r2 of Some n \<Rightarrow> n | None \<Rightarrow> 0) = int (attempts win hist sc i (?start - win sc))"
    using laws count(2) other r1(2) r2(1) by (simp add: redis_laws_def get_law_def)
  obtain c where incr: "rd_incr rd ?k r = (c, r1)"
    by (cases "rd_incr rd ?k r") (simp add: r1_def)
  have c: "c = int (attempts win hist sc i ?start) + 1"
    using incr r1(1) count(1) by simp
  have r2': "(if c = 1 then rd_expire rd ?k (win sc * 2) r1 else r1) = r2"
    using c count(1) by (simp add: r2_def)
  have eff: "\<lceil>real_of_int (int (attempts win hist sc i (?start - win sc))) *
        (1 - real_of_int (elapsed_ms t (win sc)) / 1000 / real_of_int (win sc)) + real_of_int c\<rceil> = weighted win hist sc i t"
    by (simp add: weighted_def Let_def c algebra_simps)
  have "limiter_inv vw win (hist @ [(sc, i, t)]) r2"
    unfolding limiter_inv_def Let_def
  proof (intro allI impI)
    fix sc' i' st
    assume sc': "CHR '':'' \<notin> set sc'"
    let ?j = "rate_key sc' i' st"
    have old: "vw_count vw r ?j = int (attempts win hist sc' i' st) \<or>
        real_of_int (st + 2 * win sc') \<le> t \<and> vw_count vw r ?j = 0"
      "0 < vw_count vw r ?j \<longrightarrow> (\<exists>d. vw_deadline vw r ?j = Some d \<and> real_of_int (st + 2 * win sc') \<le> d)"
      using inv sc' now unfolding limiter_inv_def Let_def by blast+
    show "(vw_count vw r2 ?j = int (attempts win (hist @ [(sc, i, t)]) sc' i' st) \<or>
        real_of_int (st + 2 * win sc') \<le> vw_clock vw r2 \<and> vw_count vw r2 ?j = 0) \<and>
      (0 < vw_count vw r2 ?j \<longrightarrow> (\<exists>d. vw_deadline vw r2 ?j = Some d \<and> real_of_int (st + 2 * win sc') \<le> d))"
    proof (cases "?j = ?k")
      case True
      then have same: "sc' = sc" "i' = i" "st = ?start"
        using rate_key_inj [OF True sc' sc] by auto
      have "\<exists>d. vw_deadline vw r2 ?k = Some d \<and> real_of_int (?start + 2 * win sc) \<le> d"
        using old(2) r2(3) count(1) window_bounds(1) [OF w, of t] unfolding same by auto
      then show ?thesis
        using count(1) r1(2) r2(1) unfolding same by (simp add: attempts_snoc)
    next
      case False
      then have "\<not> (sc = sc' \<and> i = i' \<and> window_start t (win sc') = st)" by auto
      then have "attempts win (hist @ [(sc, i, t)]) sc' i' st = attempts win hist sc' i' st"
        by (simp add: attempts_snoc)
      then show ?thesis
        using old False r1(2) r2 by simp
    qed
  qed
  moreover have "lua_script rd ?k ?p quota (win sc) (elapsed_ms t (win sc)) r =
      ((weighted win hist sc i t, if rd_ttl rd ?k r2 < 0 then win sc else rd_ttl rd ?k r2, c), r2)"
    unfolding lua_script_def Let_def incr case_prod_conv r2' prev eff by simp
  moreover have "real_of_int (?start + 2 * win sc) - t - 1 / 2 \<le> real_of_int (rd_ttl rd ?k r2)"
  proof -
    obtain d where d: "vw_deadline vw r2 ?k = Some d" "real_of_int (?start + 2 * win sc) \<le> d"
      using calculation(1) sc pos r2(1) unfolding limiter_inv_def Let_def by metis
    have "\<bar>real_of_int (rd_ttl rd ?k r2) - (d - t)\<bar> \<le> 1 / 2"
      using laws d(1) r2(2) unfolding redis_laws_def ttl_law_def by (metis option.simps(5))
    with d(2) show ?thesis by linarith
  qed
  moreover have "0 \<le> rd_ttl rd ?k r2"
    using calculation(3) window_bounds(2) [OF w, of t] w by linarith
  ultimately show ?thesis
    using c r2(2) by (simp add: not_less)
qed

text \<open>The verdict the specification gives of one check, after the checks \<open>hist\<close>.\<close>

definition judged ::
  "(string \<Rightarrow> int) \<Rightarrow> (string \<Rightarrow> string \<Rightarrow> int) \<Rightarrow> (string \<times> string \<times> real) list \<Rightarrow> string \<times> string \<times> real \<Rightarrow>
   exn + rate_limit_result \<Rightarrow> bool" where
  "judged win quota hist e res = (case e of (sc, i, t) \<Rightarrow> (case res of
     Inl err \<Rightarrow> False
   | Inr x \<Rightarrow> rr_scope x = sc \<and> rr_current_count x = weighted win hist sc i t \<and>
       rr_allowed x = (weighted win hist sc i t \<le> quota sc i) \<and>
       (rr_allowed x \<and> rr_retry_after x = 0 \<or> \<not> rr_allowed x \<and>
         real_of_int (window_start t (win sc) + 2 * win sc) - t - 1 / 2 \<le> real_of_int (rr_retry_after x))))"

lemma check_judged:
  assumes "redis_laws rd vw" "limiter_inv vw win hist r" "CHR '':'' \<notin> set sc" "0 < win sc" "vw_clock vw r \<le> t"
  shows "\<exists>res r'. check_scope (Some rd) Up t sc i (quota sc i) (win sc) (vw_wait vw t r) = (res, r') \<and>
    judged win quota hist (sc, i, t) res \<and> limiter_inv vw win (hist @ [(sc, i, t)]) r' \<and> vw_clock vw r' = t"
proof -
  have clock: "vw_clock vw (vw_wait vw t r) = t"
    using assms(1,5) by (simp add: redis_laws_def wait_law_def)
  obtain ttl r' where script: "lua_script rd (rate_key sc i (window_start t (win sc)))
      (rate_key sc i (window_start t (win sc) - win sc)) (quota sc i) (win sc) (elapsed_ms t (win sc)) (vw_wait vw t r) =
      ((weighted win hist sc i t, ttl, int (attempts win hist sc i (window_start t (win sc))) + 1), r')"
    and inv: "limiter_inv vw win (hist @ [(sc, i, t)]) r'" and "vw_clock vw r' = t"
    and ttl: "real_of_int (window_start t (win sc) + 2 * win sc) - t - 1 / 2 \<le> real_of_int ttl"
    using inv_script [OF assms(1) inv_wait [OF assms(1,2,5)] assms(3,4) clock, where quota = "quota sc i"] by blast
  have "0 < ttl"
    using ttl window_bounds(2) [OF assms(4), of t] assms(4) by linarith
  with script inv ttl \<open>vw_clock vw r' = t\<close> assms(4) show ?thesis
    by (auto simp: check_scope_def Let_def judged_def)
qed

lemma run_judged:
  assumes "redis_laws rd vw" "limiter_inv vw win hist r" "plain_scopes es" "\<forall>e \<in> set es. 0 < win (fst e)"
    and "sorted (vw_clock vw r # map (\<lambda>e. snd (snd e)) es)"
  shows "length (limiter_run rd vw win quota es r) = length es \<and>
    (\<forall>n < length es. judged win quota (hist @ take n es) (es ! n) (limiter_run rd vw win quota es r ! n))"
  using assms
proof (induction es arbitrary: hist r)
  case Nil
  then show ?case by simp
next
  case (Cons e es)
  obtain sc i t where e: "e = (sc, i, t)" by (cases e) auto
  obtain res r' where check: "check_scope (Some rd) Up t sc i (quota sc i) (win sc) (vw_wait vw t r) = (res, r')"
    "judged win quota hist (sc, i, t) res" "limiter_inv vw win (hist @ [(sc, i, t)]) r'" "vw_clock vw r' = t"
    using check_judged [OF Cons.prems(1,2), of sc t i quota] Cons.prems(3-5) e by (auto simp: plain_scopes_def)
  have IH: "length (limiter_run rd vw win quota es r') = length es"
    "\<forall>n < length es. judged win quota ((hist @ [e]) @ take n es) (es ! n) (limiter_run rd vw win quota es r' ! n)"
    using Cons.IH [OF Cons.prems(1) check(3)] Cons.prems(3-5) check(4) e by (auto simp: plain_scopes_def)
  have run: "limiter_run rd vw win quota (e # es) r = res # limiter_run rd vw win quota es r'"
    using check(1) e by simp
  show ?case
  proof (intro conjI allI impI)
    fix n assume "n < length (e # es)"
    then show "judged win quota (hist @ take n (e # es)) ((e # es) ! n) (limiter_run rd vw win quota (e # es) r ! n)"
      unfolding run using IH(2) check(2) e by (cases n) simp_all
  qed (unfold run, simp add: IH(1))
qed

definition fresh_server :: "'r redis_view \<Rightarrow> 'r \<Rightarrow> bool" where
  "fresh_server vw r = (\<forall>sc i st. vw_count vw r (rate_key sc i st) = 0)"

lemma fresh_inv: "fresh_server vw r \<Longrightarrow> limiter_inv vw win [] r"
  by (simp add: fresh_server_def limiter_inv_def attempts_def)

lemma fresh_run_judged:
  assumes "redis_laws rd vw" "fresh_server vw r" "plain_scopes es" "\<forall>e \<in> set es. 0 < win (fst e)"
    and "sorted (vw_clock vw r # map (\<lambda>e. snd (snd e)) es)"
  shows "length (limiter_run rd vw win quota es r) = length es \<and>
    (\<forall>n < length es. judged win quota (take n es) (es ! n) (limiter_run rd vw win quota es r ! n))"
  using run_judged [OF assms(1) fresh_inv [OF assms(2)] assms(3-5)] by simp

section \<open>A server\<close>

text \<open>An in-memory server that keeps the promises, for the instances below.\<close>

record local_server =
  sv_clock :: real
  sv_keys :: "string \<Rightarrow> (int \<times> real option) option"

definition local_redis :: "local_server redis" where
  "local_redis = \<lparr>
     rd_incr = (\<lambda>k s. case sv_keys s k of
         None \<Rightarrow> (1, s\<lparr>sv_keys := (sv_keys s)(k \<mapsto> (1, None))\<rparr>)
       | Some (n, d) \<Rightarrow> (n + 1, s\<lparr>sv_keys := (sv_keys s)(k \<mapsto> (n + 1, d))\<rparr>)),
     rd_expire = (\<lambda>k n s. case sv_keys s k of
         None \<Rightarrow> s
       | Some (c, d) \<Rightarrow> s\<lparr>sv_keys := (sv_keys s)(k \<mapsto> (c, Some (sv_clock s + of_int n)))\<rparr>),
     rd_get = (\<lambda>k s. map_option fst (sv_keys s k)),
     rd_ttl = (\<lambda>k s. case sv_keys s k of
         None \<Rightarrow> -2 | Some (n, None) \<Rightarrow> -1 | Some (n, Some d) \<Rightarrow> round (d - sv_clock s))\<rparr>"

definition local_view :: "local_server redis_view" where
  "local_view = \<lparr>
     vw_count = (\<lambda>s k. case sv_keys s k of None \<Rightarrow> 0 | Some (n, d) \<Rightarrow> n),
     vw_deadline = (\<lambda>s k. case sv_keys s k of None \<Rightarrow> None | Some (n, d) \<Rightarrow> d),
     vw_clock = sv_clock,
     vw_wait = (\<lambda>t s. \<lparr>sv_clock = t, sv_keys = (\<lambda>k. case sv_keys s k of
         None \<Rightarrow> None
       | Some (n, d) \<Rightarrow> if (case d of None \<Rightarrow> False | Some x \<Rightarrow> x \<le> t) then None else Some (n, d))\<rparr>)\<rparr>"

lemma round_half: "\<bar>real_of_int (round x) - x\<bar> * 2 \<le> 1"
  using of_int_round_abs_le [of x] by (simp add: field_simps)

lemma local_laws: "redis_laws local_redis local_view"
  unfolding redis_laws_def
proof (intro conjI)
  show "incr_law local_redis local_view"
    by (auto simp: incr_law_def local_redis_def local_view_def fun_eq_iff split: option.splits)
  show "expire_law local_redis local_view"
    by (auto simp: expire_law_def local_redis_def local_view_def fun_eq_iff split: option.splits)
  show "get_law local_redis local_view"
    by (auto simp: get_law_def local_redis_def local_view_def split: option.splits)
  show "ttl_law local_redis local_view"
    by (auto simp: ttl_law_def local_redis_def local_view_def round_half split: option.splits)
  show "wait_law local_view"
    by (auto simp: wait_law_def expired_def local_view_def split: option.splits)
qed

definition empty_server :: local_server where
  "empty_server = \<lparr>sv_clock = 0, sv_keys = (\<lambda>k. None)\<rparr>"

lemma empty_fresh: "fresh_server local_view empty_server" "vw_clock local_view empty_server = 0"
  by (simp_all add: fresh_server_def local_view_def empty_server_def)

section \<open>What the limiter guarantees\<close>

text \<open>
  C15: the limiter computes the sliding window exactly: on a server that starts without its keys, whatever
  scopes and identifiers are checked in whatever order, each check counts the identifier's attempts in
  the current and the previous window, weights them by the elapsed fraction, and admits the request iff
  the rounded-up sum is within the limit. A refused request is told to wait until two windows after the
  start of its own: a whole window longer than until the window resets.
\<close>

theorem limiter_refines_sliding_window:
  assumes "redis_laws rd vw" "fresh_server vw r" "plain_scopes es" "\<forall>e \<in> set es. 0 < win (fst e)"
    and "sorted (vw_clock vw r # map (\<lambda>e. snd (snd e)) es)"
  shows "length (limiter_run rd vw win quota es r) = length es \<and>
    (\<forall>n < length es. judged win quota (take n es) (es ! n) (limiter_run rd vw win quota es r ! n))"
  by (rule fresh_run_judged [OF assms])

theorem limiter_refines_sliding_window_witness:
  "judged (\<lambda>sc. 60) (\<lambda>sc i. 1) [(''key'', ''k'', 30)] (''key'', ''k'', 90)
     (limiter_run local_redis local_view (\<lambda>sc. 60) (\<lambda>sc i. 1) [(''key'', ''k'', 30), (''key'', ''k'', 90)] empty_server ! 1)"
  using limiter_refines_sliding_window [OF local_laws empty_fresh(1), of "[(''key'', ''k'', 30), (''key'', ''k'', 90)]"
      "\<lambda>sc. 60" "\<lambda>sc i. 1"] empty_fresh(2)
  by (simp add: plain_scopes_def All_less_Suc del: limiter_run.simps)

definition in_window :: "(string \<Rightarrow> int) \<Rightarrow> string \<Rightarrow> string \<Rightarrow> int \<Rightarrow> string \<times> string \<times> real \<Rightarrow> bool" where
  "in_window win sc i st e = (fst e = sc \<and> fst (snd e) = i \<and> window_start (snd (snd e)) (win sc) = st)"

definition admitted_check :: "exn + rate_limit_result \<Rightarrow> bool" where
  "admitted_check res = (case res of Inl e \<Rightarrow> False | Inr x \<Rightarrow> rr_allowed x)"

lemma attempts_card: "N \<le> length es \<Longrightarrow> attempts win (take N es) sc i st = card {m. m < N \<and> in_window win sc i st (es ! m)}"
proof -
  assume N: "N \<le> length es"
  have "attempts win (take N es) sc i st = length (filter (in_window win sc i st) (take N es))"
    unfolding attempts_def by (rule arg_cong [of _ _ length], rule filter_cong) (auto simp: in_window_def)
  also have "\<dots> = card {m. m < N \<and> in_window win sc i st (es ! m)}"
    unfolding length_filter_conv_card using N by (intro arg_cong [of _ _ card]) auto
  finally show ?thesis .
qed

lemma weighted_at_least:
  assumes "0 < win sc"
  shows "int (attempts win hist sc i (window_start t (win sc))) + 1 \<le> weighted win hist sc i t"
proof -
  have "(t - real_of_int (window_start t (win sc))) * 1000 < real_of_int (win sc) * 1000"
    using window_bounds(2) [OF assms, of t] by simp
  then have "real_of_int (elapsed_ms t (win sc)) \<le> 1000 * real_of_int (win sc)"
    unfolding elapsed_ms_def by linarith
  then have "real_of_int (elapsed_ms t (win sc)) / 1000 / real_of_int (win sc) \<le> 1"
    using assms by (simp add: field_simps)
  then have "0 \<le> real (attempts win hist sc i (window_start t (win sc) - win sc)) *
      (1 - real_of_int (elapsed_ms t (win sc)) / 1000 / real_of_int (win sc))"
    by (intro mult_nonneg_nonneg) auto
  then show ?thesis
    unfolding weighted_def Let_def by linarith
qed

text \<open>
  No fixed window admits more requests of an identifier than its limit, however the checks of all
  identifiers interleave.
\<close>

theorem window_admits_at_most_limit:
  assumes "redis_laws rd vw" "fresh_server vw r" "plain_scopes es" "\<forall>e \<in> set es. 0 < win (fst e)"
    and "sorted (vw_clock vw r # map (\<lambda>e. snd (snd e)) es)"
  shows "card {n. n < length es \<and> in_window win sc i st (es ! n) \<and>
    admitted_check (limiter_run rd vw win quota es r ! n)} \<le> nat (quota sc i)"
proof -
  let ?run = "limiter_run rd vw win quota es r"
  let ?A = "{n. n < length es \<and> in_window win sc i st (es ! n) \<and> admitted_check (?run ! n)}"
  have judged: "judged win quota (take n es) (es ! n) (?run ! n)" if "n < length es" for n
    using fresh_run_judged [where rd = rd and vw = vw and r = r and es = es and win = win and quota = quota, OF assms] that by blast
  have fin: "finite ?A" by simp
  show ?thesis
  proof (cases "?A = {}")
    case False
    define N where "N = Max ?A"
    have N: "N \<in> ?A"
      using Max_in [OF fin False] by (simp add: N_def)
    then obtain t where e: "es ! N = (sc, i, t)" "window_start t (win sc) = st" and len: "N < length es"
      by (cases "es ! N") (auto simp: in_window_def)
    have "?A - {N} \<subseteq> {m. m < N \<and> in_window win sc i st (es ! m)}"
      using Max_ge [OF fin] by (auto simp: N_def order.strict_iff_order)
    then have "card (?A - {N}) \<le> attempts win (take N es) sc i st"
      using len by (subst attempts_card) (auto intro: card_mono)
    moreover have "weighted win (take N es) sc i t \<le> quota sc i"
      using judged [OF len] N e by (auto simp: judged_def admitted_check_def split: sum.splits)
    moreover have "0 < win sc"
      using assms(4) nth_mem [OF len] e(1) by force
    ultimately have "int (card (?A - {N})) + 1 \<le> quota sc i"
      using weighted_at_least [of win sc "take N es" i t] e(2) by simp
    then show ?thesis
      using N card_Suc_Diff1 [OF fin N] by linarith
  next
    case True
    show ?thesis unfolding True by simp
  qed
qed

theorem window_admits_at_most_limit_witness:
  "card {n. n < 2 \<and> in_window (\<lambda>sc. 60) ''key'' ''k'' 0 ([(''key'', ''k'', 1), (''key'', ''k'', 2)] ! n) \<and>
     admitted_check (limiter_run local_redis local_view (\<lambda>sc. 60) (\<lambda>sc i. 1)
       [(''key'', ''k'', 1), (''key'', ''k'', 2)] empty_server ! n)} \<le> 1"
  using window_admits_at_most_limit [OF local_laws empty_fresh(1), of "[(''key'', ''k'', 1), (''key'', ''k'', 2)]"
      "\<lambda>sc. 60" "''key''" "''k''" 0 "\<lambda>sc i. 1"] empty_fresh(2)
  by (simp add: plain_scopes_def numeral_2_eq_2 del: limiter_run.simps)

lemma burst_attempts:
  assumes "window_start t1 (win sc) = window_start t0 (win sc) + win sc" "0 < win sc"
  shows "attempts win (take n (replicate L (sc, i, t0) @ replicate m (sc, i, t1))) sc i (window_start t0 (win sc)) = min n L"
    and "attempts win (take n (replicate L (sc, i, t0) @ replicate m (sc, i, t1))) sc i (window_start t1 (win sc)) = min (n - L) m"
    and "attempts win (take n (replicate L (sc, i, t0) @ replicate m (sc, i, t1))) sc i (window_start t0 (win sc) - win sc) = 0"
  using assms by (auto simp: attempts_def)

text \<open>
  The smoothing does not stop a burst at the boundary: when an identifier uses its whole limit \<open>L\<close>
  within one window and \<open>m\<close> more requests follow in the next one, all are admitted as soon as \<open>m\<close> is at
  most the elapsed fraction of \<open>L\<close>. With the first \<open>L\<close> at the end of their window this admits nearly
  \<open>2 * L\<close> requests in less than one window length.
\<close>

theorem boundary_burst_admitted:
  assumes "redis_laws rd vw" "fresh_server vw r" "CHR '':'' \<notin> set sc" "0 < win sc"
    and "vw_clock vw r \<le> t0" "t0 \<le> t1" "window_start t1 (win sc) = window_start t0 (win sc) + win sc"
    and "real m \<le> real L * (real_of_int (elapsed_ms t1 (win sc)) / 1000 / real_of_int (win sc))"
    and "quota sc i = int L"
  shows "\<forall>res \<in> set (limiter_run rd vw win quota (replicate L (sc, i, t0) @ replicate m (sc, i, t1)) r).
    admitted_check res"
proof -
  let ?es = "replicate L (sc, i, t0) @ replicate m (sc, i, t1)"
  let ?run = "limiter_run rd vw win quota ?es r"
  note burst = burst_attempts [where win = win and sc = sc and ?t0.0 = t0 and ?t1.0 = t1 and L = L and m = m and i = i,
      OF assms(7,4)]
  have run: "length ?run = length ?es \<and> (\<forall>n < length ?es. judged win quota (take n ?es) (?es ! n) (?run ! n))"
  proof -
    have "plain_scopes ?es" "\<forall>e \<in> set ?es. 0 < win (fst e)"
      using assms(3,4) by (auto simp: plain_scopes_def)
    moreover have "sorted (vw_clock vw r # map (\<lambda>e. snd (snd e)) ?es)"
      using assms(5,6) by (auto simp: sorted_append)
    ultimately show ?thesis
      by (rule fresh_run_judged [OF assms(1,2)])
  qed
  have "admitted_check (?run ! n)" if n: "n < length ?es" for n
  proof -
    have count: "weighted win (take n ?es) sc i (snd (snd (?es ! n))) \<le> int L"
    proof (cases "n < L")
      case True
      then show ?thesis
        using burst(1,3) [of n] n
        by (simp add: weighted_def Let_def nth_append ceiling_le_iff)
    next
      case False
      let ?f = "real_of_int (elapsed_ms t1 (win sc)) / 1000 / real_of_int (win sc)"
      have "?es ! n = (sc, i, t1)" using False n by (simp add: nth_append)
      moreover have "window_start t1 (win sc) - win sc = window_start t0 (win sc)" using assms(7) by simp
      moreover have "min n L = L" "min (n - L) m = n - L" using False n by auto
      ultimately have "weighted win (take n ?es) sc i (snd (snd (?es ! n))) =
          \<lceil>real L * (1 - ?f) + real (n - L) + 1\<rceil>"
        unfolding weighted_def Let_def by (simp only: burst snd_conv)
      moreover have "real L * (1 - ?f) + real (n - L) + 1 \<le> real L"
        using assms(8) n False by (simp add: algebra_simps)
      ultimately show ?thesis by linarith
    qed
    have "fst (?es ! n) = sc" "fst (snd (?es ! n)) = i"
      using n by (auto simp: nth_append)
    then show ?thesis
      using run n count assms(9) by (cases "?es ! n") (auto simp: judged_def admitted_check_def split: sum.splits)
  qed
  then show ?thesis
    using run by (metis in_set_conv_nth)
qed

text \<open>19 requests in 55 seconds, with a limit of 10 per minute.\<close>

theorem boundary_burst_admitted_witness:
  "length (limiter_run local_redis local_view (\<lambda>sc. 60) (\<lambda>sc i. 10)
      (replicate 10 (''key'', ''k'', 59) @ replicate 9 (''key'', ''k'', 114)) empty_server) = 19 \<and>
    list_all admitted_check (limiter_run local_redis local_view (\<lambda>sc. 60) (\<lambda>sc i. 10)
      (replicate 10 (''key'', ''k'', 59) @ replicate 9 (''key'', ''k'', 114)) empty_server)"
proof -
  have len: "length (limiter_run rd vw win quota es r) = length es" for rd :: "local_server redis" and vw win quota es r
    by (induction es arbitrary: r) (auto simp: Let_def split: prod.splits)
  have start: "window_start 114 60 = window_start 59 60 + 60" "elapsed_ms 114 60 = 54000"
    by (simp_all add: window_start_def elapsed_ms_def)
  show ?thesis
    using boundary_burst_admitted [OF local_laws empty_fresh(1), of "''key''" "\<lambda>sc. 60" 59 114 9 10 "\<lambda>sc i. 10" "''k''"]
      start empty_fresh(2) by (simp add: len list_all_iff del: limiter_run.simps replicate.simps)
qed

lemma max_by: "max_by f b xs \<in> set (b # xs) \<and> (\<forall>x \<in> set (b # xs). f x \<le> f (max_by f b xs))"
proof (induction xs arbitrary: b)
  case Nil
  then show ?case by simp
next
  case (Cons x xs)
  show ?case using Cons.IH [of b] Cons.IH [of x] by auto
qed

lemma min_by: "min_by f b xs \<in> set (b # xs) \<and> (\<forall>x \<in> set (b # xs). f (min_by f b xs) \<le> f x)"
proof (induction xs arbitrary: b)
  case Nil
  then show ?case by simp
next
  case (Cons x xs)
  show ?case using Cons.IH [of b] Cons.IH [of x] by auto
qed

lemma script_count:
  assumes "redis_laws rd vw" "0 < w"
  shows "vw_count vw (snd (lua_script rd k p l w e r)) = (vw_count vw r)(k := vw_count vw r k + 1)"
proof -
  obtain c r1 where incr: "rd_incr rd k r = (c, r1)" by (meson surj_pair)
  have "c = vw_count vw r k + 1" "vw_count vw r1 = (vw_count vw r)(k := vw_count vw r k + 1)"
    using assms(1) incr unfolding redis_laws_def incr_law_def by (metis fst_conv, metis snd_conv)
  moreover from this have "vw_count vw (rd_expire rd k (w * 2) r1) = vw_count vw r1" if "c = 1"
    using assms that unfolding redis_laws_def expire_law_def by simp
  ultimately show ?thesis
    by (simp add: lua_script_def Let_def incr)
qed

definition spent :: "connection \<Rightarrow> int" where
  "spent conn = (if conn = LostCall then 0 else 1)"

lemma check_scope_effect:
  assumes "redis_laws rd vw" "0 < w"
  shows "\<exists>x r'. check_scope (Some rd) conn now sc ident l w r = (Inr x, r') \<and>
    (conn \<noteq> Up \<longrightarrow> rr_allowed x) \<and>
    vw_count vw r' = (vw_count vw r)(rate_key sc ident (window_start now w) :=
      vw_count vw r (rate_key sc ident (window_start now w)) + spent conn)"
proof -
  obtain reply r1 where script: "lua_script rd (rate_key sc ident (window_start now w))
      (rate_key sc ident (window_start now w - w)) l w (elapsed_ms now w) r = (reply, r1)"
    by (meson surj_pair)
  have "vw_count vw r1 = (vw_count vw r)(rate_key sc ident (window_start now w) :=
      vw_count vw r (rate_key sc ident (window_start now w)) + 1)"
    using script_count [OF assms, of "rate_key sc ident (window_start now w)" "rate_key sc ident (window_start now w - w)"
        l "elapsed_ms now w" r] script by simp
  then show ?thesis
    using assms(2) script by (cases conn) (auto simp: check_scope_def Let_def always_allowed_def spent_def)
qed

lemma outcome_binding:
  shows "ro_allowed (outcome_of k t g) = (rr_allowed k \<and> rr_allowed t \<and> rr_allowed g)"
    and "ro_binding (outcome_of k t g) \<in> {k, t, g}"
    and "ro_allowed (outcome_of k t g) \<Longrightarrow> x \<in> {k, t, g} \<Longrightarrow> rr_remaining (ro_binding (outcome_of k t g)) \<le> rr_remaining x"
    and "\<not> ro_allowed (outcome_of k t g) \<Longrightarrow> \<not> rr_allowed (ro_binding (outcome_of k t g))"
    and "\<not> ro_allowed (outcome_of k t g) \<Longrightarrow> x \<in> {k, t, g} \<Longrightarrow> \<not> rr_allowed x \<Longrightarrow>
      rr_retry_after x \<le> rr_retry_after (ro_binding (outcome_of k t g))"
  by (auto simp: outcome_of_def split: if_splits)

text \<open>
  The decision over the three scopes: the request passes iff every scope passes; a refusal reports a
  refusing scope with the longest wait, an admission one with the fewest requests left. Every scope
  whose call reaches the server counts the request, also when another scope refuses it; a scope whose
  call fails counts as passing.
\<close>

theorem check_all_decision:
  assumes "redis_laws rd vw" "0 < rc_key_window cfg" "0 < rc_team_window cfg" "0 < rc_org_window cfg"
  shows "\<exists>res r'. check_all (Some rd) env key team org cfg r = (Inr res, r') \<and>
    ro_allowed res = (\<forall>x \<in> {ro_key res, ro_team res, ro_org res}. rr_allowed x) \<and>
    ro_binding res \<in> {ro_key res, ro_team res, ro_org res} \<and>
    (if ro_allowed res then \<forall>x \<in> {ro_key res, ro_team res, ro_org res}. rr_remaining (ro_binding res) \<le> rr_remaining x
     else \<not> rr_allowed (ro_binding res) \<and>
       (\<forall>x \<in> {ro_key res, ro_team res, ro_org res}. \<not> rr_allowed x \<longrightarrow> rr_retry_after x \<le> rr_retry_after (ro_binding res))) \<and>
    ((\<forall>sc \<in> {''key'', ''team'', ''org''}. re_conn env sc \<noteq> Up) \<longrightarrow> ro_allowed res) \<and>
    (\<forall>(sc, ident, w) \<in> {(''key'', key, rc_key_window cfg), (''team'', team, rc_team_window cfg), (''org'', org, rc_org_window cfg)}.
      vw_count vw r' (rate_key sc ident (window_start (re_now env sc) w)) =
      vw_count vw r (rate_key sc ident (window_start (re_now env sc) w)) + spent (re_conn env sc))"
proof -
  obtain k r1 where k: "check_scope (Some rd) (re_conn env ''key'') (re_now env ''key'') ''key'' key (rc_key_limit cfg)
      (rc_key_window cfg) r = (Inr k, r1)" "re_conn env ''key'' \<noteq> Up \<longrightarrow> rr_allowed k"
    "vw_count vw r1 = (vw_count vw r)(rate_key ''key'' key (window_start (re_now env ''key'') (rc_key_window cfg)) :=
      vw_count vw r (rate_key ''key'' key (window_start (re_now env ''key'') (rc_key_window cfg))) + spent (re_conn env ''key''))"
    using check_scope_effect [OF assms(1,2)] by blast
  obtain t r2 where t: "check_scope (Some rd) (re_conn env ''team'') (re_now env ''team'') ''team'' team (rc_team_limit cfg)
      (rc_team_window cfg) r1 = (Inr t, r2)" "re_conn env ''team'' \<noteq> Up \<longrightarrow> rr_allowed t"
    "vw_count vw r2 = (vw_count vw r1)(rate_key ''team'' team (window_start (re_now env ''team'') (rc_team_window cfg)) :=
      vw_count vw r1 (rate_key ''team'' team (window_start (re_now env ''team'') (rc_team_window cfg))) + spent (re_conn env ''team''))"
    using check_scope_effect [OF assms(1,3)] by blast
  obtain g r3 where g: "check_scope (Some rd) (re_conn env ''org'') (re_now env ''org'') ''org'' org (rc_org_limit cfg)
      (rc_org_window cfg) r2 = (Inr g, r3)" "re_conn env ''org'' \<noteq> Up \<longrightarrow> rr_allowed g"
    "vw_count vw r3 = (vw_count vw r2)(rate_key ''org'' org (window_start (re_now env ''org'') (rc_org_window cfg)) :=
      vw_count vw r2 (rate_key ''org'' org (window_start (re_now env ''org'') (rc_org_window cfg))) + spent (re_conn env ''org''))"
    using check_scope_effect [OF assms(1,4)] by blast
  let ?o = "outcome_of k t g"
  have parts: "ro_key ?o = k" "ro_team ?o = t" "ro_org ?o = g"
    by (simp_all add: outcome_of_def)
  have apart: "rate_key ''key'' i st \<noteq> rate_key ''team'' i' st'" "rate_key ''key'' i st \<noteq> rate_key ''org'' i' st'"
    "rate_key ''team'' i st \<noteq> rate_key ''org'' i' st'" for i i' st st'
    by (auto dest: rate_key_inj)
  have "check_all (Some rd) env key team org cfg r = (Inr ?o, r3)"
    by (simp add: check_all_def k(1) t(1) g(1))
  moreover have "if ro_allowed ?o then \<forall>x \<in> {k, t, g}. rr_remaining (ro_binding ?o) \<le> rr_remaining x
     else \<not> rr_allowed (ro_binding ?o) \<and> (\<forall>x \<in> {k, t, g}. \<not> rr_allowed x \<longrightarrow> rr_retry_after x \<le> rr_retry_after (ro_binding ?o))"
    by (cases "ro_allowed ?o") (use outcome_binding(3-5) [of k t g] in \<open>simp_all only: if_True if_False\<close>, blast+)
  moreover have "(\<forall>sc \<in> {''key'', ''team'', ''org''}. re_conn env sc \<noteq> Up) \<longrightarrow> ro_allowed ?o"
    using k(2) t(2) g(2) by (simp add: outcome_binding(1))
  moreover have "\<forall>(sc, ident, w) \<in> {(''key'', key, rc_key_window cfg), (''team'', team, rc_team_window cfg), (''org'', org, rc_org_window cfg)}.
      vw_count vw r3 (rate_key sc ident (window_start (re_now env sc) w)) =
      vw_count vw r (rate_key sc ident (window_start (re_now env sc) w)) + spent (re_conn env sc)"
    using apart apart [symmetric] by (simp add: k(3) t(3) g(3))
  ultimately show ?thesis
    using outcome_binding(1,2) [of k t g] parts by (intro exI [of _ ?o] exI [of _ r3]) simp
qed

definition minute_config :: rate_config where
  "minute_config = \<lparr>rc_key_limit = 100, rc_key_window = 60, rc_team_limit = 500, rc_team_window = 60,
     rc_org_limit = 2000, rc_org_window = 60\<rparr>"

theorem check_all_decision_witness:
  "\<exists>res r'. check_all (Some local_redis) \<lparr>re_conn = (\<lambda>sc. LostReply), re_now = (\<lambda>sc. 5)\<rparr> ''k'' ''t'' ''o'' minute_config
      empty_server = (Inr res, r') \<and> ro_allowed res \<and> vw_count local_view r' (rate_key ''team'' ''t'' 0) = 1"
  using check_all_decision [OF local_laws, of minute_config "\<lparr>re_conn = (\<lambda>sc. LostReply), re_now = (\<lambda>sc. 5)\<rparr>"
      "''k''" "''t''" "''o''" empty_server] empty_fresh(1)
  by (auto simp: minute_config_def spent_def window_start_def fresh_server_def)

end
