(* ===== verification/ChatService.thy ===== *)
theory ChatService
  imports Executor TeamLimits Experiment SemanticCache RateLimit
begin

text \<open>
  The chat pipeline (\<open>app/services/chat_service.py\<close>): rate limiting, routing, cache lookup, experiment
  assignment, budget reservation with downgrade, execution, reconciliation or release, metadata and
  cache write, in the order of \<open>ChatService.complete\<close>. The injected services are the fields of \<open>deps\<close>;
  what a request reads and changes is the record \<open>gateway\<close>, the part of the database and of Redis it
  touches, its session's budget object, and the in-process state of the routing and reliability layers.
  Other requests may change the budget table while the provider is called (\<open>dp_db_others\<close>).
\<close>

record settings =
  se_rate_limit_enabled :: bool
  se_rate :: rate_config
  se_budget_enabled :: bool
  se_warning_threshold :: int
  se_expose_remaining :: bool

record 'r deps =
  dp_world :: world
  dp_executor :: executor
  dp_limiter :: "'r redis option option"
  dp_rate_env :: rate_env
  dp_team_limits :: "(exn + limits_table) option"
  dp_budget_service :: bool
  dp_cost_calculator :: bool
  dp_keep :: "budget \<Rightarrow> budget \<Rightarrow> budget"
  dp_reread :: "budget \<Rightarrow> exn + budget"
  dp_times :: times
  dp_db_others :: "budget_table \<Rightarrow> budget_table"
  dp_cache :: "semantic_cache option"
  dp_answers :: cache_answers
  dp_config_digest :: "cache_config \<Rightarrow> string"
  dp_sha256 :: "string \<Rightarrow> int list"
  dp_settings :: settings

record 'r gateway =
  gw_redis :: 'r
  gw_budgets :: budget_table
  gw_held :: "budget option"
  gw_exec :: exec_state
  gw_cache_writes :: "redis_command list"

section \<open>1. Rate limiting\<close>

definition team_rpm :: "'r deps \<Rightarrow> request_context \<Rightarrow> int" where
  "team_rpm d ctx = (let default = rc_team_limit (se_rate (dp_settings d)) in
     case dp_team_limits d of
       None \<Rightarrow> default
     | Some db \<Rightarrow> if ctx_team_id ctx = [] then default
         else (case db of
             Inl e \<Rightarrow> default
           | Inr tbl \<Rightarrow> (case limits_get (ctx_team_id ctx) tbl of
               None \<Rightarrow> default
             | Some row \<Rightarrow> or_else (requests_per_minute row) default)))"

definition rate_limit_step ::
  "'r deps \<Rightarrow> request_context option \<Rightarrow> 'r \<Rightarrow> (exn + int option) \<times> 'r" where
  "rate_limit_step d context r = (case (context, dp_limiter d) of
     (Some ctx, Some redis) \<Rightarrow>
       if \<not> se_rate_limit_enabled (dp_settings d) then (Inr None, r)
       else (case check_all redis (dp_rate_env d) (ctx_api_key_id ctx) (ctx_team_id ctx) (ctx_organization_id ctx)
               ((se_rate (dp_settings d))\<lparr>rc_team_limit := team_rpm d ctx\<rparr>) r of
           (Inl e, r') \<Rightarrow> (Inl e, r')
         | (Inr out, r') \<Rightarrow>
             if \<not> ro_allowed out then
               (Inl (RateLimitExceeded ''Rate limit exceeded. Please retry after the window resets.''
                  (rr_retry_after (ro_binding out)) (rr_scope (ro_binding out))), r')
             else (Inr (Some (rr_remaining (ro_binding out))), r'))
   | _ \<Rightarrow> (Inr None, r))"

section \<open>2. Routing path\<close>

definition is_manual :: "chat_request \<Rightarrow> bool" where
  "is_manual q = (q_routing_mode q = Some ''manual'' \<or>
     (truthy (q_provider q) \<and> lower (q_model q) \<noteq> ''auto'' \<and> q_routing_mode q = None \<and> required_caps q = []))"

definition choose_target ::
  "'r deps \<Rightarrow> chat_request \<Rightarrow> exec_state \<Rightarrow> (exn + string \<times> string \<times> string) \<times> exec_state" where
  "choose_target d q x =
     (if is_manual q then
        (if \<not> truthy (q_provider q) \<or> lower (q_model q) = ''auto''
         then (Inl (Exn InvalidManualRoutingErrorC
           ''Manual routing mode requires both a valid 'provider' and a concrete 'model' name.''), x)
         else (Inr (the (q_provider q), q_model q, ''manual''), x))
      else (let n = x_builds x; x' = suspend (dp_world d) (x\<lparr>x_builds := n + 1\<rparr>) in
        (case route (w_probe (dp_world d) n) (engine_of (dp_executor d) (x_shared x')) q of
           Inl e \<Rightarrow> (Inl e, x')
         | Inr dec \<Rightarrow> (Inr (rd_provider dec, rd_model dec, rd_routing_mode dec), x'))))"

section \<open>3. Cache lookup\<close>

definition cache_step ::
  "'r deps \<Rightarrow> resolved_policy \<Rightarrow> chat_request \<Rightarrow> request_context option \<Rightarrow> chat_response option" where
  "cache_step d policy q context = (case (dp_cache d, context) of
     (Some c, Some ctx) \<Rightarrow>
       if rp_cache policy then cache_lookup (dp_config_digest d) c (dp_answers d) q ctx else None
   | _ \<Rightarrow> None)"

section \<open>Experiment assignment\<close>

definition assigned_arm ::
  "'r deps \<Rightarrow> resolved_policy \<Rightarrow> string \<Rightarrow> request_context option \<Rightarrow> experiment_assignment option" where
  "assigned_arm d policy rid context = (case context of None \<Rightarrow> None
     | Some ctx \<Rightarrow> assign (dp_sha256 d) (ctx_team_id ctx) rid (rp_experiment policy))"

definition target_of :: "experiment_assignment option \<Rightarrow> string \<times> string \<Rightarrow> string \<times> string" where
  "target_of assignment routed =
     (case assignment of None \<Rightarrow> routed | Some a \<Rightarrow> (as_provider a, as_model a))"

section \<open>4. Budget\<close>

definition default_scoring :: policy_weights where
  "default_scoring = weights (30/100) (30/100) (20/100) (20/100)"

text \<open>The capability test of the downgrade path\<close>

definition covers :: "string list \<Rightarrow> routing_candidate \<Rightarrow> bool" where
  "covers required c = list_all (\<lambda>r. List.member (map lower (rc_capabilities c)) (lower r)) required"

definition affordable ::
  "model_catalog \<Rightarrow> chat_request \<Rightarrow> string \<Rightarrow> string \<Rightarrow> real \<Rightarrow> routing_candidate \<Rightarrow> bool" where
  "affordable cat q p m remaining c =
     (rc_is_healthy c \<and> \<not> (rc_provider c = p \<and> rc_model c = m) \<and> covers (required_caps q) c \<and>
      estimate_cost cat (rc_provider c) (rc_model c) q \<le> remaining)"

text \<open>The object a session answers a SELECT with, for the row found\<close>

definition session_object :: "(budget \<Rightarrow> budget \<Rightarrow> budget) \<Rightarrow> budget option \<Rightarrow> budget \<Rightarrow> budget" where
  "session_object keep held row = (case held of
     Some h \<Rightarrow> if bg_id h = bg_id row then keep h row else row | None \<Rightarrow> row)"

definition attempt_budget_downgrade ::
  "'r deps \<Rightarrow> chat_request \<Rightarrow> request_context \<Rightarrow> string \<Rightarrow> string \<Rightarrow> real \<Rightarrow> 'r gateway \<Rightarrow>
   (exn + string \<times> string \<times> real \<times> bool) \<times> 'r gateway" where
  "attempt_budget_downgrade d q ctx p m est g =
     (case get_budget (ctx_team_id ctx) (gw_budgets g) of
        None \<Rightarrow> (Inr (p, m, est, False), g)
      | Some row \<Rightarrow>
         (let b = session_object (dp_keep d) (gw_held g) row; g = g\<lparr>gw_held := Some b\<rparr>;
              remaining = remaining_amount b in
          if \<not> bg_enabled b then (Inr (p, m, est, False), g)
          else if est \<le> remaining then (Inr (p, m, est, False), g)
          else (let (cs, x) = build (dp_world d) (dp_executor d) (gw_exec g);
                    g = g\<lparr>gw_exec := x\<rparr>; cat = s_catalog (x_shared x);
                    good = filter (affordable cat q p m remaining) cs
                in if good = [] then
                     (Inl (BudgetExceeded (''Budget exhausted and no cheaper compatible provider found. Remaining: $'' @
                        fixed6 remaining @ ''.'') (Some (ctx_team_id ctx)) remaining), g)
                   else (let best = sc_candidate (hd (score_candidates default_scoring good)) in
                     (Inr (rc_provider best, rc_model best,
                        estimate_cost cat (rc_provider best) (rc_model best) q, True), g)))))"

record reservation =
  rs_provider :: string
  rs_model :: string
  rs_estimate :: real
  rs_warning :: bool
  rs_downgraded :: bool

definition reserve_step ::
  "'r deps \<Rightarrow> resolved_policy \<Rightarrow> chat_request \<Rightarrow> request_context option \<Rightarrow> string \<Rightarrow> string \<Rightarrow> 'r gateway \<Rightarrow>
   (exn + reservation) \<times> 'r gateway" where
  "reserve_step d policy q context p m g = (case context of
     Some ctx \<Rightarrow>
       if \<not> (dp_budget_service d \<and> dp_cost_calculator d \<and> se_budget_enabled (dp_settings d))
       then (Inr \<lparr>rs_provider = p, rs_model = m, rs_estimate = 0, rs_warning = False, rs_downgraded = False\<rparr>, g)
       else (let est = estimate_cost (s_catalog (x_shared (gw_exec g))) p m q;
                 (res, g) = (if rp_budget policy = ''DOWNGRADE'' then attempt_budget_downgrade d q ctx p m est g
                   else (Inr (p, m, est, False), g))
             in (case res of
                 Inl e \<Rightarrow> (Inl e, g)
               | Inr (p, m, est, down) \<Rightarrow>
                  (case check_and_reserve (dp_keep d) (dp_reread d) (dp_times d) (se_warning_threshold (dp_settings d))
                          (ctx_team_id ctx) est (gw_held g) (gw_budgets g) of
                     (Inl e, held, tbl) \<Rightarrow> (Inl e, g\<lparr>gw_held := held, gw_budgets := tbl\<rparr>)
                   | (Inr (b, warning), held, tbl) \<Rightarrow>
                       (Inr \<lparr>rs_provider = p, rs_model = m, rs_estimate = est, rs_warning = warning, rs_downgraded = down\<rparr>,
                        g\<lparr>gw_held := held, gw_budgets := tbl\<rparr>))))
   | None \<Rightarrow> (Inr \<lparr>rs_provider = p, rs_model = m, rs_estimate = 0, rs_warning = False, rs_downgraded = False\<rparr>, g))"

section \<open>5. Execution\<close>

definition exec_request :: "resolved_policy \<Rightarrow> chat_request \<Rightarrow> chat_request" where
  "exec_request policy q =
     (if \<not> rp_fallback policy \<and> q_failover_enabled q \<noteq> Some False then q\<lparr>q_failover_enabled := Some False\<rparr> else q)"

definition release_step :: "'r deps \<Rightarrow> request_context option \<Rightarrow> real \<Rightarrow> 'r gateway \<Rightarrow> 'r gateway" where
  "release_step d context est g = (case context of
     None \<Rightarrow> g
   | Some ctx \<Rightarrow> if dp_budget_service d \<and> est > 0
       then (case release_reservation (dp_keep d) (ctx_team_id ctx) est (gw_held g) (gw_budgets g) of
           (held, tbl) \<Rightarrow> g\<lparr>gw_held := held, gw_budgets := tbl\<rparr>)
       else g)"

section \<open>6. Cost and reconciliation\<close>

text \<open>\<open>a or b\<close> of a name\<close>

definition or_name :: "string option \<Rightarrow> string \<Rightarrow> string" where
  "or_name v b = (case v of None \<Rightarrow> b | Some s \<Rightarrow> if s = [] then b else s)"

definition settle_step ::
  "'r deps \<Rightarrow> request_context option \<Rightarrow> reservation \<Rightarrow> chat_response \<Rightarrow> 'r gateway \<Rightarrow> (real \<times> real option) \<times> 'r gateway" where
  "settle_step d context rs r g = (case context of
     Some ctx \<Rightarrow>
       if dp_budget_service d \<and> dp_cost_calculator d \<and> rs_estimate rs \<ge> 0 then
         (let actual = calculate_actual_cost (s_catalog (x_shared (gw_exec g)))
                (or_name (m_selected_provider (p_metadata r)) (rs_provider rs))
                (or_name (m_selected_model (p_metadata r)) (rs_model rs)) (Some (p_usage r)) (rs_estimate rs)
          in (case reconcile (dp_keep d) (ctx_team_id ctx) (rs_estimate rs) actual (gw_held g) (gw_budgets g) of
              (b, held, tbl) \<Rightarrow>
                ((actual, if se_expose_remaining (dp_settings d) then map_option remaining_amount b else None),
                 g\<lparr>gw_held := held, gw_budgets := tbl\<rparr>)))
       else ((0, None), g)
   | None \<Rightarrow> ((0, None), g))"

text \<open>\<open>round(x, 8) if x else None\<close>\<close>

definition cost_field :: "real \<Rightarrow> real option" where
  "cost_field x = (if x = 0 then None else Some (py_round x 8))"

definition attach_costs ::
  "reservation \<Rightarrow> real \<Rightarrow> real option \<Rightarrow> int option \<Rightarrow> experiment_assignment option \<Rightarrow> chat_response \<Rightarrow> chat_response" where
  "attach_costs rs actual remaining rate_remaining assignment r =
     (let meta = (p_metadata r)\<lparr>m_estimated_cost := cost_field (rs_estimate rs), m_actual_cost := cost_field actual,
            m_remaining_budget := remaining, m_budget_warning := rs_warning rs,
            m_budget_downgraded := rs_downgraded rs, m_rate_limit_remaining := rate_remaining\<rparr>
      in r\<lparr>p_metadata := (case assignment of
          None \<Rightarrow> meta
        | Some a \<Rightarrow> meta\<lparr>m_experiment_id := Some (as_experiment_id a),
            m_experiment_version := Some (as_experiment_version a), m_experiment_arm := Some (as_arm_name a)\<rparr>)\<rparr>)"

definition write_cache ::
  "'r deps \<Rightarrow> chat_request \<Rightarrow> request_context option \<Rightarrow> chat_response \<Rightarrow> 'r gateway \<Rightarrow> 'r gateway" where
  "write_cache d q context r g = (case (dp_cache d, context) of
     (Some c, Some ctx) \<Rightarrow>
       g\<lparr>gw_cache_writes := gw_cache_writes g @ cache_store (dp_config_digest d) c (dp_answers d) q ctx r\<rparr>
   | _ \<Rightarrow> g)"

section \<open>The pipeline\<close>

text \<open>Execution and what follows it, for a target that has been reserved.\<close>

definition run_reserved ::
  "'r deps \<Rightarrow> resolved_policy \<Rightarrow> chat_request \<Rightarrow> string \<Rightarrow> request_context option \<Rightarrow> string \<Rightarrow> int option \<Rightarrow>
   experiment_assignment option \<Rightarrow> reservation \<Rightarrow> 'r gateway \<Rightarrow> (exn + chat_response) \<times> 'r gateway" where
  "run_reserved d policy q rid context mode rate_remaining assignment rs g =
     (let (res, cx, x) = execute (dp_world d) (dp_executor d) (exec_request policy q) rid
            (rs_provider rs) (rs_model rs) (Some mode) (gw_exec g);
          g = g\<lparr>gw_exec := x, gw_budgets := dp_db_others d (gw_budgets g)\<rparr>
      in case res of
        Inl e \<Rightarrow> (Inl e, release_step d context (rs_estimate rs) g)
      | Inr r \<Rightarrow>
         (let ((actual, remaining), g) = settle_step d context rs r g;
              r = attach_costs rs actual remaining rate_remaining assignment r
          in (Inr r, write_cache d q context r g)))"

definition complete ::
  "'r deps \<Rightarrow> resolved_policy option \<Rightarrow> chat_request \<Rightarrow> string \<Rightarrow> request_context option \<Rightarrow> 'r gateway \<Rightarrow>
   (exn + chat_response) \<times> 'r gateway" where
  "complete d resolved q rid context g =
     (let policy = or_else resolved global_default_policy in
      case rate_limit_step d context (gw_redis g) of
        (Inl e, r) \<Rightarrow> (Inl e, g\<lparr>gw_redis := r\<rparr>)
      | (Inr rate_remaining, r) \<Rightarrow>
      (let g = g\<lparr>gw_redis := r\<rparr> in
       case choose_target d q (gw_exec g) of
         (Inl e, x) \<Rightarrow> (Inl e, g\<lparr>gw_exec := x\<rparr>)
       | (Inr (p, m, mode), x) \<Rightarrow>
       (let g = g\<lparr>gw_exec := x\<rparr> in
        case cache_step d policy q context of
          Some hit \<Rightarrow> (Inr (hit\<lparr>p_metadata := (p_metadata hit)\<lparr>m_rate_limit_remaining := rate_remaining,
              m_request_id := rid\<rparr>\<rparr>), g)
        | None \<Rightarrow>
        (let assignment = assigned_arm d policy rid context; (p, m) = target_of assignment (p, m)
         in case reserve_step d policy q context p m g of
           (Inl e, g) \<Rightarrow> (Inl e, g)
         | (Inr rs, g) \<Rightarrow> run_reserved d policy q rid context mode rate_remaining assignment rs g))))"

section \<open>Facts\<close>

lemma cache_step_None [simp]: "cache_step d policy q context = None"
  by (simp add: cache_step_def lookup_none split: option.splits)

lemma complete_eq:
  "complete d (Some policy) q rid context g =
     (case rate_limit_step d context (gw_redis g) of
        (Inl e, r) \<Rightarrow> (Inl e, g\<lparr>gw_redis := r\<rparr>)
      | (Inr left, r) \<Rightarrow> (case choose_target d q (gw_exec g) of
          (Inl e, x) \<Rightarrow> (Inl e, g\<lparr>gw_redis := r, gw_exec := x\<rparr>)
        | (Inr (p, m, mode), x) \<Rightarrow> (case target_of (assigned_arm d policy rid context) (p, m) of (p', m') \<Rightarrow>
            (case reserve_step d policy q context p' m' (g\<lparr>gw_redis := r, gw_exec := x\<rparr>) of
               (Inl e, g) \<Rightarrow> (Inl e, g)
             | (Inr rs, g) \<Rightarrow> run_reserved d policy q rid context mode left (assigned_arm d policy rid context) rs g))))"
proof -
  obtain a r where rate: "rate_limit_step d context (gw_redis g) = (a, r)" by (metis prod.exhaust)
  obtain b x where target: "choose_target d q (gw_exec g) = (b, x)" by (metis prod.exhaust)
  then show ?thesis
    using rate by (cases a; cases b) (simp_all add: complete_def or_else_def Let_def split: prod.split)
qed

lemma complete_none: "complete d None q rid context g = complete d (Some global_default_policy) q rid context g"
  by (simp add: complete_def or_else_def)

text \<open>Which parts of the state each stage touches\<close>

lemma downgrade_frame [frame]:
  assumes "attempt_budget_downgrade d q ctx p m est g = (res, g')"
  shows "gw_budgets g' = gw_budgets g \<and> gw_redis g' = gw_redis g \<and> gw_cache_writes g' = gw_cache_writes g"
  using assms by (auto simp: attempt_budget_downgrade_def Let_def split: option.splits if_splits prod.splits)

lemma reserve_frame [frame]:
  assumes "reserve_step d policy q context p m g = (res, g')"
  shows "gw_redis g' = gw_redis g \<and> gw_cache_writes g' = gw_cache_writes g"
  using assms
  by (auto simp: reserve_step_def Let_def dest!: downgrade_frame
      split: option.splits if_splits prod.splits sum.splits)

lemma release_frame [frame]:
  "gw_redis (release_step d context est g) = gw_redis g" "gw_exec (release_step d context est g) = gw_exec g"
  "gw_cache_writes (release_step d context est g) = gw_cache_writes g"
  by (simp_all add: release_step_def split: option.splits prod.splits)

lemma settle_frame [frame]:
  assumes "settle_step d context rs r g = (res, g')"
  shows "gw_redis g' = gw_redis g \<and> gw_exec g' = gw_exec g \<and> gw_cache_writes g' = gw_cache_writes g"
  using assms by (auto simp: settle_step_def Let_def split: option.splits if_splits prod.splits)

section \<open>The policy fields and the cache that decide nothing\<close>

lemmas branches = option.case_cong sum.case_cong prod.case_cong if_cong

lemma without_cache [simp]:
  "rate_limit_step (d\<lparr>dp_cache := sc\<rparr>) = rate_limit_step d" "choose_target (d\<lparr>dp_cache := sc\<rparr>) = choose_target d"
  "assigned_arm (d\<lparr>dp_cache := sc\<rparr>) = assigned_arm d" "reserve_step (d\<lparr>dp_cache := sc\<rparr>) = reserve_step d"
  "release_step (d\<lparr>dp_cache := sc\<rparr>) = release_step d" "settle_step (d\<lparr>dp_cache := sc\<rparr>) = settle_step d"
  by (simp_all add: fun_eq_iff rate_limit_step_def team_rpm_def choose_target_def assigned_arm_def
      reserve_step_def attempt_budget_downgrade_def release_step_def settle_step_def
      cong: branches)

lemma run_without_cache:
  "fst (run_reserved (d\<lparr>dp_cache := sc\<rparr>) policy q rid context mode left arm rs g) =
   fst (run_reserved d policy q rid context mode left arm rs g)"
  by (simp add: run_reserved_def split_def Let_def split: sum.split)

text \<open>
  C19: two sections of a team policy and the semantic cache decide nothing about a chat request: whatever
  \<open>policy.routing.strategy\<close> and \<open>policy.cache.enabled\<close> say, the request ends in the same result and
  leaves the same state, cache writes included; and with any cache, or none, the result is the same.
\<close>

theorem strategy_and_cache_inert:
  "complete d (Some (policy\<lparr>rp_routing := strategy, rp_cache := enabled\<rparr>)) q rid context g =
     complete d (Some policy) q rid context g \<and>
   fst (complete (d\<lparr>dp_cache := cache\<rparr>) (Some policy) q rid context g) =
     fst (complete d (Some policy) q rid context g)"
proof
  show "complete d (Some (policy\<lparr>rp_routing := strategy, rp_cache := enabled\<rparr>)) q rid context g =
     complete d (Some policy) q rid context g"
    by (simp add: complete_eq assigned_arm_def reserve_step_def run_reserved_def exec_request_def cong: branches)
next
  show "fst (complete (d\<lparr>dp_cache := cache\<rparr>) (Some policy) q rid context g) =
     fst (complete d (Some policy) q rid context g)"
    by (simp add: complete_eq run_without_cache split: prod.split sum.split cong: branches)
qed

section \<open>What a request does to its team's budget\<close>

text \<open>
  A row within its period, with a known policy and nothing negative, and a session that has loaded
  nothing about it but what the row says.
\<close>

definition steady_row :: "times \<Rightarrow> budget \<Rightarrow> bool" where
  "steady_row tm b = (\<not> is_period_expired (tm_check tm) b \<and> 0 \<le> current_usage b \<and> 0 \<le> reserved b \<and>
     bg_policy b \<in> set budget_policies)"

definition faithful_session :: "'r deps \<Rightarrow> 'r gateway \<Rightarrow> string \<Rightarrow> bool" where
  "faithful_session d g team = ((\<forall>b. dp_keep d b b = b) \<and>
     (gw_held g = None \<or> gw_held g = gw_budgets g team))"

text \<open>The row with an amount added to what is reserved, when the budget is enabled\<close>

definition holding :: "real \<Rightarrow> budget \<Rightarrow> budget" where
  "holding est b = (if bg_enabled b then b\<lparr>reserved := reserved b + est\<rparr> else b)"

lemma lock_faithful:
  assumes "\<forall>b. keep b b = b" "held = None \<or> held = tbl team"
  shows "lock_row keep held team tbl = (case tbl team of None \<Rightarrow> None | Some b \<Rightarrow> if bg_enabled b then Some b else None)"
  using assms by (auto simp: lock_row_def split: option.splits)

lemma reserve_faithful:
  assumes "check_and_reserve keep reread tm thr team est held tbl = (Inr res, held', tbl')"
    and "\<forall>b. keep b b = b" "held = None \<or> held = tbl team" "\<forall>b. tbl team = Some b \<longrightarrow> steady_row tm b"
  shows "tbl' = tbl(team := map_option (holding est) (tbl team)) \<and> (held' = None \<or> held' = tbl' team)"
proof -
  have "upper ''BLOCK'' = ''BLOCK'' \<and> upper ''WARN'' = ''WARN'' \<and> upper ''DOWNGRADE'' = ''DOWNGRADE''"
    by code_simp
  then show ?thesis
    using assms
    by (auto simp: check_and_reserve_def lock_faithful steady_row_def apply_rollover_def holding_def
        store_def flush_def written_def budget_policies_def Let_def split: option.splits if_splits)
qed

lemma reserve_rejected:
  assumes "check_and_reserve keep reread tm thr team est held tbl = (Inl e, held', tbl')"
    and "\<forall>b. keep b b = b" "held = None \<or> held = tbl team" "\<forall>b. tbl team = Some b \<longrightarrow> steady_row tm b"
  shows "tbl' = tbl"
  using assms
  by (auto simp: check_and_reserve_def lock_faithful steady_row_def apply_rollover_def Let_def
      split: option.splits if_splits)

text \<open>Prices stay well formed, so no estimate is negative.\<close>

definition priced :: "'r deps \<Rightarrow> exec_state \<Rightarrow> bool" where
  "priced d x = (wf_catalog (s_catalog (x_shared x)) \<and>
     (\<forall>n sh. wf_catalog (s_catalog sh) \<longrightarrow> wf_catalog (s_catalog (w_others (dp_world d) n sh))))"

lemma priced_suspend: "priced d x \<Longrightarrow> priced d (suspend (dp_world d) (x\<lparr>x_builds := n\<rparr>))"
  by (simp add: priced_def suspend_def)

lemma priced_choose: "priced d x \<Longrightarrow> choose_target d q x = (res, x') \<Longrightarrow> priced d x'"
  using priced_suspend [of d x]
  by (auto simp: choose_target_def Let_def split: if_splits sum.splits)

lemma downgrade_effect:
  assumes "attempt_budget_downgrade d q ctx p m est g = (res, g')" "faithful_session d g (ctx_team_id ctx)"
    and "wf_request q" "priced d (gw_exec g)" "0 \<le> est"
  shows "faithful_session d g' (ctx_team_id ctx) \<and> (\<forall>p' m' est' down. res = Inr (p', m', est', down) \<longrightarrow> 0 \<le> est')"
proof -
  have keep: "session_object (dp_keep d) (gw_held g) row = row" if "gw_budgets g (ctx_team_id ctx) = Some row" for row
    using assms(2) that by (auto simp: session_object_def faithful_session_def split: option.splits)
  have wf: "wf_catalog (s_catalog (x_shared (snd (build (dp_world d) (dp_executor d) (gw_exec g)))))"
    using priced_suspend [OF assms(4)] by (simp add: build_def Let_def priced_def)
  show ?thesis
    using assms(1,2,5) keep estimate_nonneg [OF wf assms(3)]
    by (auto simp: attempt_budget_downgrade_def get_budget_def faithful_session_def split_def Let_def
        split: option.splits if_splits)
qed

lemma holding_0 [simp]: "map_option (holding 0) v = v"
  by (cases v) (simp_all add: holding_def)

lemma reserve_effect:
  assumes "reserve_step d policy q (Some ctx) p m g = (res, g')" "faithful_session d g (ctx_team_id ctx)"
    and "wf_request q" "priced d (gw_exec g)"
    and "\<forall>b. gw_budgets g (ctx_team_id ctx) = Some b \<longrightarrow> steady_row (dp_times d) b"
  shows "case res of Inl e \<Rightarrow> gw_budgets g' = gw_budgets g
    | Inr rs \<Rightarrow> 0 \<le> rs_estimate rs \<and> faithful_session d g' (ctx_team_id ctx) \<and> gw_budgets g' =
        (gw_budgets g)(ctx_team_id ctx := map_option (holding (rs_estimate rs)) (gw_budgets g (ctx_team_id ctx)))"
proof (cases "dp_budget_service d \<and> dp_cost_calculator d \<and> se_budget_enabled (dp_settings d)")
  case False
  then show ?thesis
    using assms(1,2) by (auto simp: reserve_step_def)
next
  case True
  let ?est = "estimate_cost (s_catalog (x_shared (gw_exec g))) p m q"
  let ?step = "if rp_budget policy = ''DOWNGRADE'' then attempt_budget_downgrade d q ctx p m ?est g
    else (Inr (p, m, ?est, False), g)"
  obtain plan g1 where step: "?step = (plan, g1)" by (metis prod.exhaust)
  have est: "0 \<le> ?est"
    using assms(3,4) by (simp add: priced_def estimate_nonneg)
  have plan: "faithful_session d g1 (ctx_team_id ctx)" "gw_budgets g1 = gw_budgets g"
    "\<forall>p' m' est' down. plan = Inr (p', m', est', down) \<longrightarrow> 0 \<le> est'"
    using step downgrade_effect [OF _ assms(2,3,4) est, of p m plan g1] downgrade_frame [of d q ctx p m ?est g plan g1]
      assms(2) est by (auto split: if_splits)
  show ?thesis
  proof (cases plan)
    case (Inl e)
    then show ?thesis
      using assms(1) True step plan by (auto simp: reserve_step_def Let_def)
  next
    case (Inr pl)
    obtain p' m' est' down where pl: "pl = (p', m', est', down)" by (metis prod_cases4)
    obtain r held tbl where cr: "check_and_reserve (dp_keep d) (dp_reread d) (dp_times d)
        (se_warning_threshold (dp_settings d)) (ctx_team_id ctx) est' (gw_held g1) (gw_budgets g) = (r, held, tbl)"
      by (metis prod_cases3)
    have keep: "\<forall>b. dp_keep d b b = b" "gw_held g1 = None \<or> gw_held g1 = gw_budgets g (ctx_team_id ctx)"
      using plan by (auto simp: faithful_session_def)
    show ?thesis
    proof (cases r)
      case (Inl e)
      then show ?thesis
        using assms(1) True step plan(2) reserve_rejected [OF cr [unfolded Inl] keep assms(5)] cr
        by (auto simp: reserve_step_def Let_def \<open>plan = Inr pl\<close> pl)
    next
      case (Inr res)
      then show ?thesis
        using assms(1) True step plan(2,3) reserve_faithful [OF cr [unfolded Inr] keep assms(5)] cr keep(1)
        by (auto simp: reserve_step_def Let_def \<open>plan = Inr pl\<close> pl faithful_session_def split: prod.splits)
    qed
  qed
qed

text \<open>Releasing, or settling, what is held for the request\<close>

definition charging :: "real \<Rightarrow> budget \<Rightarrow> budget" where
  "charging cost b = (if bg_enabled b then b\<lparr>current_usage := max 0 (current_usage b + cost)\<rparr> else b)"

lemma release_effect:
  assumes "faithful_session d g (ctx_team_id ctx)" "gw_budgets g (ctx_team_id ctx) = map_option (holding est) v"
    and "dp_budget_service d" "0 \<le> est" "\<forall>b. v = Some b \<longrightarrow> 0 \<le> reserved b"
  shows "gw_budgets (release_step d (Some ctx) est g) (ctx_team_id ctx) = v"
proof -
  have lock: "lock_row (dp_keep d) (gw_held g) (ctx_team_id ctx) (gw_budgets g) =
      (case gw_budgets g (ctx_team_id ctx) of None \<Rightarrow> None | Some b \<Rightarrow> if bg_enabled b then Some b else None)"
    using assms(1) by (intro lock_faithful) (auto simp: faithful_session_def)
  show ?thesis
    using assms(2-5)
    by (cases v) (auto simp: release_step_def release_reservation_def lock holding_def store_def flush_def
        written_def Let_def)
qed

lemma settle_effect:
  assumes "faithful_session d g (ctx_team_id ctx)"
    and "gw_budgets g (ctx_team_id ctx) = map_option (holding (rs_estimate rs)) v"
    and "dp_budget_service d" "dp_cost_calculator d" "0 \<le> rs_estimate rs" "\<forall>b. v = Some b \<longrightarrow> 0 \<le> reserved b"
    and "settle_step d (Some ctx) rs r g = ((actual, remaining), g')"
  shows "gw_budgets g' (ctx_team_id ctx) = map_option (charging actual) v"
    and "actual = calculate_actual_cost (s_catalog (x_shared (gw_exec g)))
      (or_name (m_selected_provider (p_metadata r)) (rs_provider rs))
      (or_name (m_selected_model (p_metadata r)) (rs_model rs)) (Some (p_usage r)) (rs_estimate rs)"
proof -
  have lock: "lock_row (dp_keep d) (gw_held g) (ctx_team_id ctx) (gw_budgets g) =
      (case gw_budgets g (ctx_team_id ctx) of None \<Rightarrow> None | Some b \<Rightarrow> if bg_enabled b then Some b else None)"
    using assms(1) by (intro lock_faithful) (auto simp: faithful_session_def)
  show "gw_budgets g' (ctx_team_id ctx) = map_option (charging actual) v"
    using assms(2-7)
    by (cases v) (auto simp: settle_step_def reconcile_def lock holding_def charging_def store_def flush_def
        written_def Let_def)
  show "actual = calculate_actual_cost (s_catalog (x_shared (gw_exec g)))
      (or_name (m_selected_provider (p_metadata r)) (rs_provider rs))
      (or_name (m_selected_model (p_metadata r)) (rs_model rs)) (Some (p_usage r)) (rs_estimate rs)"
    using assms(3-5,7) by (auto simp: settle_step_def Let_def split: prod.splits)
qed

text \<open>
  What the rest of the system is assumed to leave alone while the request runs: the team's row, and
  the well-formedness of the prices.
\<close>

definition undisturbed :: "'r deps \<Rightarrow> request_context \<Rightarrow> 'r gateway \<Rightarrow> bool" where
  "undisturbed d ctx g = (dp_budget_service d \<and> dp_cost_calculator d \<and>
     faithful_session d g (ctx_team_id ctx) \<and> priced d (gw_exec g) \<and>
     (\<forall>b. gw_budgets g (ctx_team_id ctx) = Some b \<longrightarrow> steady_row (dp_times d) b) \<and>
     (\<forall>tbl. dp_db_others d tbl (ctx_team_id ctx) = tbl (ctx_team_id ctx)))"

lemma reserved_run:
  assumes "undisturbed d ctx g" "wf_request q" "complete d (Some policy) q rid (Some ctx) g = (res, g')"
  shows "gw_budgets g' = gw_budgets g \<and> (\<exists>e. res = Inl e) \<or>
    (\<exists>left mode rs g1. run_reserved d policy q rid (Some ctx) mode left (assigned_arm d policy rid (Some ctx)) rs g1 = (res, g') \<and>
       0 \<le> rs_estimate rs \<and> faithful_session d g1 (ctx_team_id ctx) \<and>
       gw_budgets g1 = (gw_budgets g)(ctx_team_id ctx := map_option (holding (rs_estimate rs)) (gw_budgets g (ctx_team_id ctx))))"
proof -
  let ?arm = "assigned_arm d policy rid (Some ctx)"
  obtain a r where rate: "rate_limit_step d (Some ctx) (gw_redis g) = (a, r)" by (metis prod.exhaust)
  obtain b x where target: "choose_target d q (gw_exec g) = (b, x)" by (metis prod.exhaust)
  show ?thesis
  proof (cases "(\<exists>e. a = Inl e) \<or> (\<exists>e. b = Inl e)")
    case True
    then show ?thesis
      using assms(3) rate target by (cases a) (auto simp: complete_eq)
  next
    case False
    then obtain left p m mode where ab: "a = Inr left" "b = Inr (p, m, mode)"
      by (metis sum.exhaust prod_cases3)
    obtain p' m' where pm: "target_of ?arm (p, m) = (p', m')" by (metis prod.exhaust)
    let ?g = "g\<lparr>gw_redis := r, gw_exec := x\<rparr>"
    obtain rv g1 where rv: "reserve_step d policy q (Some ctx) p' m' ?g = (rv, g1)" by (metis prod.exhaust)
    have "faithful_session d ?g (ctx_team_id ctx)" "priced d (gw_exec ?g)"
      "\<forall>b. gw_budgets ?g (ctx_team_id ctx) = Some b \<longrightarrow> steady_row (dp_times d) b"
      using assms(1) priced_choose [OF _ target] by (auto simp: undisturbed_def faithful_session_def)
    then show ?thesis
      using reserve_effect [OF rv _ assms(2)] assms(3) rate target ab pm rv
      by (cases rv) (auto simp: complete_eq)
  qed
qed

lemma failure_free:
  assumes "undisturbed d ctx g" "wf_request q"
    and "complete d (Some policy) q rid (Some ctx) g = (Inl e, g')"
  shows "gw_budgets g' (ctx_team_id ctx) = gw_budgets g (ctx_team_id ctx)"
  using reserved_run [OF assms]
proof (elim disjE exE conjE)
  fix left mode rs g1
  assume run: "run_reserved d policy q rid (Some ctx) mode left (assigned_arm d policy rid (Some ctx)) rs g1 = (Inl e, g')"
    and rs: "0 \<le> rs_estimate rs" "faithful_session d g1 (ctx_team_id ctx)"
    and held: "gw_budgets g1 = (gw_budgets g)(ctx_team_id ctx :=
        map_option (holding (rs_estimate rs)) (gw_budgets g (ctx_team_id ctx)))"
  obtain x where g': "g' = release_step d (Some ctx) (rs_estimate rs)
      (g1\<lparr>gw_exec := x, gw_budgets := dp_db_others d (gw_budgets g1)\<rparr>)"
    using run by (auto simp: run_reserved_def Let_def split: prod.splits sum.splits)
  show ?thesis
    unfolding g' using rs held assms(1)
    by (intro release_effect) (auto simp: faithful_session_def undisturbed_def steady_row_def)
qed simp_all


lemma served_charge:
  assumes "undisturbed d ctx g" "wf_request q"
    and "complete d (Some policy) q rid (Some ctx) g = (Inr r, g')"
  shows "\<exists>cost est p m. gw_budgets g' (ctx_team_id ctx) = map_option (charging cost) (gw_budgets g (ctx_team_id ctx)) \<and>
    m_actual_cost (p_metadata r) = cost_field cost \<and> m_estimated_cost (p_metadata r) = cost_field est \<and>
    cost = calculate_actual_cost (s_catalog (x_shared (gw_exec g')))
      (or_name (m_selected_provider (p_metadata r)) p) (or_name (m_selected_model (p_metadata r)) m)
      (Some (p_usage r)) est"
  using reserved_run [OF assms]
proof (elim disjE exE conjE)
  fix left mode rs g1
  assume run: "run_reserved d policy q rid (Some ctx) mode left (assigned_arm d policy rid (Some ctx)) rs g1 = (Inr r, g')"
    and rs: "0 \<le> rs_estimate rs" "faithful_session d g1 (ctx_team_id ctx)"
    and held: "gw_budgets g1 = (gw_budgets g)(ctx_team_id ctx :=
        map_option (holding (rs_estimate rs)) (gw_budgets g (ctx_team_id ctx)))"
  obtain x r0 actual remaining g2 where
    settle: "settle_step d (Some ctx) rs r0 (g1\<lparr>gw_exec := x, gw_budgets := dp_db_others d (gw_budgets g1)\<rparr>)
        = ((actual, remaining), g2)"
    and r: "r = attach_costs rs actual remaining left (assigned_arm d policy rid (Some ctx)) r0"
    and g': "g' = write_cache d q (Some ctx) r g2"
    using run by (auto simp: run_reserved_def Let_def split: prod.splits sum.splits)
  let ?g = "g1\<lparr>gw_exec := x, gw_budgets := dp_db_others d (gw_budgets g1)\<rparr>"
  have fs: "faithful_session d ?g (ctx_team_id ctx)"
    and row: "gw_budgets ?g (ctx_team_id ctx) = map_option (holding (rs_estimate rs)) (gw_budgets g (ctx_team_id ctx))"
    and services: "dp_budget_service d" "dp_cost_calculator d"
    and nonneg: "\<forall>b. gw_budgets g (ctx_team_id ctx) = Some b \<longrightarrow> 0 \<le> reserved b"
    using rs(2) held assms(1) by (auto simp: faithful_session_def undisturbed_def steady_row_def)
  have "gw_budgets g' = gw_budgets g2" "gw_exec g' = gw_exec g2"
    by (simp_all add: g' write_cache_def split: option.splits)
  moreover have "gw_exec g2 = x"
    using settle_frame [OF settle] by simp
  moreover have "p_usage r = p_usage r0" "m_selected_provider (p_metadata r) = m_selected_provider (p_metadata r0)"
    "m_selected_model (p_metadata r) = m_selected_model (p_metadata r0)"
    "m_actual_cost (p_metadata r) = cost_field actual" "m_estimated_cost (p_metadata r) = cost_field (rs_estimate rs)"
    by (simp_all add: r attach_costs_def Let_def split: option.splits)
  ultimately show ?thesis
    using settle_effect [OF fs row services rs(1) nonneg settle]
    by (intro exI [of _ actual] exI [of _ "rs_estimate rs"] exI [of _ "rs_provider rs"] exI [of _ "rs_model rs"]) simp
qed simp_all


section \<open>Policy sections that do decide\<close>

lemma ran:
  assumes "complete d (Some policy) q rid context g = (Inr r, g')"
  obtains p m mode x g0 rs g1 left where "choose_target d q (gw_exec g) = (Inr (p, m, mode), x)"
    and "gw_exec g0 = x"
    and "reserve_step d policy q context (fst (target_of (assigned_arm d policy rid context) (p, m)))
        (snd (target_of (assigned_arm d policy rid context) (p, m))) g0 = (Inr rs, g1)"
    and "run_reserved d policy q rid context mode left (assigned_arm d policy rid context) rs g1 = (Inr r, g')"
proof -
  let ?arm = "assigned_arm d policy rid context"
  obtain a red where rate: "rate_limit_step d context (gw_redis g) = (a, red)" by (metis prod.exhaust)
  obtain b x where target: "choose_target d q (gw_exec g) = (b, x)" by (metis prod.exhaust)
  obtain left p m mode where ab: "a = Inr left" "b = Inr (p, m, mode)"
    using assms rate target by (cases a; cases b) (auto simp: complete_eq)
  let ?g = "g\<lparr>gw_redis := red, gw_exec := x\<rparr>" and ?t = "target_of ?arm (p, m)"
  obtain rv g1 where rv: "reserve_step d policy q context (fst ?t) (snd ?t) ?g = (rv, g1)" by (metis prod.exhaust)
  have eq: "(case rv of Inl e \<Rightarrow> (Inl e, g1) | Inr rs \<Rightarrow> run_reserved d policy q rid context mode left ?arm rs g1) = (Inr r, g')"
    using assms rate target ab rv by (simp add: complete_eq split_def split: sum.splits)
  then obtain rs where rs: "rv = Inr rs" by (cases rv) auto
  show ?thesis
    by (rule that [of p m mode x ?g rs g1 left]) (use target ab rv eq rs in auto)
qed

lemma run_response:
  assumes "run_reserved d policy q rid context mode left arm rs g1 = (Inr r, g')"
  obtains r0 cx x actual remaining where
    "execute (dp_world d) (dp_executor d) (exec_request policy q) rid (rs_provider rs) (rs_model rs)
      (Some mode) (gw_exec g1) = (Inr r0, cx, x)"
    and "r = attach_costs rs actual remaining left arm r0"
  using assms by (auto simp: run_reserved_def Let_def split: prod.splits sum.splits)

lemma attach_costs_keeps [simp]:
  "m_original_provider (p_metadata (attach_costs rs a rem left arm r)) = m_original_provider (p_metadata r)"
  "m_selected_provider (p_metadata (attach_costs rs a rem left arm r)) = m_selected_provider (p_metadata r)"
  "m_selected_model (p_metadata (attach_costs rs a rem left arm r)) = m_selected_model (p_metadata r)"
  "m_failover_triggered (p_metadata (attach_costs rs a rem left arm r)) = m_failover_triggered (p_metadata r)"
  "m_failover_attempts (p_metadata (attach_costs rs a rem left arm r)) = m_failover_attempts (p_metadata r)"
  "m_budget_downgraded (p_metadata (attach_costs rs a rem left arm r)) = rs_downgraded rs"
  "m_experiment_arm (p_metadata (attach_costs rs a rem left arm r)) =
     (case arm of None \<Rightarrow> m_experiment_arm (p_metadata r) | Some as \<Rightarrow> Some (as_arm_name as))"
  "m_experiment_id (p_metadata (attach_costs rs a rem left arm r)) =
     (case arm of None \<Rightarrow> m_experiment_id (p_metadata r) | Some as \<Rightarrow> Some (as_experiment_id as))"
  by (simp_all add: attach_costs_def Let_def split: option.split)

lemma downgrade_flag:
  assumes "attempt_budget_downgrade d q ctx p m est g = (Inr (p', m', est', False), g')"
  shows "p' = p \<and> m' = m"
  using assms by (auto simp: attempt_budget_downgrade_def Let_def split: option.splits if_splits prod.splits)

lemma reserve_target:
  assumes "reserve_step d policy q context p m g = (Inr rs, g')" "\<not> rs_downgraded rs"
  shows "rs_provider rs = p \<and> rs_model rs = m"
  using assms
  by (auto simp: reserve_step_def Let_def dest!: downgrade_flag split: option.splits if_splits prod.splits sum.splits)

text \<open>
  A team policy that switches fallback off pins the request to its target: a response comes from
  the provider it was sent to first, with no failover, whatever the request itself asked for.
\<close>

theorem policy_fallback_off_pins:
  assumes "\<not> rp_fallback policy" "complete d (Some policy) q rid context g = (Inr r, g')"
  shows "m_selected_provider (p_metadata r) = m_original_provider (p_metadata r) \<and>
    m_failover_attempts (p_metadata r) = 0 \<and> \<not> m_failover_triggered (p_metadata r)"
proof -
  obtain mode arm rs g1 left where "run_reserved d policy q rid context mode left arm rs g1 = (Inr r, g')"
    using ran [OF assms(2)] by metis
  then obtain r0 cx x actual remaining where run: "execute (dp_world d) (dp_executor d) (exec_request policy q) rid
      (rs_provider rs) (rs_model rs) (Some mode) (gw_exec g1) = (Inr r0, cx, x)"
    and r: "r = attach_costs rs actual remaining left arm r0"
    by (rule run_response)
  have "q_failover_enabled (exec_request policy q) = Some False"
    using assms(1) by (simp add: exec_request_def)
  then show ?thesis
    using no_failover_execution [OF _ run] execute_response [OF run] by (simp add: r)
qed

text \<open>
  The arm of an experiment governs the request: it replaces the routed target, so that a response
  that was not downgraded was first sent to the arm's provider, and the response is labelled with the
  experiment and the arm.
\<close>

theorem experiment_arm_governs:
  assumes "assign (dp_sha256 d) (ctx_team_id ctx) rid (rp_experiment policy) = Some a"
    and "complete d (Some policy) q rid (Some ctx) g = (Inr r, g')"
  shows "m_experiment_id (p_metadata r) = Some (as_experiment_id a) \<and>
    m_experiment_arm (p_metadata r) = Some (as_arm_name a) \<and>
    (\<not> m_budget_downgraded (p_metadata r) \<longrightarrow> m_original_provider (p_metadata r) = Some (as_provider a))"
proof -
  have arm: "assigned_arm d policy rid (Some ctx) = Some a"
    using assms(1) by (simp add: assigned_arm_def)
  obtain mode g0 rs g1 left where rs: "reserve_step d policy q (Some ctx) (as_provider a) (as_model a) g0 = (Inr rs, g1)"
    and "run_reserved d policy q rid (Some ctx) mode left (Some a) rs g1 = (Inr r, g')"
    using ran [OF assms(2)] by (simp add: arm target_of_def) metis
  from this(2) obtain r0 cx x actual remaining where run: "execute (dp_world d) (dp_executor d) (exec_request policy q) rid
      (rs_provider rs) (rs_model rs) (Some mode) (gw_exec g1) = (Inr r0, cx, x)"
    and r: "r = attach_costs rs actual remaining left (Some a) r0"
    by (rule run_response)
  show ?thesis
    using reserve_target [OF rs] execute_response(1) [OF run] by (auto simp: r)
qed

text \<open>
  A team whose own budget says \<open>DOWNGRADE\<close> is never downgraded unless its team policy says so too:
  under any other action, which the default policy has, a request over the limit is refused with the
  message that no cheaper provider was found, although none was looked for.
\<close>

theorem row_downgrade_policy_never_downgrades:
  assumes "rp_budget policy \<noteq> ''DOWNGRADE''" "dp_budget_service d" "dp_cost_calculator d"
    and "se_budget_enabled (dp_settings d)" "faithful_session d g (ctx_team_id ctx)"
    and "gw_budgets g (ctx_team_id ctx) = Some row" "steady_row (dp_times d) row" "bg_enabled row"
    and "bg_policy row = ''DOWNGRADE''" "over_limit row (estimate_cost (s_catalog (x_shared (gw_exec g))) p m q)"
    and "\<forall>b. dp_reread d b = Inr b"
  shows "\<exists>g'. reserve_step d policy q (Some ctx) p m g =
      (Inl (BudgetExceeded ''No cheaper provider found within budget.'' (Some (ctx_team_id ctx)) (remaining_amount row)), g') \<and>
    gw_exec g' = gw_exec g \<and> gw_budgets g' = gw_budgets g"
proof -
  have up: "upper ''DOWNGRADE'' = ''DOWNGRADE''" by code_simp
  have lock: "lock_row (dp_keep d) (gw_held g) (ctx_team_id ctx) (gw_budgets g) = Some row"
    using assms(5,6,8) by (auto simp: faithful_session_def lock_row_def split: option.splits)
  show ?thesis
    using assms lock
    by (simp add: reserve_step_def Let_def check_and_reserve_def apply_rollover_def steady_row_def up reject_def)
qed

text \<open>
  The downgrade path keeps its promise: for a request that does not fit in what is left of the
  budget, it either reserves the estimate of another candidate that is healthy, has the required
  capabilities, fits, and is ranked first among those that do; or it refuses, and then no candidate
  does. The budget is left within its limit.
\<close>

theorem downgrade_finds_affordable:
  assumes "rp_budget policy = ''DOWNGRADE''" "dp_budget_service d" "dp_cost_calculator d"
    and "se_budget_enabled (dp_settings d)" "faithful_session d g (ctx_team_id ctx)"
    and "gw_budgets g (ctx_team_id ctx) = Some row" "steady_row (dp_times d) row" "bg_enabled row"
    and "current_usage row + reserved row \<le> limit_amount row"
    and "remaining_amount row < estimate_cost (s_catalog (x_shared (gw_exec g))) p m q"
    and "build (dp_world d) (dp_executor d) (gw_exec g) = (cs, x)"
    and "reserve_step d policy q (Some ctx) p m g = (res, g')"
  shows "let estimate = (\<lambda>c. estimate_cost (s_catalog (x_shared x)) (rc_provider c) (rc_model c) q);
      fits = (\<lambda>c. rc_is_healthy c \<and> (rc_provider c, rc_model c) \<noteq> (p, m) \<and> covers (required_caps q) c \<and>
        estimate c \<le> remaining_amount row)
    in case res of
      Inl e \<Rightarrow> (\<forall>c \<in> set cs. \<not> fits c) \<and> class_of e = BudgetExceededC \<and> gw_budgets g' = gw_budgets g
    | Inr rs \<Rightarrow> rs_downgraded rs \<and> (\<exists>c \<in> set cs. fits c \<and> rs_provider rs = rc_provider c \<and>
        rs_model rs = rc_model c \<and> rs_estimate rs = estimate c \<and>
        sc_candidate (hd (score_candidates default_scoring (filter fits cs))) = c) \<and>
        (\<forall>b. gw_budgets g' (ctx_team_id ctx) = Some b \<longrightarrow> current_usage b + reserved b \<le> limit_amount b)"
proof -
  let ?est = "estimate_cost (s_catalog (x_shared (gw_exec g))) p m q"
  let ?estimate = "\<lambda>c. estimate_cost (s_catalog (x_shared x)) (rc_provider c) (rc_model c) q"
  let ?fits = "affordable (s_catalog (x_shared x)) q p m (remaining_amount row)"
  let ?g = "g\<lparr>gw_held := Some row, gw_exec := x\<rparr>"
  have fits: "(\<lambda>c. rc_is_healthy c \<and> (rc_provider c, rc_model c) \<noteq> (p, m) \<and> covers (required_caps q) c \<and>
      ?estimate c \<le> remaining_amount row) = ?fits"
    by (auto simp: affordable_def fun_eq_iff)
  have obj: "session_object (dp_keep d) (gw_held g) row = row"
    using assms(5,6) by (auto simp: session_object_def faithful_session_def split: option.splits)
  show ?thesis
  proof (cases "filter ?fits cs")
    case Nil
    then have "res = Inl (BudgetExceeded (''Budget exhausted and no cheaper compatible provider found. Remaining: $'' @
        fixed6 (remaining_amount row) @ ''.'') (Some (ctx_team_id ctx)) (remaining_amount row)) \<and> g' = ?g"
      using assms obj by (auto simp: reserve_step_def attempt_budget_downgrade_def get_budget_def Let_def)
    then show ?thesis
      unfolding Let_def fits using Nil by (auto simp: filter_empty_conv affordable_def)
  next
    case (Cons c0 rest)
    let ?best = "sc_candidate (hd (score_candidates default_scoring (filter ?fits cs)))"
    have "filter ?fits cs \<noteq> []" using Cons by simp
    then have "?best \<in> set (filter ?fits cs)"
      by (rule scorer.best_mem [THEN conjunct2])
    then have best: "?best \<in> set cs" "?fits ?best"
      by (simp_all only: set_filter mem_Collect_eq)
    have plan: "attempt_budget_downgrade d q ctx p m ?est g =
        (Inr (rc_provider ?best, rc_model ?best, ?estimate ?best, True), ?g)"
      using assms obj Cons by (simp add: attempt_budget_downgrade_def get_budget_def Let_def)
    have small: "?estimate ?best \<le> limit_amount row - current_usage row - reserved row"
      using best(2) assms(9) by (auto simp: affordable_def remaining_amount_def)
    have lock: "lock_row (dp_keep d) (Some row) (ctx_team_id ctx) (gw_budgets g) = Some row"
      using assms(5,6,8) by (auto simp: faithful_session_def lock_row_def)
    have ok: "bg_policy row = ''BLOCK'' \<or> bg_policy row = ''WARN'' \<or> bg_policy row = ''DOWNGRADE''"
      "upper ''BLOCK'' = ''BLOCK''" "upper ''WARN'' = ''WARN''" "upper ''DOWNGRADE'' = ''DOWNGRADE''"
      using assms(7) by (auto simp: steady_row_def budget_policies_def) (code_simp+)
    have "\<exists>b w g1. reserve_step d policy q (Some ctx) p m g = (Inr \<lparr>rs_provider = rc_provider ?best,
        rs_model = rc_model ?best, rs_estimate = ?estimate ?best, rs_warning = w, rs_downgraded = True\<rparr>, g1) \<and>
        gw_budgets g1 (ctx_team_id ctx) = Some (row\<lparr>reserved := reserved row + ?estimate ?best\<rparr>)"
      using assms(1-4,6-8) plan small lock ok
      by (auto simp: reserve_step_def Let_def check_and_reserve_def apply_rollover_def steady_row_def over_limit_def
          store_same)
    then show ?thesis
      unfolding Let_def fits using assms(12) best small by (auto simp: affordable_def)
  qed
qed

section \<open>Witnesses\<close>

definition example_settings :: settings where
  "example_settings = \<lparr>se_rate_limit_enabled = True, se_rate = minute_config, se_budget_enabled = True,
     se_warning_threshold = 80, se_expose_remaining = False\<rparr>"

definition example_deps :: "(nat \<Rightarrow> string \<Rightarrow> chat_request \<Rightarrow> exn + chat_response) \<Rightarrow> unit deps" where
  "example_deps chat = \<lparr>dp_world = example_world chat, dp_executor = example_executor, dp_limiter = Some None,
     dp_rate_env = \<lparr>re_conn = (\<lambda>s. Up), re_now = (\<lambda>s. 0)\<rparr>, dp_team_limits = None, dp_budget_service = True,
     dp_cost_calculator = True, dp_keep = identity_map, dp_reread = Inr, dp_times = january,
     dp_db_others = (\<lambda>tbl. tbl), dp_cache = Some example_cache, dp_answers = cold, dp_config_digest = (\<lambda>c. ''h''),
     dp_sha256 = (\<lambda>s. [0, 0, 0, 0]), dp_settings = example_settings\<rparr>"

definition example_gateway :: "budget \<Rightarrow> exec_state \<Rightarrow> unit gateway" where
  "example_gateway b x = \<lparr>gw_redis = (), gw_budgets = [''t'' \<mapsto> b], gw_held = None, gw_exec = x, gw_cache_writes = []\<rparr>"

definition manual_request :: chat_request where
  "manual_request = example_request\<lparr>q_provider := Some ''groq'', q_model := ''m1'', q_routing_mode := Some ''manual''\<rparr>"

lemma manual_request_wf: "wf_request manual_request"
proof -
  have "strip ''m1'' = ''m1''" "lower ''groq'' = ''groq''" "strip ''groq'' = ''groq''" by code_simp+
  then show ?thesis
    by (simp add: wf_request_def manual_request_def example_request_def valid_modes_def)
qed

lemma example_undisturbed:
  "undisturbed (example_deps chat) example_context (example_gateway example_budget fresh_state)"
  using example_budget_facts new_catalog_wf
  by (simp add: undisturbed_def example_deps_def faithful_session_def example_gateway_def identity_map_def
      priced_def fresh_state_def example_context_def steady_row_def example_world_def)
    (simp add: example_budget_def budget_policies_def)

lemma example_complete:
  assumes "rp_budget policy = ''BLOCK''"
    and "target_of (assigned_arm (example_deps chat) policy ''rid'' (Some example_context)) (''groq'', ''m1'') = (''groq'', ''m1'')"
    and "chat 0 ''groq'' ((exec_request policy manual_request)\<lparr>q_provider := Some ''groq'', q_model := ''m1''\<rparr>) = res"
    and "\<forall>e. res = Inl e \<longrightarrow> \<not> is_transient_error e"
  shows "\<exists>res' g'. complete (example_deps chat) (Some policy) manual_request ''rid'' (Some example_context)
      (example_gateway example_budget fresh_state) = (res', g') \<and>
    (case res of Inl e \<Rightarrow> res' = Inl e | Inr r \<Rightarrow> \<exists>r'. res' = Inr r')"
proof -
  let ?d = "example_deps chat" and ?g = "example_gateway example_budget fresh_state"
  let ?arm = "assigned_arm ?d policy ''rid'' (Some example_context)"
  obtain left where rate: "rate_limit_step ?d (Some example_context) () = (Inr left, ())"
    by (simp add: rate_limit_step_def example_deps_def example_settings_def check_all_def check_scope_def
        outcome_of_def always_allowed_def)
  have "lower ''m1'' = ''m1''" by code_simp
  then have target: "choose_target ?d manual_request fresh_state = (Inr (''groq'', ''m1'', ''manual''), fresh_state)"
    by (simp add: choose_target_def is_manual_def manual_request_def truthy_def)
  let ?est = "estimate_cost new_catalog ''groq'' ''m1'' manual_request"
  have free: "?est = 0"
    by (simp add: estimate_cost_def Let_def token_cost_def catalog_get_def new_catalog_def default_metadata_def py_round_def
        round_half_even_def)
  let ?b = "example_budget\<lparr>reserved := reserved example_budget + 0\<rparr>"
  have "lock_row identity_map None ''t'' [''t'' \<mapsto> example_budget] = Some example_budget" "\<not> over_limit example_budget 0"
    using example_budget_facts by (simp_all add: lock_row_def over_limit_def) (simp add: example_budget_def)
  then have cr: "check_and_reserve identity_map Inr january 80 ''t'' 0 None [''t'' \<mapsto> example_budget] =
      (Inr (Some ?b, False), Some ?b, [''t'' \<mapsto> example_budget, ''t'' \<mapsto> ?b])"
    using reserve_strict(1) [of identity_map None "''t''" "[''t'' \<mapsto> example_budget]" example_budget january Inr 80 0]
      example_budget_facts by simp
  obtain g1 where reserved: "reserve_step ?d policy manual_request (Some example_context) ''groq'' ''m1'' ?g =
      (Inr \<lparr>rs_provider = ''groq'', rs_model = ''m1'', rs_estimate = 0, rs_warning = False, rs_downgraded = False\<rparr>, g1)"
    "gw_exec g1 = fresh_state"
    using assms(1) cr
    by (simp add: reserve_step_def example_deps_def example_settings_def example_gateway_def example_context_def
        fresh_state_def free)
  obtain r0 cx x where run: "execute (example_world chat) example_executor (exec_request policy manual_request)
      ''rid'' ''groq'' ''m1'' (Some ''manual'') fresh_state = (r0, cx, x)"
    "case res of Inl e \<Rightarrow> r0 = Inl e | Inr r \<Rightarrow> \<exists>r'. r0 = Inr r'"
    using example_run [of chat "exec_request policy manual_request" res, OF assms(3,4)] by blast
  have start: "gw_exec ?g = fresh_state" "?g\<lparr>gw_redis := (), gw_exec := fresh_state\<rparr> = ?g"
    by (simp_all add: example_gateway_def)
  have eq: "complete ?d (Some policy) manual_request ''rid'' (Some example_context) ?g =
      run_reserved ?d policy manual_request ''rid'' (Some example_context) ''manual'' left ?arm
        \<lparr>rs_provider = ''groq'', rs_model = ''m1'', rs_estimate = 0, rs_warning = False, rs_downgraded = False\<rparr> g1"
    by (simp add: complete_eq rate target assms(2) reserved(1) start)
  have "dp_world ?d = example_world chat" "dp_executor ?d = example_executor"
    by (simp_all add: example_deps_def)
  then show ?thesis
    unfolding eq using run(2) by (cases res) (auto simp: run_reserved_def run(1) reserved(2) Let_def split: prod.split)
qed

lemma example_default: "target_of (assigned_arm (example_deps chat) (global_default_policy\<lparr>rp_fallback := f\<rparr>) ''rid''
    (Some example_context)) routed = routed"
  by (simp add: assigned_arm_def assign_def target_of_def global_default_policy_def)

lemma example_default_policy: "global_default_policy\<lparr>rp_fallback := True\<rparr> = global_default_policy"
  "rp_budget (global_default_policy\<lparr>rp_fallback := f\<rparr>) = ''BLOCK''"
  by (simp_all add: global_default_policy_def)


lemma example_served:
  "\<exists>r g'. complete (example_deps (\<lambda>n p q. Inr answer)) (Some (global_default_policy\<lparr>rp_fallback := f\<rparr>)) manual_request
      ''rid'' (Some example_context) (example_gateway example_budget fresh_state) = (Inr r, g')"
  using example_complete [of "global_default_policy\<lparr>rp_fallback := f\<rparr>" "\<lambda>n p q. Inr answer", OF example_default_policy(2)
      example_default refl] by auto


theorem policy_fallback_off_pins_witness:
  "\<exists>r g'. complete (example_deps (\<lambda>n p q. Inr answer)) (Some (global_default_policy\<lparr>rp_fallback := False\<rparr>))
      manual_request ''rid'' (Some example_context) (example_gateway example_budget fresh_state) = (Inr r, g') \<and>
    m_selected_provider (p_metadata r) = m_original_provider (p_metadata r)"
proof -
  obtain r g' where run: "complete (example_deps (\<lambda>n p q. Inr answer)) (Some (global_default_policy\<lparr>rp_fallback := False\<rparr>))
      manual_request ''rid'' (Some example_context) (example_gateway example_budget fresh_state) = (Inr r, g')"
    using example_served by blast
  then show ?thesis
    using policy_fallback_off_pins [OF _ run] by simp
qed

definition example_experiment :: experiment_config where
  "example_experiment = \<lparr>ex_enabled = True, ex_id = ''e1'', ex_version = 1, ex_type = ''ab_test'',
     ex_arms = [\<lparr>arm_name = ''a'', arm_provider = ''groq'', arm_model = ''m1'', arm_weight = 50\<rparr>,
       \<lparr>arm_name = ''b'', arm_provider = ''openai'', arm_model = ''m2'', arm_weight = 50\<rparr>]\<rparr>"

theorem experiment_arm_governs_witness:
  "\<exists>r g'. complete (example_deps (\<lambda>n p q. Inr answer)) (Some (global_default_policy\<lparr>rp_experiment := Some example_experiment\<rparr>))
      manual_request ''rid'' (Some example_context) (example_gateway example_budget fresh_state) = (Inr r, g') \<and>
    m_experiment_arm (p_metadata r) = Some ''a''"
proof -
  let ?p = "global_default_policy\<lparr>rp_experiment := Some example_experiment\<rparr>"
  let ?a = "\<lparr>as_experiment_id = ''e1'', as_experiment_version = 1, as_arm_name = ''a'', as_provider = ''groq'', as_model = ''m1''\<rparr>"
  have arm: "assign (dp_sha256 (example_deps (\<lambda>n p q. Inr answer))) (ctx_team_id example_context) ''rid''
      (rp_experiment ?p) = Some ?a"
    by (simp add: assign_def example_experiment_def select_arm_def bucket_of_def from_bytes_big_def bucket_size_def
        example_deps_def Let_def)
  then have target: "target_of (assigned_arm (example_deps (\<lambda>n p q. Inr answer)) ?p ''rid'' (Some example_context))
      (''groq'', ''m1'') = (''groq'', ''m1'')"
    by (simp add: assigned_arm_def target_of_def)
  have "rp_budget ?p = ''BLOCK''" by (simp add: global_default_policy_def)
  then obtain r g' where run: "complete (example_deps (\<lambda>n p q. Inr answer)) (Some ?p) manual_request ''rid''
      (Some example_context) (example_gateway example_budget fresh_state) = (Inr r, g')"
    using example_complete [OF _ target refl] by auto
  then show ?thesis
    using experiment_arm_governs [OF arm run] by auto
qed

definition spent_budget :: budget where
  "spent_budget = example_budget\<lparr>bg_policy := ''DOWNGRADE'', limit_amount := 0\<rparr>"

lemma spent_budget_facts: "steady_row january spent_budget" "bg_enabled spent_budget" "bg_policy spent_budget = ''DOWNGRADE''"
  "current_usage spent_budget + reserved spent_budget \<le> limit_amount spent_budget" "remaining_amount spent_budget = 0"
proof -
  show "steady_row january spent_budget"
    using example_budget_facts(3)
    by (simp add: steady_row_def spent_budget_def is_period_expired_def) (simp add: example_budget_def budget_policies_def)
qed (simp_all add: spent_budget_def example_budget_def remaining_amount_def)

text \<open>A catalog that charges for the model\<close>

definition priced_state :: exec_state where
  "priced_state = fresh_state\<lparr>x_shared := (x_shared fresh_state)\<lparr>s_catalog := new_catalog\<lparr>c_catalog :=
     [(''groq:m1'', (default_metadata new_catalog ''groq'' ''m1'')\<lparr>md_input_cost_per_1k := 1000\<rparr>)]\<rparr>\<rparr>\<rparr>"

lemma priced_estimate:
  "0 < estimate_cost (s_catalog (x_shared (gw_exec (example_gateway b priced_state)))) ''groq'' ''m1'' manual_request"
proof -
  have "lower ''groq'' = ''groq''" "strip ''m1'' = ''m1''" by code_simp+
  then have "estimate_cost (s_catalog (x_shared (gw_exec (example_gateway b priced_state)))) ''groq'' ''m1'' manual_request =
      py_round (3 / 2) 8"
    by (simp add: example_gateway_def priced_state_def estimate_cost_def catalog_get_def catalog_key_def new_catalog_def
        default_metadata_def token_cost_def estimated_input_tokens_def manual_request_def example_request_def
        estimation_safety_margin_def Let_def)
  also have "py_round (3 / 2) 8 = of_int (round_half_even (of_int 150000000)) / 10 ^ 8"
    by (simp add: py_round_def)
  finally show ?thesis by (simp only: round_half_even_of_int) simp
qed

lemma example_faithful: "faithful_session (example_deps chat) (example_gateway b x) t"
  by (simp add: faithful_session_def example_deps_def example_gateway_def identity_map_def)

lemma example_fields: "rp_budget global_default_policy \<noteq> ''DOWNGRADE''" "dp_budget_service (example_deps chat)"
  "dp_cost_calculator (example_deps chat)" "se_budget_enabled (dp_settings (example_deps chat))"
  "gw_budgets (example_gateway b x) (ctx_team_id example_context) = Some b" "dp_times (example_deps chat) = january"
  "\<forall>b. dp_reread (example_deps chat) b = Inr b"
  by (simp_all add: global_default_policy_def example_deps_def example_settings_def example_gateway_def example_context_def)

theorem row_downgrade_policy_never_downgrades_witness:
  "\<exists>g'. reserve_step (example_deps (\<lambda>n p q. Inr answer)) global_default_policy manual_request (Some example_context) ''groq'' ''m1''
      (example_gateway spent_budget priced_state) =
      (Inl (BudgetExceeded ''No cheaper provider found within budget.'' (Some ''t'') 0), g')"
proof -
  have "over_limit spent_budget (estimate_cost (s_catalog (x_shared (gw_exec (example_gateway spent_budget priced_state))))
      ''groq'' ''m1'' manual_request)"
    using priced_estimate spent_budget_facts by (simp add: over_limit_def spent_budget_def example_budget_def)
  from row_downgrade_policy_never_downgrades [OF example_fields(1-4) example_faithful example_fields(5) _ spent_budget_facts(2,3) this
      example_fields(7)] spent_budget_facts
  show ?thesis
    by (auto simp: example_fields(6) example_context_def)
qed

theorem downgrade_finds_affordable_witness:
  "\<exists>e g'. reserve_step (example_deps (\<lambda>n p q. Inr answer)) (global_default_policy\<lparr>rp_budget := ''DOWNGRADE''\<rparr>) manual_request
      (Some example_context) ''groq'' ''m1'' (example_gateway spent_budget priced_state) = (Inl e, g') \<and> class_of e = BudgetExceededC"
proof -
  let ?d = "example_deps (\<lambda>n p q. Inr answer)" and ?g = "example_gateway spent_budget priced_state"
  let ?p = "global_default_policy\<lparr>rp_budget := ''DOWNGRADE''\<rparr>"
  obtain cs x where built: "build (dp_world ?d) (dp_executor ?d) (gw_exec ?g) = (cs, x)" by (metis prod.exhaust)
  have "fst (build (dp_world ?d) (dp_executor ?d) (gw_exec ?g)) =
      [candidate_of (s_catalog (x_shared priced_state)) (\<lambda>k. None) ''groq'' True ''m1'']"
  proof -
    have "lower (strip ''groq'') = ''groq''" by code_simp
    then show ?thesis
      by (simp add: build_def suspend_def Let_def example_deps_def example_world_def example_executor_def example_gateway_def
          priced_state_def fresh_state_def build_candidates_def list_providers_def inspect_provider_def reg_get_def
          example_probe_def models_for_def)
  qed
  then have only: "\<forall>c \<in> set cs. rc_provider c = ''groq'' \<and> rc_model c = ''m1''"
    using built by (simp add: candidate_of_def Let_def)
  obtain res g' where run: "reserve_step ?d ?p manual_request (Some example_context) ''groq'' ''m1'' ?g = (res, g')"
    by (metis prod.exhaust)
  have "rp_budget ?p = ''DOWNGRADE''" by simp
  from downgrade_finds_affordable [OF this example_fields(2-4) example_faithful example_fields(5) _ spent_budget_facts(2,4) _ built run]
  show ?thesis
    using run only spent_budget_facts priced_estimate example_fields(6) by (auto simp: Let_def split: sum.splits)
qed

end
