(* ===== verification/RequestLog.thy ===== *)
theory RequestLog
  imports ChatService
begin

text \<open>
  The request log (\<open>app/observability/models.py\<close>, \<open>app/observability/log_writer.py\<close>): the row kept of
  each request, the two builders, and the writer that runs after the response. The JSON text of the
  triggered guardrails is kept as the list it encodes.
\<close>

record request_log =
  lg_request_id :: string
  lg_trace_id :: "string option"
  lg_organization_id :: "string option"
  lg_team_id :: "string option"
  lg_provider :: "string option"
  lg_model :: "string option"
  lg_routing_mode :: "string option"
  lg_status :: string
  lg_http_status_code :: int
  lg_error_code :: "string option"
  lg_latency_ms :: "real option"
  lg_prompt_tokens :: "int option"
  lg_completion_tokens :: "int option"
  lg_total_tokens :: "int option"
  lg_estimated_cost :: "real option"
  lg_actual_cost :: "real option"
  lg_retry_count :: int
  lg_failover_triggered :: bool
  lg_failover_from :: "string option"
  lg_failover_to :: "string option"
  lg_circuit_breaker_state :: "string option"
  lg_budget_policy :: "string option"
  lg_budget_action :: "string option"
  lg_cache_hit :: bool
  lg_experiment_id :: "string option"
  lg_experiment_version :: "int option"
  lg_experiment_arm :: "string option"
  lg_guardrails_triggered :: "string list option"
  lg_guardrail_action :: "string option"

definition build_success_log ::
  "string \<Rightarrow> request_context option \<Rightarrow> chat_response \<Rightarrow> string option \<Rightarrow> string option \<Rightarrow>
   string list option \<Rightarrow> string option \<Rightarrow> request_log" where
  "build_success_log rid context r trace budget_policy triggered action =
     (let meta = p_metadata r; usage = p_usage r in
      \<lparr>lg_request_id = rid, lg_trace_id = trace,
       lg_organization_id = map_option ctx_organization_id context, lg_team_id = map_option ctx_team_id context,
       lg_provider = m_selected_provider meta, lg_model = m_selected_model meta, lg_routing_mode = m_routing_mode meta,
       lg_status = ''success'', lg_http_status_code = 200, lg_error_code = None,
       lg_latency_ms = Some (m_latency_ms meta), lg_prompt_tokens = prompt_tokens usage,
       lg_completion_tokens = completion_tokens usage, lg_total_tokens = total_tokens usage,
       lg_estimated_cost = m_estimated_cost meta, lg_actual_cost = m_actual_cost meta,
       lg_retry_count = m_retry_count meta, lg_failover_triggered = m_failover_triggered meta,
       lg_failover_from = (if m_failover_triggered meta then m_original_provider meta else None),
       lg_failover_to = (if m_failover_triggered meta then m_selected_provider meta else None),
       lg_circuit_breaker_state = m_circuit_breaker_state meta, lg_budget_policy = budget_policy,
       lg_budget_action = Some (if m_budget_downgraded meta then ''downgraded''
         else if m_budget_warning meta then ''warned'' else ''none''),
       lg_cache_hit = m_cache_hit meta, lg_experiment_id = m_experiment_id meta,
       lg_experiment_version = m_experiment_version meta, lg_experiment_arm = m_experiment_arm meta,
       lg_guardrails_triggered = triggered, lg_guardrail_action = action\<rparr>)"

definition build_error_log ::
  "string \<Rightarrow> request_context option \<Rightarrow> string \<Rightarrow> int \<Rightarrow> string \<Rightarrow> string option \<Rightarrow> string option \<Rightarrow>
   string option \<Rightarrow> string option \<Rightarrow> string option \<Rightarrow> string list option \<Rightarrow> string option \<Rightarrow> request_log" where
  "build_error_log rid context status http_status code trace provider model budget_policy budget_action triggered action =
     \<lparr>lg_request_id = rid, lg_trace_id = trace,
      lg_organization_id = map_option ctx_organization_id context, lg_team_id = map_option ctx_team_id context,
      lg_provider = provider, lg_model = model, lg_routing_mode = None, lg_status = status,
      lg_http_status_code = http_status, lg_error_code = Some code, lg_latency_ms = None, lg_prompt_tokens = None,
      lg_completion_tokens = None, lg_total_tokens = None, lg_estimated_cost = None, lg_actual_cost = None,
      lg_retry_count = 0, lg_failover_triggered = False, lg_failover_from = None, lg_failover_to = None,
      lg_circuit_breaker_state = None, lg_budget_policy = budget_policy, lg_budget_action = budget_action,
      lg_cache_hit = False, lg_experiment_id = None, lg_experiment_version = None, lg_experiment_arm = None,
      lg_guardrails_triggered = triggered, lg_guardrail_action = action\<rparr>"

text \<open>A stored row, with what the column defaults add; the newest last\<close>

record log_row =
  row_id :: string
  row_created_at :: datetime
  row_log :: request_log

type_synonym log_table = "log_row list"

text \<open>\<open>db\<close>: what the session and the insert raise, if anything\<close>

definition write_request_log :: "exn option \<Rightarrow> string \<Rightarrow> datetime \<Rightarrow> request_log \<Rightarrow> log_table \<Rightarrow> log_table" where
  "write_request_log db new_id now l tbl =
     (if lg_request_id l = [] then tbl
      else case db of
        Some e \<Rightarrow> tbl
      | None \<Rightarrow> tbl @ [\<lparr>row_id = new_id, row_created_at = now, row_log = l\<rparr>])"

end
