(* ===== verification/ChatEndpoint.thy ===== *)
theory ChatEndpoint
  imports RequestLog Guardrails
begin

text \<open>
  The endpoint \<open>POST /chat/completions\<close> (\<open>app/api/v1/endpoints/chat.py\<close>): guardrails before the
  pipeline, the pipeline, and the log row handed to the background tasks on every way out. The
  Prometheus counters it updates are in \<open>Metrics\<close>.
\<close>

section \<open>Dependencies\<close>

definition get_resolved_policy :: "request_context \<Rightarrow> exn + policy_table \<Rightarrow> resolved_policy" where
  "get_resolved_policy ctx db = resolve (Some (ctx_team_id ctx)) db"

text \<open>
  The services as the dependency functions build them and the handler passes them on: a limiter that is
  switched off has no Redis, and the service of the team overrides is not passed at all.
\<close>

definition injected :: "'r deps \<Rightarrow> 'r deps" where
  "injected d = d\<lparr>dp_limiter := Some (if se_rate_limit_enabled (dp_settings d) then Option.bind (dp_limiter d) id else None),
     dp_team_limits := None, dp_budget_service := True, dp_cost_calculator := True\<rparr>"

section \<open>The log row of a failure\<close>

text \<open>\<open>type(exc).__name__\<close>\<close>

fun class_name :: "py_class \<Rightarrow> string" where
  "class_name ExceptionC = ''Exception''"
| "class_name ValueErrorC = ''ValueError''"
| "class_name TypeErrorC = ''TypeError''"
| "class_name AttributeErrorC = ''AttributeError''"
| "class_name ConnectionErrorC = ''ConnectionError''"
| "class_name TimeoutErrorC = ''TimeoutError''"
| "class_name HttpxTimeoutExceptionC = ''TimeoutException''"
| "class_name HttpxNetworkErrorC = ''NetworkError''"
| "class_name HttpxConnectErrorC = ''ConnectError''"
| "class_name HTTPExceptionC = ''HTTPException''"
| "class_name RequestValidationErrorC = ''RequestValidationError''"
| "class_name IntegrityErrorC = ''IntegrityError''"
| "class_name EmbeddingErrorC = ''EmbeddingError''"
| "class_name ModelNotFoundErrorC = ''ModelNotFoundError''"
| "class_name ModelAlreadyExistsErrorC = ''ModelAlreadyExistsError''"
| "class_name ProviderExceptionC = ''ProviderException''"
| "class_name InvalidProviderErrorC = ''InvalidProviderError''"
| "class_name ProviderDisabledErrorC = ''ProviderDisabledError''"
| "class_name InvalidModelErrorC = ''InvalidModelError''"
| "class_name ProviderTimeoutErrorC = ''ProviderTimeoutError''"
| "class_name ProviderRateLimitErrorC = ''ProviderRateLimitError''"
| "class_name ProviderUnavailableErrorC = ''ProviderUnavailableError''"
| "class_name ProviderAuthErrorC = ''ProviderAuthError''"
| "class_name ProviderErrorC = ''ProviderError''"
| "class_name TotalDeadlineExceededErrorC = ''TotalDeadlineExceededError''"
| "class_name CircuitOpenErrorC = ''CircuitOpenError''"
| "class_name FailoverExhaustedErrorC = ''FailoverExhaustedError''"
| "class_name RoutingExceptionC = ''RoutingException''"
| "class_name NoRoutableProviderErrorC = ''NoRoutableProviderError''"
| "class_name NoCapableProviderErrorC = ''NoCapableProviderError''"
| "class_name InvalidRoutingModeErrorC = ''InvalidRoutingModeError''"
| "class_name InvalidManualRoutingErrorC = ''InvalidManualRoutingError''"
| "class_name GatewayControlExceptionC = ''GatewayControlException''"
| "class_name RateLimitExceededC = ''RateLimitExceeded''"
| "class_name BudgetExceededC = ''BudgetExceeded''"
| "class_name BudgetConfigurationErrorC = ''BudgetConfigurationError''"
| "class_name AuthenticationErrorC = ''AuthenticationError''"
| "class_name AuthorizationErrorC = ''AuthorizationError''"
| "class_name GuardrailBlockedC = ''GuardrailBlocked''"

definition failure_log :: "string \<Rightarrow> request_context \<Rightarrow> string option \<Rightarrow> exn \<Rightarrow> request_log" where
  "failure_log rid ctx trace e =
     (if isinstance e [RateLimitExceededC] then
        build_error_log rid (Some ctx) ''rate_limited'' 429 (the (error_code e)) trace None None None None None None
      else if isinstance e [BudgetExceededC] then
        build_error_log rid (Some ctx) ''budget_blocked'' 402 (the (error_code e)) trace None None None (Some ''blocked'') None None
      else build_error_log rid (Some ctx) ''failure'' (or_else (status_code e) 500)
        (or_else (error_code e) (class_name (class_of e))) trace None None None None None None)"

section \<open>The handler\<close>

text \<open>
  The result of the handler, the row it gave to the background tasks if any, and the state after it.
  \<open>logs\<close> is the setting \<open>request_log_enabled\<close>.
\<close>

definition chat_completions ::
  "'r deps \<Rightarrow> bool \<Rightarrow> string option \<Rightarrow> resolved_policy \<Rightarrow> chat_request \<Rightarrow> string \<Rightarrow> request_context \<Rightarrow> 'r gateway \<Rightarrow>
   (exn + chat_response) \<times> request_log option \<times> 'r gateway" where
  "chat_completions d logs trace policy q rid ctx g =
     (let run = run_guardrails q (rp_guardrails policy);
          triggered = (if any_triggered run then Some (triggered_names run) else None);
          action = (if any_triggered run then final_action run else None);
          log = (\<lambda>l. if logs then Some l else None)
      in if is_blocked run then
           (Inl (blocked_exception run),
            log (build_error_log rid (Some ctx) ''guardrail_blocked'' 400 ''INVALID_REQUEST'' trace None None None None
              triggered (Some ''block'')), g)
         else (case complete (injected d) (Some policy) q rid (Some ctx) g of
             (Inl e, g') \<Rightarrow> (Inl e, log (failure_log rid ctx trace e), g')
           | (Inr r, g') \<Rightarrow> (Inr r, log (build_success_log rid (Some ctx) r trace (Some (rp_budget policy))
               triggered action), g')))"

text \<open>The HTTP status a client sees: 200, or that of the exception handler.\<close>

definition chat_status :: "string \<Rightarrow> exn + chat_response \<Rightarrow> int" where
  "chat_status rid res = (case res of Inl e \<Rightarrow> r_status (handle_exception rid e) | Inr r \<Rightarrow> 200)"

section \<open>What a row says\<close>

lemma failure_log_fields [simp]:
  "lg_request_id (failure_log rid ctx trace e) = rid" "lg_trace_id (failure_log rid ctx trace e) = trace"
  "lg_organization_id (failure_log rid ctx trace e) = Some (ctx_organization_id ctx)"
  "lg_team_id (failure_log rid ctx trace e) = Some (ctx_team_id ctx)"
  "lg_status (failure_log rid ctx trace e) \<noteq> ''success''"
  "lg_guardrails_triggered (failure_log rid ctx trace e) = None"
  "lg_budget_policy (failure_log rid ctx trace e) = None"
  by (simp_all add: failure_log_def build_error_log_def)

lemmas failure_defs = plain_class_def failure_log_def build_error_log_def isinstance_def subclass_of_def
  handle_exception_def handler_for_def handled_classes_def error_response_def internal_error_def
  status_code_def error_code_def or_else_def

text \<open>The exceptions whose own status is not the one the handlers send\<close>

definition plain_status :: "exn \<Rightarrow> bool" where
  "plain_status e = (wf_exn e \<and> class_of e \<noteq> RequestValidationErrorC \<and> class_of e \<noteq> GatewayControlExceptionC)"

lemma failure_log_status:
  assumes "plain_status e"
  shows "lg_http_status_code (failure_log rid ctx trace e) = r_status (handle_exception rid e)"
proof (cases e)
  case (Exn c m)
  then show ?thesis
    using assms
    by (cases c) (simp_all add: plain_status_def failure_defs)
qed (use assms in \<open>simp_all add: plain_status_def failure_defs\<close>)

lemma failure_log_code:
  assumes "plain_status e" "handler_for e \<noteq> Some ExceptionC" "handler_for e \<noteq> Some HTTPExceptionC"
  shows "lg_error_code (failure_log rid ctx trace e) = Some (r_code (handle_exception rid e))"
proof (cases e)
  case (Exn c m)
  then show ?thesis
    using assms
    by (cases c) (simp_all add: failure_defs plain_status_def)
qed (use assms in \<open>simp_all add: failure_defs plain_status_def\<close>)

lemma blocked_is_guardrail: "\<exists>n ns c m. blocked_exception run = GuardrailBlocked n ns c m"
  by (auto simp: blocked_exception_def Let_def split: option.splits)

lemma blocked_response [simp]:
  "r_status (handle_exception rid (blocked_exception run)) = 400"
  "r_code (handle_exception rid (blocked_exception run)) = ''INVALID_REQUEST''"
  "plain_status (blocked_exception run)" "handler_for (blocked_exception run) = Some GuardrailBlockedC"
  using blocked_is_guardrail [of run]
  by (auto simp: failure_defs plain_status_def)

text \<open>The two ways through the handler\<close>

lemma chat_cases:
  assumes "chat_completions d logs trace policy q rid ctx g = (res, entry, g')"
  obtains (Blocked) run where "run = run_guardrails q (rp_guardrails policy)" "is_blocked run" "g' = g"
      "res = Inl (blocked_exception run)"
      "entry = (if logs then Some (build_error_log rid (Some ctx) ''guardrail_blocked'' 400 ''INVALID_REQUEST'' trace
         None None None None (if any_triggered run then Some (triggered_names run) else None) (Some ''block'')) else None)"
  | (Ran) "\<not> is_blocked (run_guardrails q (rp_guardrails policy))"
      "complete (injected d) (Some policy) q rid (Some ctx) g = (res, g')"
      "\<And>e. res = Inl e \<Longrightarrow> entry = (if logs then Some (failure_log rid ctx trace e) else None)"
      "\<And>r. res = Inr r \<Longrightarrow> \<exists>names action. entry =
         (if logs then Some (build_success_log rid (Some ctx) r trace (Some (rp_budget policy)) names action) else None)"
  using assms
  by (cases "complete (injected d) (Some policy) q rid (Some ctx) g"; cases "fst (complete (injected d) (Some policy) q rid (Some ctx) g)")
    (auto simp: chat_completions_def Let_def split: if_splits)

section \<open>Properties\<close>


text \<open>
  C35: with logging on, every request hands over exactly one row, under its request id and the caller's
  organization and team; the row says success iff the client gets a completion, and its HTTP status is
  the one the client sees. Its error code is the response's, whenever a handler other than the
  catch-all answers.
\<close>

theorem logged_outcome_matches_response:
  assumes "chat_completions d True trace policy q rid ctx g = (res, entry, g')"
  shows "\<exists>l. entry = Some l \<and> lg_request_id l = rid \<and> lg_organization_id l = Some (ctx_organization_id ctx) \<and>
    lg_team_id l = Some (ctx_team_id ctx) \<and> (lg_status l = ''success'' \<longleftrightarrow> (\<exists>r. res = Inr r)) \<and>
    (\<forall>r. res = Inr r \<longrightarrow> lg_http_status_code l = 200 \<and> lg_error_code l = None) \<and>
    (\<forall>e. res = Inl e \<and> plain_status e \<longrightarrow> lg_http_status_code l = chat_status rid res \<and>
       (handler_for e \<notin> {Some ExceptionC, Some HTTPExceptionC} \<longrightarrow>
          lg_error_code l = Some (r_code (handle_exception rid e))))"
  using assms
proof (cases rule: chat_cases)
  case (Blocked run)
  then show ?thesis
    by (auto simp: build_error_log_def chat_status_def)
next
  case Ran
  show ?thesis
  proof (cases res)
    case (Inl e)
    then show ?thesis
      using Ran(3) [OF Inl] failure_log_status [of e rid ctx trace] failure_log_code [of e rid ctx trace]
      by (auto simp: chat_status_def)
  next
    case (Inr r)
    then show ?thesis
      using Ran(4) [OF Inr] by (auto simp: build_success_log_def Let_def)
  qed
qed

lemma row_states_charge:
  assumes "undisturbed (injected d) ctx g" "wf_request q"
    and "chat_completions d True trace policy q rid ctx g = (res, entry, g')"
  shows "\<exists>l cost. entry = Some l \<and> lg_actual_cost l = (if cost = 0 then None else Some (py_round cost 8)) \<and>
    gw_budgets g' (ctx_team_id ctx) =
      (if lg_status l = ''success'' then map_option (charging cost) (gw_budgets g (ctx_team_id ctx))
       else gw_budgets g (ctx_team_id ctx)) \<and>
    (lg_status l \<noteq> ''success'' \<longrightarrow> cost = 0) \<and>
    (\<forall>r. res = Inr r \<longrightarrow> lg_provider l = m_selected_provider (p_metadata r) \<and>
       lg_model l = m_selected_model (p_metadata r) \<and> lg_total_tokens l = total_tokens (p_usage r))"
  using assms(3)
proof (cases rule: chat_cases)
  case (Blocked run)
  then show ?thesis
    by (intro exI conjI) (auto simp: build_error_log_def)
next
  case Ran
  show ?thesis
  proof (cases res)
    case (Inl e)
    have "gw_budgets g' (ctx_team_id ctx) = gw_budgets g (ctx_team_id ctx)"
      using failure_free [OF assms(1,2)] Ran(2) Inl by blast
    then show ?thesis
      using Ran(3) [OF Inl] Inl
      by (intro exI [of _ "failure_log rid ctx trace e"] exI [of _ 0]) (simp add: failure_log_def build_error_log_def)
  next
    case (Inr r)
    obtain cost est p m where "gw_budgets g' (ctx_team_id ctx) = map_option (charging cost) (gw_budgets g (ctx_team_id ctx))"
      "m_actual_cost (p_metadata r) = cost_field cost"
      using served_charge [OF assms(1,2)] Ran(2) Inr by blast
    then show ?thesis
      using Ran(4) [OF Inr] Inr by (auto simp: build_success_log_def Let_def cost_field_def intro!: exI [of _ cost])
  qed
qed

text \<open>
  What a row reports as cost is what the team paid: the row of a served request carries the cost
  charged to the team's budget, rounded as in the response, and names the provider and model of the
  response; a refused or failed request leaves the budget as it was, and its row carries no cost.
\<close>

theorem log_agrees_with_ledger:
  assumes "undisturbed (injected d) ctx g" "wf_request q"
    and "chat_completions d True trace policy q rid ctx g = (res, entry, g')"
  shows "\<exists>l cost. entry = Some l \<and> lg_actual_cost l = (if cost = 0 then None else Some (py_round cost 8)) \<and>
    gw_budgets g' (ctx_team_id ctx) =
      (if lg_status l = ''success'' then map_option (charging cost) (gw_budgets g (ctx_team_id ctx))
       else gw_budgets g (ctx_team_id ctx)) \<and>
    (lg_status l \<noteq> ''success'' \<longrightarrow> cost = 0) \<and>
    (\<forall>r. res = Inr r \<longrightarrow> lg_provider l = m_selected_provider (p_metadata r) \<and>
       lg_model l = m_selected_model (p_metadata r) \<and> lg_total_tokens l = total_tokens (p_usage r))"
  by (rule row_states_charge [OF assms])

text \<open>
  The overrides the administrators store are never read: the handler behaves the same whatever they are.
\<close>

lemma injected_overrides: "injected (d\<lparr>dp_team_limits := v\<rparr>) = injected d"
  by (cases d) (simp add: injected_def)

theorem team_overrides_ignored:
  "chat_completions (d\<lparr>dp_team_limits := Some overrides\<rparr>) logs trace policy q rid ctx g =
   chat_completions (d\<lparr>dp_team_limits := None\<rparr>) logs trace policy q rid ctx g"
  unfolding chat_completions_def injected_overrides ..

text \<open>A request some guardrail warned about and that then fails is logged as if none had.\<close>

theorem warning_lost_on_failure:
  assumes "chat_completions d True trace policy q rid ctx g = (Inl e, Some l, g')" "lg_status l \<noteq> ''guardrail_blocked''"
  shows "lg_guardrails_triggered l = None \<and> lg_guardrail_action l = None"
  using assms(1)
proof (cases rule: chat_cases)
  case (Blocked run)
  then show ?thesis
    using assms(2) by (simp add: build_error_log_def)
next
  case Ran
  then show ?thesis
    by (simp add: failure_log_def build_error_log_def)
qed

section \<open>Witnesses\<close>

lemma default_not_blocked: "\<not> is_blocked (run_guardrails q (rp_guardrails global_default_policy))"
  by (simp add: run_blocks global_default_policy_def no_guardrails_def oversized_def)

lemma example_injected [simp]: "injected (example_deps chat) = example_deps chat"
  by (simp add: injected_def example_deps_def example_settings_def)

lemma example_undisturbed_injected:
  "undisturbed (injected (example_deps chat)) example_context (example_gateway example_budget fresh_state)"
  by (simp add: example_undisturbed)

lemma example_chat:
  "\<exists>r entry g'. chat_completions (example_deps (\<lambda>n p q. Inr answer)) logs None global_default_policy manual_request
      ''rid'' example_context (example_gateway example_budget fresh_state) = (Inr r, entry, g')"
  using example_served [of True] default_not_blocked
  by (auto simp: chat_completions_def example_default_policy Let_def)


theorem logged_outcome_matches_response_witness:
  "\<exists>r l g'. chat_completions (example_deps (\<lambda>n p q. Inr answer)) True None global_default_policy manual_request
      ''rid'' example_context (example_gateway example_budget fresh_state) = (Inr r, Some l, g') \<and>
    lg_status l = ''success'' \<and> lg_http_status_code l = 200"
proof -
  obtain r entry g' where run: "chat_completions (example_deps (\<lambda>n p q. Inr answer)) True None global_default_policy
      manual_request ''rid'' example_context (example_gateway example_budget fresh_state) = (Inr r, entry, g')"
    using example_chat by blast
  then show ?thesis
    using logged_outcome_matches_response [OF run] by auto
qed

theorem log_agrees_with_ledger_witness:
  "\<exists>r l g' cost. chat_completions (example_deps (\<lambda>n p q. Inr answer)) True None global_default_policy manual_request
      ''rid'' example_context (example_gateway example_budget fresh_state) = (Inr r, Some l, g') \<and>
    lg_actual_cost l = (if cost = 0 then None else Some (py_round cost 8)) \<and>
    lg_model l = m_selected_model (p_metadata r)"
proof -
  obtain r entry g' where run: "chat_completions (example_deps (\<lambda>n p q. Inr answer)) True None global_default_policy
      manual_request ''rid'' example_context (example_gateway example_budget fresh_state) = (Inr r, entry, g')"
    using example_chat by blast
  from log_agrees_with_ledger [OF example_undisturbed_injected manual_request_wf run] obtain l cost where
    "entry = Some l" "lg_actual_cost l = (if cost = 0 then None else Some (py_round cost 8))"
    "lg_model l = m_selected_model (p_metadata r)"
    by blast
  with run show ?thesis by blast
qed

end
