(* ===== verification/Analytics.thy ===== *)
theory Analytics
  imports ChatEndpoint Accounts
begin

text \<open>
  Analytics over the request log (\<open>app/observability/analytics_service.py\<close>, \<open>analytics_schemas.py\<close> and
  the handlers of \<open>app/api/v1/endpoints/analytics.py\<close>). A query is a function of the table, given as the
  list of its rows in the order the database meets them: rows that an \<open>ORDER BY\<close> does not separate stay
  in that order. \<open>percentile_cont\<close>, \<open>date_trunc\<close> and the collation of strings are the database's, and
  are the fields of \<open>sql_env\<close>.
\<close>

record sql_env =
  sq_percentile :: "real \<Rightarrow> real list \<Rightarrow> real"
  sq_trunc :: "string \<Rightarrow> datetime \<Rightarrow> datetime"
  sq_rank :: "string option \<Rightarrow> int"

section \<open>Filters\<close>

record log_filter =
  fi_organization :: string
  fi_team :: "string option"
  fi_provider :: "string option"
  fi_model :: "string option"
  fi_status :: "string option"
  fi_request_id :: "string option"
  fi_from :: "datetime option"
  fi_to :: "datetime option"

text \<open>\<open>if v: where(column == v)\<close>\<close>

definition eq_filter :: "string option \<Rightarrow> string option \<Rightarrow> bool" where
  "eq_filter v col = (case v of None \<Rightarrow> True | Some s \<Rightarrow> s = [] \<or> col = Some s)"

definition apply_common_filters :: "log_filter \<Rightarrow> log_row \<Rightarrow> bool" where
  "apply_common_filters f r =
     (let l = row_log r in
      lg_organization_id l = Some (fi_organization f) \<and> eq_filter (fi_team f) (lg_team_id l) \<and>
      eq_filter (fi_provider f) (lg_provider l) \<and> eq_filter (fi_model f) (lg_model l) \<and>
      eq_filter (fi_status f) (Some (lg_status l)) \<and> eq_filter (fi_request_id f) (Some (lg_request_id l)) \<and>
      (case fi_from f of None \<Rightarrow> True | Some t \<Rightarrow> t \<le> row_created_at r) \<and>
      (case fi_to f of None \<Rightarrow> True | Some t \<Rightarrow> row_created_at r < t))"

section \<open>Aggregation\<close>

definition sort_desc :: "('a \<Rightarrow> 'k::linorder) \<Rightarrow> 'a list \<Rightarrow> 'a list" where
  "sort_desc f xs = rev (sort_key f (rev xs))"

text \<open>\<open>GROUP BY\<close>: the keys, with the rows of each\<close>

definition group_by :: "('a \<Rightarrow> 'k) \<Rightarrow> 'a list \<Rightarrow> ('k \<times> 'a list) list" where
  "group_by f xs = map (\<lambda>k. (k, filter (\<lambda>x. f x = k) xs)) (remdups (map f xs))"

text \<open>\<open>SUM\<close> and \<open>AVG\<close> skip nulls and are null without a value\<close>

definition sql_sum :: "'a::monoid_add option list \<Rightarrow> 'a option" where
  "sql_sum xs = (let vs = map the (filter (\<lambda>v. v \<noteq> None) xs) in if vs = [] then None else Some (sum_list vs))"

definition sql_avg :: "real option list \<Rightarrow> real option" where
  "sql_avg xs = (let vs = map the (filter (\<lambda>v. v \<noteq> None) xs) in
     if vs = [] then None else Some (sum_list vs / real (length vs)))"

definition nulls_last_desc :: "real option \<Rightarrow> int \<times> real" where
  "nulls_last_desc v = (case v of None \<Rightarrow> (1, 0) | Some x \<Rightarrow> (0, - x))"

text \<open>\<open>round(float(v), 2) if v else None\<close>\<close>

definition shown :: "real option \<Rightarrow> real option" where
  "shown v = (case v of None \<Rightarrow> None | Some x \<Rightarrow> if x = 0 then None else Some (py_round x 2))"

section \<open>Service\<close>

definition max_page_size :: int where
  "max_page_size = 200"

definition list_requests :: "log_filter \<Rightarrow> int \<Rightarrow> int \<Rightarrow> log_table \<Rightarrow> log_row list \<times> int" where
  "list_requests f page page_size tbl =
     (let size = min page_size max_page_size; offset = (page - 1) * size;
          base = filter (apply_common_filters f) tbl
      in (take (nat size) (drop (nat offset) (sort_desc row_created_at base)), int (length base)))"

definition group_column :: "string \<Rightarrow> request_log \<Rightarrow> string option" where
  "group_column g = (if g = ''model'' then lg_model else if g = ''team'' then lg_team_id else lg_provider)"

record cost_group =
  co_key :: string
  co_cost :: real
  co_requests :: int
  co_tokens :: int

definition aggregate_costs :: "log_filter \<Rightarrow> string \<Rightarrow> log_table \<Rightarrow> cost_group list" where
  "aggregate_costs f g tbl =
     (let groups = group_by (\<lambda>r. group_column g (row_log r)) (filter (apply_common_filters f) tbl);
          cost = (\<lambda>rs. sql_sum (map (\<lambda>r. lg_actual_cost (row_log r)) rs))
      in map (\<lambda>(k, rs). \<lparr>co_key = or_name k ''unknown'', co_cost = or_else (cost rs) 0, co_requests = int (length rs),
           co_tokens = or_else (sql_sum (map (\<lambda>r. lg_total_tokens (row_log r)) rs)) 0\<rparr>)
         (sort_key (\<lambda>(k, rs). nulls_last_desc (cost rs)) groups))"

record latency_group =
  la_provider :: "string option"
  la_requests :: int
  la_avg :: "real option"
  la_p50 :: "real option"
  la_p95 :: "real option"
  la_p99 :: "real option"

definition aggregate_latency :: "sql_env \<Rightarrow> log_filter \<Rightarrow> log_table \<Rightarrow> latency_group list" where
  "aggregate_latency sql f tbl =
     (let groups = group_by (\<lambda>r. lg_provider (row_log r))
            (filter (\<lambda>r. lg_latency_ms (row_log r) \<noteq> None \<and> apply_common_filters f r) tbl)
      in map (\<lambda>(k, rs). let ms = map (\<lambda>r. the (lg_latency_ms (row_log r))) rs; pct = (\<lambda>p. shown (Some (sq_percentile sql p ms)))
            in \<lparr>la_provider = k, la_requests = int (length rs),
              la_avg = shown (sql_avg (map (\<lambda>r. lg_latency_ms (row_log r)) rs)),
              la_p50 = pct (50/100), la_p95 = pct (95/100), la_p99 = pct (99/100)\<rparr>)
         (sort_key (\<lambda>(k, rs). sq_rank sql k) groups))"

record error_group =
  er_provider :: "string option"
  er_code :: "string option"
  er_count :: int

definition aggregate_errors :: "log_filter \<Rightarrow> log_table \<Rightarrow> error_group list" where
  "aggregate_errors f tbl =
     (let groups = group_by (\<lambda>r. (lg_provider (row_log r), lg_error_code (row_log r)))
            (filter (\<lambda>r. lg_error_code (row_log r) \<noteq> None \<and> apply_common_filters f r) tbl)
      in map (\<lambda>((p, c), rs). \<lparr>er_provider = p, er_code = c, er_count = int (length rs)\<rparr>)
         (sort_desc (\<lambda>(k, rs). length rs) groups))"

record fallback_group =
  fb_from :: "string option"
  fb_to :: "string option"
  fb_count :: int

definition aggregate_fallbacks :: "log_filter \<Rightarrow> log_table \<Rightarrow> fallback_group list" where
  "aggregate_fallbacks f tbl =
     (let groups = group_by (\<lambda>r. (lg_failover_from (row_log r), lg_failover_to (row_log r)))
            (filter (\<lambda>r. lg_failover_triggered (row_log r) \<and> apply_common_filters f r) tbl)
      in map (\<lambda>((a, b), rs). \<lparr>fb_from = a, fb_to = b, fb_count = int (length rs)\<rparr>)
         (sort_desc (\<lambda>(k, rs). length rs) groups))"

record budget_event =
  be_action :: "string option"
  be_policy :: "string option"
  be_count :: int

definition aggregate_budget_events :: "log_filter \<Rightarrow> string option \<Rightarrow> log_table \<Rightarrow> budget_event list" where
  "aggregate_budget_events f policy tbl =
     (let groups = group_by (\<lambda>r. (lg_budget_action (row_log r), lg_budget_policy (row_log r)))
            (filter (\<lambda>r. lg_budget_action (row_log r) \<noteq> None \<and> lg_budget_action (row_log r) \<noteq> Some ''none'' \<and>
               apply_common_filters f r \<and> eq_filter (map_option upper policy) (lg_budget_policy (row_log r))) tbl)
      in map (\<lambda>((a, p), rs). \<lparr>be_action = a, be_policy = p, be_count = int (length rs)\<rparr>)
         (sort_desc (\<lambda>(k, rs). length rs) groups))"

record time_bucket =
  tb_timestamp :: datetime
  tb_requests :: int
  tb_successes :: int
  tb_errors :: int
  tb_cost :: real
  tb_latency :: "real option"

definition timeseries :: "sql_env \<Rightarrow> log_filter \<Rightarrow> string \<Rightarrow> log_table \<Rightarrow> time_bucket list" where
  "timeseries sql f bucket tbl =
     (let b = (if List.member [''hour'', ''day'', ''week''] bucket then bucket else ''day'');
          groups = group_by (\<lambda>r. sq_trunc sql b (row_created_at r)) (filter (apply_common_filters f) tbl)
      in map (\<lambda>(ts, rs). \<lparr>tb_timestamp = ts, tb_requests = int (length rs),
             tb_successes = sum_list (map (\<lambda>r. if lg_status (row_log r) = ''success'' then 1 else 0) rs),
             tb_errors = sum_list (map (\<lambda>r. if lg_status (row_log r) = ''failure'' then 1 else 0) rs),
             tb_cost = or_else (sql_sum (map (\<lambda>r. lg_actual_cost (row_log r)) rs)) 0,
             tb_latency = shown (sql_avg (map (\<lambda>r. lg_latency_ms (row_log r)) rs))\<rparr>)
         (sort_key fst groups))"

section \<open>Handlers\<close>

text \<open>One row as the API shows it: without the cache, experiment and guardrail columns\<close>

record log_item =
  it_request_id :: string
  it_team_id :: "string option"
  it_organization_id :: "string option"
  it_provider :: "string option"
  it_model :: "string option"
  it_routing_mode :: "string option"
  it_status :: string
  it_http_status_code :: int
  it_latency_ms :: "real option"
  it_tokens :: "int option \<times> int option \<times> int option"
  it_estimated_cost :: "real option"
  it_actual_cost :: "real option"
  it_retry_count :: int
  it_failover_triggered :: bool
  it_failover :: "string option \<times> string option"
  it_circuit_breaker_state :: "string option"
  it_budget_policy_applied :: "string option"
  it_budget_action :: "string option"
  it_error_code :: "string option"
  it_trace_id :: "string option"
  it_created_at :: datetime

definition to_log_item :: "log_row \<Rightarrow> log_item" where
  "to_log_item r = (let l = row_log r in
     \<lparr>it_request_id = lg_request_id l, it_team_id = lg_team_id l, it_organization_id = lg_organization_id l,
      it_provider = lg_provider l, it_model = lg_model l, it_routing_mode = lg_routing_mode l,
      it_status = lg_status l, it_http_status_code = lg_http_status_code l, it_latency_ms = lg_latency_ms l,
      it_tokens = (lg_prompt_tokens l, lg_completion_tokens l, lg_total_tokens l),
      it_estimated_cost = lg_estimated_cost l, it_actual_cost = lg_actual_cost l,
      it_retry_count = lg_retry_count l, it_failover_triggered = lg_failover_triggered l,
      it_failover = (lg_failover_from l, lg_failover_to l),
      it_circuit_breaker_state = lg_circuit_breaker_state l, it_budget_policy_applied = lg_budget_policy l,
      it_budget_action = lg_budget_action l, it_error_code = lg_error_code l, it_trace_id = lg_trace_id l,
      it_created_at = row_created_at r\<rparr>)"

text \<open>The query parameters; a handler that does not declare one does not pass it on.\<close>

record query =
  qy_team :: "string option"
  qy_provider :: "string option"
  qy_model :: "string option"
  qy_status :: "string option"
  qy_request_id :: "string option"
  qy_from :: "datetime option"
  qy_to :: "datetime option"

definition scoped :: "request_context \<Rightarrow> query \<Rightarrow> log_filter" where
  "scoped ctx q = \<lparr>fi_organization = ctx_organization_id ctx, fi_team = qy_team q, fi_provider = None, fi_model = None,
     fi_status = None, fi_request_id = None, fi_from = qy_from q, fi_to = qy_to q\<rparr>"

definition as_admin :: "exn + request_context \<Rightarrow> (request_context \<Rightarrow> 'a) \<Rightarrow> exn + 'a" where
  "as_admin who f = (case require_admin who of Inl e \<Rightarrow> Inl e | Inr ctx \<Rightarrow> Inr (f ctx))"

definition get_requests ::
  "exn + request_context \<Rightarrow> query \<Rightarrow> int \<Rightarrow> int \<Rightarrow> log_table \<Rightarrow> exn + (log_item list \<times> int \<times> int \<times> int)" where
  "get_requests who q page page_size tbl = (case require_admin who of
     Inl e \<Rightarrow> Inl e
   | Inr ctx \<Rightarrow> if \<not> (1 \<le> page \<and> 1 \<le> page_size \<and> page_size \<le> max_page_size)
       then Inl (RequestValidationError [([''query''], ''value_error'')])
       else (case list_requests ((scoped ctx q)\<lparr>fi_provider := qy_provider q, fi_model := qy_model q,
               fi_status := qy_status q, fi_request_id := qy_request_id q\<rparr>) page page_size tbl of
           (rows, n) \<Rightarrow> Inr (map to_log_item rows, page, page_size, n)))"

definition get_costs ::
  "exn + request_context \<Rightarrow> query \<Rightarrow> string \<Rightarrow> log_table \<Rightarrow> exn + string \<times> cost_group list" where
  "get_costs who q g tbl = as_admin who (\<lambda>ctx. (g, aggregate_costs (scoped ctx q) g tbl))"

definition get_latency :: "sql_env \<Rightarrow> exn + request_context \<Rightarrow> query \<Rightarrow> log_table \<Rightarrow> exn + latency_group list" where
  "get_latency sql who q tbl =
     as_admin who (\<lambda>ctx. aggregate_latency sql ((scoped ctx q)\<lparr>fi_provider := qy_provider q\<rparr>) tbl)"

definition get_errors :: "exn + request_context \<Rightarrow> query \<Rightarrow> log_table \<Rightarrow> exn + error_group list" where
  "get_errors who q tbl = as_admin who (\<lambda>ctx. aggregate_errors ((scoped ctx q)\<lparr>fi_provider := qy_provider q\<rparr>) tbl)"

definition get_fallbacks :: "exn + request_context \<Rightarrow> query \<Rightarrow> log_table \<Rightarrow> exn + fallback_group list" where
  "get_fallbacks who q tbl = as_admin who (\<lambda>ctx. aggregate_fallbacks (scoped ctx q) tbl)"

definition get_budget_events ::
  "exn + request_context \<Rightarrow> query \<Rightarrow> string option \<Rightarrow> log_table \<Rightarrow> exn + budget_event list" where
  "get_budget_events who q policy tbl = as_admin who (\<lambda>ctx. aggregate_budget_events (scoped ctx q) policy tbl)"

definition get_timeseries ::
  "sql_env \<Rightarrow> exn + request_context \<Rightarrow> query \<Rightarrow> string \<Rightarrow> log_table \<Rightarrow> exn + string \<times> time_bucket list" where
  "get_timeseries sql who q bucket tbl = as_admin who (\<lambda>ctx. (bucket, timeseries sql (scoped ctx q) bucket tbl))"

section \<open>Facts\<close>

lemma mset_sort_desc [simp]: "mset (sort_desc f xs) = mset xs"
  by (simp add: sort_desc_def)

lemma length_sort_desc [simp]: "length (sort_desc f xs) = length xs"
  by (simp add: sort_desc_def)

lemma sorted_sort_desc: "sorted_wrt (\<lambda>x y. f y \<le> f x) (sort_desc f xs)"
proof -
  have "sorted_wrt (\<lambda>x y. f x \<le> f y) (sort_key f (rev xs))"
    using sorted_sort_key [of f "rev xs"] by (simp add: sorted_wrt_map)
  then show ?thesis
    by (simp add: sort_desc_def sorted_wrt_rev)
qed

text \<open>Summing over groups is summing over rows.\<close>

lemma sum_over_keys:
  fixes g :: "'a \<Rightarrow> 'b::comm_monoid_add"
  assumes "distinct ks" "\<forall>x \<in> set xs. f x \<in> set ks"
  shows "sum_list (map (\<lambda>k. sum_list (map g (filter (\<lambda>x. f x = k) xs))) ks) = sum_list (map g xs)"
  using assms(2)
proof (induction xs)
  case Nil
  then show ?case by (induction ks) simp_all
next
  case (Cons x xs)
  have "sum_list (map (\<lambda>k. sum_list (map g (filter (\<lambda>y. f y = k) (x # xs)))) ks) =
      sum_list (map (\<lambda>k. (if f x = k then g x else 0) + sum_list (map g (filter (\<lambda>y. f y = k) xs))) ks)"
    by (rule arg_cong [where f = sum_list]) (auto intro: map_cong)
  also have "\<dots> = sum_list (map (\<lambda>k. if f x = k then g x else 0) ks) +
      sum_list (map (\<lambda>k. sum_list (map g (filter (\<lambda>y. f y = k) xs))) ks)"
    by (rule sum_list_addf)
  also have "sum_list (map (\<lambda>k. if f x = k then g x else 0) ks) = g x"
    using assms(1) Cons.prems
    by (simp add: sum_list_distinct_conv_sum_set)
  finally show ?case
    using Cons by simp
qed

lemma sum_over_groups:
  fixes g :: "'a \<Rightarrow> 'b::comm_monoid_add"
  shows "sum_list (map (\<lambda>(k, rs). sum_list (map g rs)) (group_by f xs)) = sum_list (map g xs)"
  using sum_over_keys [of "remdups (map f xs)" xs f g]
  by (simp add: group_by_def comp_def)

lemma sum_list_mset: "mset xs = mset ys \<Longrightarrow> sum_list (map f xs) = sum_list (map f ys)"
  for f :: "'a \<Rightarrow> 'b::comm_monoid_add"
  by (metis mset_map sum_mset_sum_list)

lemma sql_sum_total: "or_else (sql_sum xs) 0 = sum_list (map (\<lambda>v. case v of None \<Rightarrow> 0 | Some x \<Rightarrow> x) xs)"
  for xs :: "'a::comm_monoid_add option list"
proof -
  have "sum_list (map the (filter (\<lambda>v. v \<noteq> None) xs)) = sum_list (map (\<lambda>v. case v of None \<Rightarrow> 0 | Some x \<Rightarrow> x) xs)"
    by (induction xs) (auto split: option.splits)
  moreover have "sum_list (map (\<lambda>v. case v of None \<Rightarrow> 0 | Some x \<Rightarrow> x) xs) = 0" if "filter (\<lambda>v. v \<noteq> None) xs = []"
    using that by (induction xs) (auto split: if_splits)
  ultimately show ?thesis
    by (auto simp: sql_sum_def or_else_def Let_def)
qed

lemma groups_count:
  fixes f :: "'a \<Rightarrow> 'k"
  shows "sum_list (map (\<lambda>(k, rs). int (length rs)) (group_by f xs)) = int (length xs)"
proof -
  have "int (length ys) = sum_list (map (\<lambda>x. 1) ys)" for ys :: "'a list"
    by (induction ys) simp_all
  then show ?thesis
    by (simp only: sum_over_groups)
qed

lemma groups_sum:
  fixes c :: "'a \<Rightarrow> 'b::comm_monoid_add option"
  shows "sum_list (map (\<lambda>(k, rs). or_else (sql_sum (map c rs)) 0) (group_by f xs)) = sum_list (map (\<lambda>x. or_else (c x) 0) xs)"
proof -
  have "(\<lambda>v. case v of None \<Rightarrow> 0 | Some x \<Rightarrow> x) = (\<lambda>v::'b option. or_else v 0)"
    by (auto simp: or_else_def)
  then have "or_else (sql_sum (map c rs)) 0 = sum_list (map (\<lambda>x. or_else (c x) 0) rs)" for rs
    by (simp add: sql_sum_total comp_def)
  then show ?thesis
    by (simp only: sum_over_groups)
qed

section \<open>Properties\<close>

definition own_rows :: "string \<Rightarrow> log_table \<Rightarrow> log_table" where
  "own_rows org = filter (\<lambda>r. lg_organization_id (row_log r) = Some org)"

lemma filter_own:
  "(\<And>r. P r \<Longrightarrow> apply_common_filters f r) \<Longrightarrow> filter P (own_rows (fi_organization f) tbl) = filter P tbl"
  by (induction tbl) (auto simp: own_rows_def apply_common_filters_def Let_def)

lemmas filters_own = filter_own [of "apply_common_filters f" f for f, simplified]
  filter_own [of "\<lambda>r. A r \<and> apply_common_filters f r" f for A f, simplified]
  filter_own [of "\<lambda>r. A r \<and> B r \<and> apply_common_filters f r \<and> C r" f for A B C f, simplified]

lemma aggregates_own:
  assumes "fi_organization f = org"
  shows "list_requests f page n (own_rows org tbl) = list_requests f page n tbl"
    "aggregate_costs f g (own_rows org tbl) = aggregate_costs f g tbl"
    "aggregate_latency sql f (own_rows org tbl) = aggregate_latency sql f tbl"
    "aggregate_errors f (own_rows org tbl) = aggregate_errors f tbl"
    "aggregate_fallbacks f (own_rows org tbl) = aggregate_fallbacks f tbl"
    "aggregate_budget_events f policy (own_rows org tbl) = aggregate_budget_events f policy tbl"
    "timeseries sql f b (own_rows org tbl) = timeseries sql f b tbl"
  unfolding assms [symmetric] list_requests_def aggregate_costs_def aggregate_latency_def aggregate_errors_def
    aggregate_fallbacks_def aggregate_budget_events_def timeseries_def
  by (simp_all only: filters_own)

text \<open>
  C33: an administrator sees the log of its own organization only: the answer of each of the seven
  endpoints is what it would be if the rows of all other organizations were not in the table, whatever
  the query parameters.
\<close>

theorem analytics_tenant_scoped:
  "let own = own_rows (ctx_organization_id ctx) tbl; who = Inr ctx in
    get_requests who q page per_page tbl = get_requests who q page per_page own \<and>
    get_costs who q g tbl = get_costs who q g own \<and>
    get_latency sql who q tbl = get_latency sql who q own \<and>
    get_errors who q tbl = get_errors who q own \<and>
    get_fallbacks who q tbl = get_fallbacks who q own \<and>
    get_budget_events who q policy tbl = get_budget_events who q policy own \<and>
    get_timeseries sql who q bucket tbl = get_timeseries sql who q bucket own"
  by (simp add: Let_def get_requests_def get_costs_def get_latency_def get_errors_def get_fallbacks_def
      get_budget_events_def get_timeseries_def as_admin_def require_admin_def scoped_def aggregates_own)

lemma pages: "concat (map (\<lambda>i. take s (drop (i * s) xs)) [0..<n]) = take (n * s) xs"
proof (induction n)
  case (Suc n)
  then show ?case
    by (simp add: take_add add.commute [of s])
qed simp


text \<open>
  The aggregates account for every matching row exactly once: over the groups of the cost report,
  by whatever column, and over the buckets of the time series, the request counts add up to the number
  of rows, the costs to the costs recorded, and the tokens and successes to theirs.
\<close>

theorem aggregates_account_for_every_row:
  "let rows = map row_log (filter (apply_common_filters f) tbl);
      cost = sum_list (map (\<lambda>l. or_else (lg_actual_cost l) 0) rows);
      groups = aggregate_costs f g tbl; buckets = timeseries sql f b tbl in
    sum_list (map co_requests groups) = int (length rows) \<and>
    sum_list (map co_cost groups) = cost \<and>
    sum_list (map co_tokens groups) = sum_list (map (\<lambda>l. or_else (lg_total_tokens l) 0) rows) \<and>
    sum_list (map tb_requests buckets) = int (length rows) \<and>
    sum_list (map tb_cost buckets) = cost \<and>
    sum_list (map tb_successes buckets) = int (length (filter (\<lambda>l. lg_status l = ''success'') rows))"
proof -
  have sorted: "sum_list (map F (sort_key h (group_by k xs))) = sum_list (map F (group_by k xs))"
    for F :: "'k \<times> log_row list \<Rightarrow> 'b::comm_monoid_add" and h :: "'k \<times> log_row list \<Rightarrow> 'c::linorder" and k xs
    by (rule sum_list_mset) simp
  show ?thesis
    by (simp add: Let_def aggregate_costs_def timeseries_def comp_def case_prod_unfold sorted
        groups_count [unfolded case_prod_unfold] groups_sum [unfolded case_prod_unfold]
        sum_over_groups [unfolded case_prod_unfold])
      (induction tbl; simp)
qed

text \<open>
  The rows of failed requests carry neither the provider nor the budget policy that was in force, so
  the reports that are filtered by them never show a failure: such a row changes neither the error report
  of a provider nor the count of budget events under a policy, blocked requests included.
\<close>

theorem failed_rows_escape_filters:
  assumes "chat_completions d True trace policy q rid ctx g = (Inl e, Some l, g')" "row_log r = l"
    and "wanted = Some w" "w \<noteq> []"
  shows "aggregate_budget_events f wanted (us @ r # vs) = aggregate_budget_events f wanted (us @ vs) \<and>
    (fi_provider f = wanted \<longrightarrow> aggregate_errors f (us @ r # vs) = aggregate_errors f (us @ vs))"
proof -
  have "lg_provider l = None \<and> lg_budget_policy l = None"
    using assms(1) by (cases rule: chat_cases) (simp_all add: failure_log_def build_error_log_def)
  then show ?thesis
    using assms(2-4)
    by (simp add: aggregate_budget_events_def aggregate_errors_def apply_common_filters_def eq_filter_def upper_def Let_def)
qed

section \<open>Witnesses\<close>

definition example_row :: "string \<Rightarrow> log_row" where
  "example_row i = \<lparr>row_id = i, row_created_at = new_year,
     row_log = build_error_log i (Some example_context) ''failure'' 500 ''E'' None None None None None None None\<rparr>"

definition all_rows :: log_filter where
  "all_rows = \<lparr>fi_organization = ''o'', fi_team = None, fi_provider = None, fi_model = None, fi_status = None,
     fi_request_id = None, fi_from = None, fi_to = None\<rparr>"


theorem failed_rows_escape_filters_witness:
  "\<exists>e l. chat_completions (example_deps (\<lambda>n p q. Inr answer)) True None
      (global_default_policy\<lparr>rp_guardrails := no_guardrails\<lparr>max_prompt_length := Some 1\<rparr>\<rparr>) manual_request ''rid''
      example_context (example_gateway example_budget fresh_state) =
      (Inl e, Some l, example_gateway example_budget fresh_state) \<and>
    aggregate_budget_events all_rows (Some ''BLOCK'') [(example_row ''a'')\<lparr>row_log := l\<rparr>] = []"
proof -
  let ?policy = "global_default_policy\<lparr>rp_guardrails := no_guardrails\<lparr>max_prompt_length := Some 1\<rparr>\<rparr>"
  have "is_blocked (run_guardrails manual_request (rp_guardrails ?policy))"
    by (simp add: run_blocks oversized_def build_prompt_def manual_request_def example_request_def)
  then obtain e l where run: "chat_completions (example_deps (\<lambda>n p q. Inr answer)) True None ?policy manual_request ''rid''
      example_context (example_gateway example_budget fresh_state) = (Inl e, Some l, example_gateway example_budget fresh_state)"
    by (auto simp: chat_completions_def Let_def)
  have "aggregate_budget_events all_rows (Some ''BLOCK'') [] = []"
    by (simp add: aggregate_budget_events_def group_by_def sort_desc_def)
  then show ?thesis
    using failed_rows_escape_filters [OF run, of "(example_row ''a'')\<lparr>row_log := l\<rparr>" "Some ''BLOCK''" "''BLOCK''" all_rows "[]" "[]"]
      run by auto
qed

end
