(* ===== verification/Gateway.thy ===== *)
theory Gateway
  imports Tenancy Server ChatEndpoint Analytics
begin

text \<open>
  The components put together: one state that holds every table of the database and the state of the
  process, and one step that serves a request of any kind as its endpoint does. Requests follow one
  another; what overlapping ones do to a budget is the subject of \<open>Budget\<close>, and what other requests do to
  breakers and statistics while a provider answers is in the chat request's own dependencies.
\<close>

section \<open>State\<close>

record 'r installation =
  sys_accounts :: auth_db
  sys_models :: registry_table
  sys_limits :: limits_table
  sys_policies :: policy_table
  sys_log :: log_table
  sys_gateway :: "'r gateway"

definition budgets_of :: "'r installation \<Rightarrow> budget_table" where
  "budgets_of sys = gw_budgets (sys_gateway sys)"

definition set_budgets :: "budget_table \<Rightarrow> 'r installation \<Rightarrow> 'r installation" where
  "set_budgets tbl sys = sys\<lparr>sys_gateway := (sys_gateway sys)\<lparr>gw_budgets := tbl\<rparr>\<rparr>"

text \<open>The registry's table with the catalog the process shares\<close>

definition models_of :: "'r installation \<Rightarrow> models_api" where
  "models_of sys = \<lparr>a_rows = sys_models sys, a_catalog = s_catalog (x_shared (gw_exec (sys_gateway sys)))\<rparr>"

definition set_models :: "models_api \<Rightarrow> 'r installation \<Rightarrow> 'r installation" where
  "set_models m sys = (let g = sys_gateway sys; x = gw_exec g in
     sys\<lparr>sys_models := a_rows m,
       sys_gateway := g\<lparr>gw_exec := x\<lparr>x_shared := (x_shared x)\<lparr>s_catalog := a_catalog m\<rparr>\<rparr>\<rparr>\<rparr>)"

text \<open>The (team, organization) pairs of the team table\<close>

definition team_pairs :: "auth_db \<Rightarrow> (string \<times> string) list" where
  "team_pairs db = map (\<lambda>t. (tm_id t, tm_organization_id t)) (db_teams db)"

section \<open>Requests\<close>

datatype api_call =
    Found bootstrap_body
  | NewOrganization named_create
  | NewTeam string named_create
  | NewKey string key_create
  | RevokeKeyOf string string
  | CreateBudget string budget_create
  | UpdateBudget string budget_update
  | DeleteBudget string
  | SetLimits string "int option" "int option"
  | DeleteLimits string
  | PutPolicy string "string + team_policy_input"
  | DeletePolicy string
  | CreateModel registry_create
  | UpdateModel string registry_update
  | DeleteModel string
  | ChatCompletion chat_request

text \<open>
  What a request brings besides: its credentials, the time, new ids and a token; for a chat request its
  dependencies, request id and trace, what reading the policy and writing the row raise; and whether
  the task that stamps the key's last use has run.
\<close>

record 'r arrival =
  av_credentials :: "string option"
  av_draw :: draw
  av_deps :: "'r deps"
  av_request_id :: string
  av_trace :: "string option"
  av_policy_fault :: "exn option"
  av_log_fault :: "exn option"
  av_stamped :: bool

text \<open>
  \<open>cf_error_tasks\<close>: whether the framework runs the background tasks of a handler that raised. FastAPI does
  not: it attaches them to the response the handler returns.
\<close>

record configuration =
  cf_env :: auth_env
  cf_registry :: provider_registry
  cf_log_enabled :: bool
  cf_error_tasks :: bool

definition caller_of :: "configuration \<Rightarrow> 'r arrival \<Rightarrow> 'r installation \<Rightarrow> exn + request_context" where
  "caller_of cf a sys = caller (cf_env cf) (av_draw a) (av_credentials a) (sys_accounts sys)"

definition account_step :: "configuration \<Rightarrow> 'r arrival \<Rightarrow> auth_request \<Rightarrow> 'r installation \<Rightarrow> 'r installation" where
  "account_step cf a req sys = sys\<lparr>sys_accounts := auth_step (cf_env cf) (av_draw a) req (sys_accounts sys)\<rparr>"

text \<open>What an administrator's request does, with the team table and the administrator's organization\<close>

definition as_administrator ::
  "configuration \<Rightarrow> 'r arrival \<Rightarrow> ((string \<times> string) list \<Rightarrow> string \<Rightarrow> 'r installation \<Rightarrow> 'r installation) \<Rightarrow>
   'r installation \<Rightarrow> 'r installation" where
  "as_administrator cf a act sys = (case require_admin (caller_of cf a sys) of
     Inl e \<Rightarrow> sys
   | Inr ctx \<Rightarrow> act (team_pairs (sys_accounts sys)) (ctx_organization_id ctx) sys)"

definition log_entry :: "configuration \<Rightarrow> 'r arrival \<Rightarrow> exn + chat_response \<Rightarrow> request_log option \<Rightarrow> log_table \<Rightarrow> log_table" where
  "log_entry cf a res entry tbl = (case (res, entry) of
     (_, None) \<Rightarrow> tbl
   | (Inl e, Some l) \<Rightarrow> if cf_error_tasks cf
       then write_request_log (av_log_fault a) (dr_id (av_draw a) 0) (dr_now (av_draw a)) l tbl else tbl
   | (Inr r, Some l) \<Rightarrow> write_request_log (av_log_fault a) (dr_id (av_draw a) 0) (dr_now (av_draw a)) l tbl)"

definition policy_for :: "'r arrival \<Rightarrow> request_context \<Rightarrow> 'r installation \<Rightarrow> resolved_policy" where
  "policy_for a ctx sys = get_resolved_policy ctx
     (case av_policy_fault a of Some e \<Rightarrow> Inl e | None \<Rightarrow> Inr (sys_policies sys))"

text \<open>A session of its own, and no other request between its transactions\<close>

definition chat_deps :: "'r arrival \<Rightarrow> 'r deps" where
  "chat_deps a = (av_deps a)\<lparr>dp_db_others := (\<lambda>tbl. tbl)\<rparr>"

definition chat_state :: "'r installation \<Rightarrow> 'r gateway" where
  "chat_state sys = (sys_gateway sys)\<lparr>gw_held := None\<rparr>"

definition chat_step :: "configuration \<Rightarrow> 'r arrival \<Rightarrow> chat_request \<Rightarrow> 'r installation \<Rightarrow> 'r installation" where
  "chat_step cf a body sys = (case caller_of cf a sys of
     Inl e \<Rightarrow> sys
   | Inr ctx \<Rightarrow> (case validate_request body of
       Inl e \<Rightarrow> sys
     | Inr q \<Rightarrow> (case chat_completions (chat_deps a) (cf_log_enabled cf) (av_trace a) (policy_for a ctx sys) q
           (av_request_id a) ctx (chat_state sys) of
         (res, entry, g) \<Rightarrow> sys\<lparr>sys_gateway := g, sys_log := log_entry cf a res entry (sys_log sys)\<rparr>)))"

fun act :: "configuration \<Rightarrow> 'r arrival \<Rightarrow> api_call \<Rightarrow> 'r installation \<Rightarrow> 'r installation" where
  "act cf a (Found b) sys = account_step cf a (Bootstrap (av_credentials a) b) sys"
| "act cf a (NewOrganization b) sys = account_step cf a (PostOrganization (av_credentials a) b) sys"
| "act cf a (NewTeam org b) sys = account_step cf a (PostTeam (av_credentials a) org b) sys"
| "act cf a (NewKey team b) sys = account_step cf a (PostKey (av_credentials a) team b) sys"
| "act cf a (RevokeKeyOf team k) sys = account_step cf a (RevokeKey (av_credentials a) team k) sys"
| "act cf a (CreateBudget team b) sys = as_administrator cf a (\<lambda>teams org sys.
     set_budgets (snd (post_budget teams org (dr_id (av_draw a) 0, dr_now (av_draw a), team, b) (budgets_of sys))) sys) sys"
| "act cf a (UpdateBudget team b) sys = as_administrator cf a (\<lambda>teams org sys.
     set_budgets (snd (patch_budget teams org team b (budgets_of sys))) sys) sys"
| "act cf a (DeleteBudget team) sys = as_administrator cf a (\<lambda>teams org sys.
     set_budgets (snd (remove_budget teams org team (budgets_of sys))) sys) sys"
| "act cf a (SetLimits team rpm rph) sys = as_administrator cf a (\<lambda>teams org sys.
     sys\<lparr>sys_limits := snd (set_team_rate_limits teams org team (dr_id (av_draw a) 0, rpm, rph) (sys_limits sys))\<rparr>) sys"
| "act cf a (DeleteLimits team) sys = as_administrator cf a (\<lambda>teams org sys.
     sys\<lparr>sys_limits := snd (delete_team_rate_limits teams org team (sys_limits sys))\<rparr>) sys"
| "act cf a (PutPolicy team b) sys = as_administrator cf a (\<lambda>teams org sys.
     sys\<lparr>sys_policies := snd (put_policy (cf_registry cf) teams org team b (sys_policies sys))\<rparr>) sys"
| "act cf a (DeletePolicy team) sys = as_administrator cf a (\<lambda>teams org sys.
     sys\<lparr>sys_policies := snd (remove_policy teams org team (sys_policies sys))\<rparr>) sys"
| "act cf a (CreateModel b) sys = as_administrator cf a (\<lambda>teams org sys.
     set_models (snd (post_model (dr_id (av_draw a) 0, b) (models_of sys))) sys) sys"
| "act cf a (UpdateModel i b) sys = as_administrator cf a (\<lambda>teams org sys.
     set_models (snd (patch_model i b (models_of sys))) sys) sys"
| "act cf a (DeleteModel i) sys = as_administrator cf a (\<lambda>teams org sys.
     set_models (snd (remove_model i (models_of sys))) sys) sys"
| "act cf a (ChatCompletion q) sys = chat_step cf a q sys"

text \<open>The task behind an authenticated request; bootstrap authenticates with no key.\<close>

definition stamp :: "configuration \<Rightarrow> 'r arrival \<Rightarrow> api_call \<Rightarrow> 'r installation \<Rightarrow> 'r installation \<Rightarrow> 'r installation" where
  "stamp cf a c sys0 sys = (case (c, caller_of cf a sys0) of
     (Found b, _) \<Rightarrow> sys
   | (_, Inl e) \<Rightarrow> sys
   | (_, Inr ctx) \<Rightarrow> if av_stamped a
       then sys\<lparr>sys_accounts := update_last_used (dr_now (av_draw a)) (ctx_api_key_id ctx) (sys_accounts sys)\<rparr> else sys)"

definition handle :: "configuration \<Rightarrow> 'r arrival \<times> api_call \<Rightarrow> 'r installation \<Rightarrow> 'r installation" where
  "handle cf = (\<lambda>(a, c) sys. stamp cf a c sys (act cf a c sys))"

definition serve_all :: "configuration \<Rightarrow> ('r arrival \<times> api_call) list \<Rightarrow> 'r installation \<Rightarrow> 'r installation" where
  "serve_all cf = fold (handle cf)"

section \<open>What a chat request leaves alone\<close>

text \<open>Of a budget table: every row but the team's own, and of this one all but amounts and period.\<close>

definition terms :: "budget \<Rightarrow> string \<times> string \<times> real \<times> string \<times> string \<times> bool" where
  "terms b = (bg_id b, bg_team_id b, limit_amount b, bg_period b, bg_policy b, bg_enabled b)"

definition only_amounts :: "string \<Rightarrow> budget_table \<Rightarrow> budget_table \<Rightarrow> bool" where
  "only_amounts team tbl tbl' =
     (\<forall>t. map_option terms (tbl' t) = map_option terms (tbl t) \<and> (t \<noteq> team \<longrightarrow> tbl' t = tbl t))"

lemma only_amounts_refl [simp]: "only_amounts team tbl tbl"
  by (simp add: only_amounts_def)

lemma only_amounts_trans: "only_amounts team x y \<Longrightarrow> only_amounts team y z \<Longrightarrow> only_amounts team x z"
  by (simp add: only_amounts_def)

lemma store_only [simp]: "only_amounts team tbl (store team loaded new tbl)"
  by (simp add: only_amounts_def store_def flush_def terms_def split: option.split)

lemma reserve_only:
  "check_and_reserve keep reread tm thr team est held tbl = (res, held', tbl') \<Longrightarrow> only_amounts team tbl tbl'"
  by (auto simp: check_and_reserve_def Let_def split: option.splits sum.splits if_splits)

lemma reconcile_only: "reconcile keep team est actual held tbl = (b, held', tbl') \<Longrightarrow> only_amounts team tbl tbl'"
  by (auto simp: reconcile_def Let_def split: option.splits)

lemma release_only: "release_reservation keep team est held tbl = (held', tbl') \<Longrightarrow> only_amounts team tbl tbl'"
  by (auto simp: release_reservation_def Let_def split: option.splits)

lemma reserve_step_only:
  assumes "reserve_step d policy q (Some ctx) p m g = (res, g')"
  shows "only_amounts (ctx_team_id ctx) (gw_budgets g) (gw_budgets g')"
  using assms
  by (auto simp: reserve_step_def Let_def dest!: downgrade_frame reserve_only
      split: if_splits prod.splits sum.splits)

lemma release_step_only: "only_amounts (ctx_team_id ctx) (gw_budgets g) (gw_budgets (release_step d (Some ctx) est g))"
  by (auto simp: release_step_def dest: release_only split: prod.split)

lemma settle_step_only:
  "settle_step d (Some ctx) rs r g = (res, g') \<Longrightarrow> only_amounts (ctx_team_id ctx) (gw_budgets g) (gw_budgets g')"
  by (auto simp: settle_step_def Let_def dest: reconcile_only split: if_splits prod.splits)

lemma write_cache_budgets [simp]: "gw_budgets (write_cache d q context r g) = gw_budgets g"
  by (simp add: write_cache_def split: option.split)

lemma run_reserved_only:
  assumes "dp_db_others d = (\<lambda>tbl. tbl)"
    and "run_reserved d policy q rid (Some ctx) mode left arm rs g = (res, g')"
  shows "only_amounts (ctx_team_id ctx) (gw_budgets g) (gw_budgets g')"
proof -
  obtain out cx x where run: "execute (dp_world d) (dp_executor d) (exec_request policy q) rid
      (rs_provider rs) (rs_model rs) (Some mode) (gw_exec g) = (out, cx, x)"
    by (metis prod_cases3)
  let ?g = "g\<lparr>gw_exec := x, gw_budgets := gw_budgets g\<rparr>"
  show ?thesis
  proof (cases out)
    case (Inl e)
    then show ?thesis
      using assms run release_step_only [of ctx ?g d "rs_estimate rs"] by (auto simp: run_reserved_def)
  next
    case (Inr r)
    obtain paid g2 where "settle_step d (Some ctx) rs r ?g = (paid, g2)" by (metis surj_pair)
    then show ?thesis
      using assms run Inr settle_step_only [of d ctx rs r ?g paid g2]
      by (auto simp: run_reserved_def Let_def split: prod.splits)
  qed
qed

lemma complete_only:
  assumes "dp_db_others d = (\<lambda>tbl. tbl)" "complete d (Some policy) q rid (Some ctx) g = (res, g')"
  shows "only_amounts (ctx_team_id ctx) (gw_budgets g) (gw_budgets g')"
  using assms(2)
  by (auto simp: complete_eq split: prod.splits sum.splits dest!: reserve_step_only
      dest: run_reserved_only [OF assms(1)] only_amounts_trans)

lemma chat_only:
  assumes "dp_db_others d = (\<lambda>tbl. tbl)" "chat_completions d logs trace policy q rid ctx g = (res, entry, g')"
  shows "only_amounts (ctx_team_id ctx) (gw_budgets g) (gw_budgets g')"
  using assms(2)
proof (cases rule: chat_cases)
  case Ran
  then show ?thesis
    using complete_only [of "injected d"] assms(1) by (simp add: injected_def)
qed simp

text \<open>The row of a request is its caller's.\<close>

lemma entry_owner:
  assumes "chat_completions d logs trace policy q rid ctx g = (res, Some l, g')"
  shows "lg_organization_id l = Some (ctx_organization_id ctx) \<and> lg_team_id l = Some (ctx_team_id ctx) \<and>
    lg_request_id l = rid"
  using assms
proof (cases rule: chat_cases)
  case (Blocked run)
  then show ?thesis by (auto simp: build_error_log_def split: if_splits)
next
  case Ran
  then show ?thesis
    by (cases res) (auto simp: build_success_log_def Let_def split: if_splits)
qed

lemma log_entry_owner:
  assumes "chat_completions d logs trace policy q rid ctx g = (res, entry, g')"
  obtains "log_entry cf a res entry tbl = tbl"
  | r where "log_entry cf a res entry tbl = tbl @ [r]" "entry = Some (row_log r)"
      "lg_organization_id (row_log r) = Some (ctx_organization_id ctx)" "lg_team_id (row_log r) = Some (ctx_team_id ctx)"
proof (cases "log_entry cf a res entry tbl = tbl")
  case False
  then obtain l where l: "entry = Some l" "log_entry cf a res entry tbl =
      tbl @ [\<lparr>row_id = dr_id (av_draw a) 0, row_created_at = dr_now (av_draw a), row_log = l\<rparr>]"
    by (auto simp: log_entry_def write_request_log_def split: option.splits sum.splits if_splits)
  then show ?thesis
    using that(2) entry_owner assms by (metis log_row.select_convs(3))
qed (rule that(1))

section \<open>The invariant of the installation\<close>

definition wf_limits :: "limits_table \<Rightarrow> bool" where
  "wf_limits tbl = (\<forall>t row. tbl t = Some row \<longrightarrow>
     tl_team_id row = t \<and> validate_limits (requests_per_minute row, requests_per_hour row))"

definition wf_policies :: "policy_table \<Rightarrow> bool" where
  "wf_policies tbl = (\<forall>t row. tbl t = Some row \<longrightarrow> validate_policy (pol_policy row) = Some (pol_policy row))"

text \<open>Every row of the other tables is that of a team, and a log row names the team's organization.\<close>

definition rows_owned :: "'r installation \<Rightarrow> bool" where
  "rows_owned sys =
     (let pairs = set (team_pairs (sys_accounts sys)) in
      (\<forall>t. budgets_of sys t \<noteq> None \<or> sys_limits sys t \<noteq> None \<or> sys_policies sys t \<noteq> None \<longrightarrow> t \<in> fst ` pairs) \<and>
      (\<forall>r \<in> set (sys_log sys). \<exists>t org. lg_team_id (row_log r) = Some t \<and> lg_organization_id (row_log r) = Some org \<and>
         (t, org) \<in> pairs))"

definition wf_installation :: "'r installation \<Rightarrow> bool" where
  "wf_installation sys = (wf_auth (sys_accounts sys) \<and> wf_budgets (budgets_of sys) \<and> wf_table (sys_models sys) \<and>
     wf_limits (sys_limits sys) \<and> wf_policies (sys_policies sys) \<and> rows_owned sys)"

lemma sys_simps [simp]:
  "sys_accounts (set_budgets tbl sys) = sys_accounts sys" "sys_models (set_budgets tbl sys) = sys_models sys"
  "sys_limits (set_budgets tbl sys) = sys_limits sys" "sys_policies (set_budgets tbl sys) = sys_policies sys"
  "sys_log (set_budgets tbl sys) = sys_log sys" "budgets_of (set_budgets tbl sys) = tbl"
  "sys_accounts (set_models m sys) = sys_accounts sys" "sys_models (set_models m sys) = a_rows m"
  "sys_limits (set_models m sys) = sys_limits sys" "sys_policies (set_models m sys) = sys_policies sys"
  "sys_log (set_models m sys) = sys_log sys" "budgets_of (set_models m sys) = budgets_of sys"
  "a_rows (models_of sys) = sys_models sys"
  by (simp_all add: set_budgets_def set_models_def budgets_of_def models_of_def Let_def)

lemma budgets_of_update [simp]:
  "budgets_of (sys\<lparr>sys_accounts := db\<rparr>) = budgets_of sys" "budgets_of (sys\<lparr>sys_limits := lt\<rparr>) = budgets_of sys"
  "budgets_of (sys\<lparr>sys_policies := pt\<rparr>) = budgets_of sys" "budgets_of (sys\<lparr>sys_log := lg, sys_gateway := g\<rparr>) = gw_budgets g"
  "budgets_of (sys\<lparr>sys_gateway := g, sys_log := lg\<rparr>) = gw_budgets g" "gw_budgets (chat_state sys) = budgets_of sys"
  by (simp_all add: budgets_of_def chat_state_def)

lemma only_amounts_terms: "only_amounts team tbl tbl' \<Longrightarrow> map_option terms (tbl' t) = map_option terms (tbl t)"
  by (simp add: only_amounts_def)

lemma only_amounts_wf:
  assumes "only_amounts team tbl tbl'" "wf_budgets tbl"
  shows "wf_budgets tbl'"
proof -
  have "bg_team_id b = t \<and> wf_budget b" if row: "tbl' t = Some b" for t b
  proof -
    obtain z where z: "tbl t = Some z" "terms z = terms b"
      using only_amounts_terms [OF assms(1), of t] row by (cases "tbl t") auto
    then have "bg_team_id z = t \<and> wf_budget z"
      using assms(2) by (simp add: wf_budgets_def)
    then show ?thesis
      using z(2) by (simp add: terms_def wf_budget_def)
  qed
  then show ?thesis by (simp add: wf_budgets_def)
qed

lemma only_amounts_dom: "only_amounts team tbl tbl' \<Longrightarrow> (tbl' t = None) = (tbl t = None)"
  using only_amounts_terms [of team tbl tbl' t] by (cases "tbl t"; cases "tbl' t") auto

subsection \<open>Accounts\<close>

lemma caller_row:
  assumes "wf_auth db" "caller env dr cred db = Inr ctx"
  shows "(ctx_team_id ctx, ctx_organization_id ctx) \<in> set (team_pairs db)"
    and "\<exists>k \<in> set (db_keys db). ak_id k = ctx_api_key_id ctx \<and> ak_team_id k = ctx_team_id ctx"
proof -
  obtain now c where "authenticate (en_hmac env) (en_pepper env) now c db = Inr ctx"
    using assms(2) by (auto simp: caller_def get_request_context_def split: option.splits)
  with assms(1) have "(ctx_team_id ctx, ctx_organization_id ctx) \<in> set (team_pairs db) \<and>
      (\<exists>k \<in> set (db_keys db). ak_id k = ctx_api_key_id ctx \<and> ak_team_id k = ctx_team_id ctx)"
    by (rule authenticated) (force simp: team_pairs_def)
  then show "(ctx_team_id ctx, ctx_organization_id ctx) \<in> set (team_pairs db)"
    "\<exists>k \<in> set (db_keys db). ak_id k = ctx_api_key_id ctx \<and> ak_team_id k = ctx_team_id ctx" by simp_all
qed

lemma pairs_unique: "wf_auth db \<Longrightarrow> (t, o1) \<in> set (team_pairs db) \<Longrightarrow> (t, o2) \<in> set (team_pairs db) \<Longrightarrow> o1 = o2"
  by (auto simp: team_pairs_def wf_auth_def dest: distinct_map_eq)

lemma set_key_pairs [simp]: "team_pairs (set_key i f db) = team_pairs db"
  by (simp add: team_pairs_def set_key_def)

lemma pairs_grow: "wf_auth db \<Longrightarrow> set (team_pairs db) \<subseteq> set (team_pairs (auth_step env dr req db))"
proof -
  assume wf: "wf_auth db"
  have "auth_change env db (auth_step env dr req db)" using auth_step_change [OF wf] by simp
  then show ?thesis
  proof cases
    case (founded t og k)
    then show ?thesis using no_organizations [OF wf] by (simp add: team_pairs_def)
  qed (auto simp: team_pairs_def set_key_def)
qed

lemma rows_owned_grow:
  assumes "rows_owned sys" "set (team_pairs (sys_accounts sys)) \<subseteq> set (team_pairs db)"
  shows "rows_owned (sys\<lparr>sys_accounts := db\<rparr>)"
  using assms unfolding rows_owned_def Let_def by (simp, blast)

lemma account_step_wf: "wf_installation sys \<Longrightarrow> wf_installation (account_step cf a req sys)"
  using auth_step_change [of "sys_accounts sys" "cf_env cf" "av_draw a" req]
  by (auto simp: wf_installation_def account_step_def rows_owned_grow pairs_grow)

lemma stamp_wf: "wf_installation sys \<Longrightarrow> wf_installation (stamp cf a c sys0 sys)"
  by (auto simp: stamp_def wf_installation_def update_last_used_def wf_set_key marks_fields rows_owned_grow
      split: api_call.splits sum.splits)

subsection \<open>Tables of an administrator\<close>

lemma as_administrator_cases:
  obtains "as_administrator cf a f sys = sys" "\<forall>ctx. require_admin (caller_of cf a sys) \<noteq> Inr ctx"
  | ctx where "as_administrator cf a f sys = f (team_pairs (sys_accounts sys)) (ctx_organization_id ctx) sys"
      "caller_of cf a sys = Inr ctx" "ctx_role ctx = ''admin''"
proof (cases "require_admin (caller_of cf a sys)")
  case (Inl e)
  then show ?thesis using that(1) by (simp add: as_administrator_def)
next
  case (Inr ctx)
  then have "caller_of cf a sys = Inr ctx" "ctx_role ctx = ''admin''"
    by (auto simp: require_admin_def split: sum.splits if_splits)
  with Inr show ?thesis by (intro that(2) [of ctx]) (simp_all add: as_administrator_def)
qed

text \<open>An operation on a table addressed by team: only rows of the administrator's teams change.\<close>

definition confined :: "(string \<times> string) list \<Rightarrow> string \<Rightarrow> (string \<Rightarrow> 'b option) \<Rightarrow> (string \<Rightarrow> 'b option) \<Rightarrow> bool" where
  "confined teams org tbl tbl' = (\<forall>t. (t, org) \<notin> set teams \<longrightarrow> tbl' t = tbl t)"

lemma confined_budgets [simp]:
  "confined teams org tbl (snd (post_budget teams org x tbl))"
  "confined teams org tbl (snd (patch_budget teams org t b tbl))"
  "confined teams org tbl (snd (remove_budget teams org t tbl))"
  using budget_step_other_org [where op = "Create x"] budget_step_other_org [where op = "Update t b"]
    budget_step_other_org [where op = "Delete t"]
  by (auto simp: confined_def simp del: crud_step.simps)

lemma confined_limits [simp]:
  "confined teams org tbl (snd (set_team_rate_limits teams org t x tbl))"
  "confined teams org tbl (snd (delete_team_rate_limits teams org t tbl))"
  using limits_step_other_org [where op = "Put_row t x"] limits_step_other_org [where op = "Drop_row t"]
  by (auto simp: confined_def simp del: override_step.simps)

lemma confined_policies [simp]:
  "confined teams org tbl (snd (put_policy reg teams org t x tbl))"
  "confined teams org tbl (snd (remove_policy teams org t tbl))"
  using policy_step_other_org [where op = "Put_row t x"] policy_step_other_org [where op = "Drop_row t"]
  by (auto simp: confined_def simp del: override_step.simps)

lemma set_limits_wf: "wf_limits tbl \<Longrightarrow> wf_limits (snd (set_team_rate_limits teams org t x tbl))"
  by (auto simp: wf_limits_def set_team_rate_limits_def limits_set_def limits_get_def Let_def
      split: prod.splits option.splits)

lemma delete_limits_wf: "wf_limits tbl \<Longrightarrow> wf_limits (snd (delete_team_rate_limits teams org t tbl))"
  by (auto simp: wf_limits_def delete_team_rate_limits_def limits_delete_def split: option.splits)

lemma put_policy_wf: "wf_policies tbl \<Longrightarrow> wf_policies (snd (put_policy reg teams org t x tbl))"
  using put_policy_outcome [of reg teams org t x tbl] validate_policy_idem by (fastforce simp: wf_policies_def)

lemma remove_policy_wf: "wf_policies tbl \<Longrightarrow> wf_policies (snd (remove_policy teams org t tbl))"
  using remove_policy_outcome [of teams org t tbl] by (auto simp: wf_policies_def split: if_splits)

lemma models_wf:
  assumes "wf_table (a_rows m)"
  shows "wf_table (a_rows (snd (post_model x m)))" "wf_table (a_rows (snd (patch_model i u m)))"
    "wf_table (a_rows (snd (remove_model i m)))"
  using models_table.step_inv [OF assms, of "Create x"] models_table.step_inv [OF assms, of "Update i u"]
    models_table.step_inv [OF assms, of "Delete i"] by (simp_all only: snd_crud_step)

text \<open>Tables an administrator's request replaces by ones confined to the own teams\<close>

lemma confined_owned:
  assumes "rows_owned sys" "sys_accounts sys' = sys_accounts sys" "sys_log sys' = sys_log sys"
    and "confined (team_pairs (sys_accounts sys)) org (budgets_of sys) (budgets_of sys')"
    and "confined (team_pairs (sys_accounts sys)) org (sys_limits sys) (sys_limits sys')"
    and "confined (team_pairs (sys_accounts sys)) org (sys_policies sys) (sys_policies sys')"
  shows "rows_owned sys'"
proof -
  have "t \<in> fst ` set (team_pairs (sys_accounts sys))"
    if row: "budgets_of sys' t \<noteq> None \<or> sys_limits sys' t \<noteq> None \<or> sys_policies sys' t \<noteq> None" for t
  proof (cases "(t, org) \<in> set (team_pairs (sys_accounts sys))")
    case True
    then show ?thesis by force
  next
    case False
    then have "budgets_of sys t \<noteq> None \<or> sys_limits sys t \<noteq> None \<or> sys_policies sys t \<noteq> None"
      using row assms(4-6) by (simp add: confined_def)
    then show ?thesis
      using assms(1) unfolding rows_owned_def Let_def by blast
  qed
  then show ?thesis
    using assms(1-3) by (simp add: rows_owned_def Let_def)
qed

lemma confined_refl [simp]: "confined teams org tbl tbl"
  by (simp add: confined_def)

lemmas table_wf = post_budget_wf patch_budget_wf remove_budget_wf set_limits_wf delete_limits_wf put_policy_wf
  remove_policy_wf models_wf

lemma as_administrator_wf:
  assumes "wf_installation sys"
    and "\<And>teams org. teams = team_pairs (sys_accounts sys) \<Longrightarrow> sys_accounts (f teams org sys) = sys_accounts sys \<and>
      sys_log (f teams org sys) = sys_log sys \<and> confined teams org (budgets_of sys) (budgets_of (f teams org sys)) \<and>
      confined teams org (sys_limits sys) (sys_limits (f teams org sys)) \<and>
      confined teams org (sys_policies sys) (sys_policies (f teams org sys)) \<and>
      wf_budgets (budgets_of (f teams org sys)) \<and> wf_table (sys_models (f teams org sys)) \<and>
      wf_limits (sys_limits (f teams org sys)) \<and> wf_policies (sys_policies (f teams org sys))"
  shows "wf_installation (as_administrator cf a f sys)"
proof (cases rule: as_administrator_cases [of cf a f sys])
  case 1
  then show ?thesis using assms(1) by simp
next
  case (2 ctx)
  note f = assms(2) [OF refl, of "ctx_organization_id ctx"]
  have "rows_owned (f (team_pairs (sys_accounts sys)) (ctx_organization_id ctx) sys)"
    by (rule confined_owned [of sys _ "ctx_organization_id ctx"])
      (use f assms(1) [unfolded wf_installation_def] in simp_all)
  then show ?thesis
    using assms(1) f by (simp add: wf_installation_def 2(1))
qed

subsection \<open>Chat requests\<close>

lemma chat_step_cases:
  obtains "chat_step cf a body sys = sys"
  | ctx q res entry g where "caller_of cf a sys = Inr ctx" "validate_request body = Inr q"
      "chat_completions (chat_deps a) (cf_log_enabled cf) (av_trace a) (policy_for a ctx sys) q (av_request_id a) ctx
         (chat_state sys) = (res, entry, g)"
      "chat_step cf a body sys = sys\<lparr>sys_gateway := g, sys_log := log_entry cf a res entry (sys_log sys)\<rparr>"
      "only_amounts (ctx_team_id ctx) (budgets_of sys) (gw_budgets g)"
proof -
  consider "chat_step cf a body sys = sys" | ctx q where "caller_of cf a sys = Inr ctx" "validate_request body = Inr q"
    by (cases "caller_of cf a sys"; cases "validate_request body") (simp_all add: chat_step_def)
  then show thesis
  proof cases
    case (2 ctx q)
    obtain res entry g where run: "chat_completions (chat_deps a) (cf_log_enabled cf) (av_trace a)
        (policy_for a ctx sys) q (av_request_id a) ctx (chat_state sys) = (res, entry, g)"
      by (metis prod_cases3)
    have "only_amounts (ctx_team_id ctx) (budgets_of sys) (gw_budgets g)"
      using chat_only [OF _ run] by (simp add: chat_deps_def)
    with 2 run show thesis
      using that(2) by (simp add: chat_step_def)
  qed (rule that(1))
qed

lemma chat_step_wf:
  assumes "wf_installation sys"
  shows "wf_installation (chat_step cf a body sys)"
proof (cases rule: chat_step_cases [of cf a body sys])
  case 1
  then show ?thesis using assms by simp
next
  case (2 ctx q res entry g)
  let ?pairs = "set (team_pairs (sys_accounts sys))" and ?log = "log_entry cf a res entry (sys_log sys)"
  have pair: "(ctx_team_id ctx, ctx_organization_id ctx) \<in> ?pairs"
    using assms 2(1) caller_row(1) by (auto simp: wf_installation_def caller_of_def)
  have old: "\<forall>r \<in> set (sys_log sys). \<exists>t org. lg_team_id (row_log r) = Some t \<and>
      lg_organization_id (row_log r) = Some org \<and> (t, org) \<in> ?pairs"
    using assms by (simp add: wf_installation_def rows_owned_def Let_def)
  have "\<forall>r \<in> set ?log. \<exists>t org. lg_team_id (row_log r) = Some t \<and> lg_organization_id (row_log r) = Some org \<and>
      (t, org) \<in> ?pairs"
    by (rule log_entry_owner [OF 2(3), of cf a "sys_log sys"]) (use old pair in auto)
  then show ?thesis
    using assms only_amounts_wf [OF 2(5)] only_amounts_dom [OF 2(5)]
    by (simp add: 2(4) wf_installation_def rows_owned_def Let_def)
qed

subsection \<open>Every request\<close>

lemma act_wf:
  assumes "wf_installation sys"
  shows "wf_installation (act cf a c sys)"
proof -
  have tables: "wf_budgets (budgets_of sys)" "wf_limits (sys_limits sys)" "wf_policies (sys_policies sys)"
    "wf_table (a_rows (models_of sys))"
    using assms by (simp_all add: wf_installation_def)
  show ?thesis
    using assms tables table_wf
    by (cases c) (simp_all add: account_step_wf chat_step_wf as_administrator_wf)
qed

lemma handle_wf: "wf_installation sys \<Longrightarrow> wf_installation (handle cf x sys)"
  by (cases x) (simp add: handle_def act_wf stamp_wf)

section \<open>What a tenant sees\<close>

text \<open>What the administrators of an organization can read of it: the answers of the read endpoints.\<close>

record tenant_view =
  tv_teams :: "team list"
  tv_keys :: "string \<Rightarrow> key_response list"
  tv_budget :: "string \<Rightarrow> exn + budget"
  tv_limits :: "int \<Rightarrow> string \<Rightarrow> exn + limits_response"
  tv_policy :: "string \<Rightarrow> exn + resolved_policy"
  tv_log :: log_table

definition own_keys :: "string \<Rightarrow> auth_db \<Rightarrow> api_key list" where
  "own_keys org db = filter (\<lambda>k. (ak_team_id k, org) \<in> set (team_pairs db)) (db_keys db)"

definition team_keys :: "string \<Rightarrow> string \<Rightarrow> auth_db \<Rightarrow> key_response list" where
  "team_keys org team db =
     map to_key_response (list_api_keys team (db\<lparr>db_keys := own_keys org db\<rparr>))"

definition tenant_view :: "string \<Rightarrow> 'r installation \<Rightarrow> tenant_view" where
  "tenant_view org sys = (let db = sys_accounts sys; teams = team_pairs db in
     \<lparr>tv_teams = list_teams org db,
      tv_keys = (\<lambda>team. team_keys org team db),
      tv_budget = (\<lambda>team. read_budget teams org team (budgets_of sys)),
      tv_limits = (\<lambda>rpm team. get_team_rate_limits teams org rpm team (sys_limits sys)),
      tv_policy = (\<lambda>team. read_policy teams org team (sys_policies sys)),
      tv_log = own_rows org (sys_log sys)\<rparr>)"

text \<open>What the view is made of\<close>

definition own_row :: "(string \<times> string) list \<Rightarrow> string \<Rightarrow> (string \<Rightarrow> 'b option) \<Rightarrow> (string \<Rightarrow> 'b option) \<Rightarrow> bool" where
  "own_row teams org tbl tbl' = (\<forall>t. (t, org) \<in> set teams \<longrightarrow> tbl' t = tbl t)"

definition own_teams :: "string \<Rightarrow> auth_db \<Rightarrow> team list" where
  "own_teams org db = filter (\<lambda>t. tm_organization_id t = org) (db_teams db)"

lemma own_pair: "(t, org) \<in> set (team_pairs db) \<longleftrightarrow> t \<in> tm_id ` set (own_teams org db)"
  by (auto simp: team_pairs_def own_teams_def)

lemma view_eqI:
  assumes "own_teams org (sys_accounts sys') = own_teams org (sys_accounts sys)"
    and "own_keys org (sys_accounts sys') = own_keys org (sys_accounts sys)"
    and "own_row (team_pairs (sys_accounts sys)) org (budgets_of sys) (budgets_of sys')"
    and "own_row (team_pairs (sys_accounts sys)) org (sys_limits sys) (sys_limits sys')"
    and "own_row (team_pairs (sys_accounts sys)) org (sys_policies sys) (sys_policies sys')"
    and "own_rows org (sys_log sys') = own_rows org (sys_log sys)"
  shows "tenant_view org sys' = tenant_view org sys"
proof -
  have member: "List.member (team_pairs (sys_accounts sys')) (t, org) \<longleftrightarrow> List.member (team_pairs (sys_accounts sys)) (t, org)" for t
    by (simp only: List.member_iff own_pair assms(1))
  have teams: "list_teams org (sys_accounts sys') = list_teams org (sys_accounts sys)"
    using assms(1) by (simp add: list_teams_def own_teams_def)
  have keys: "team_keys org t (sys_accounts sys') = team_keys org t (sys_accounts sys)" for t
    using assms(2) by (simp add: team_keys_def list_api_keys_def)
  have rows: "List.member (team_pairs (sys_accounts sys)) (t, org) \<Longrightarrow> budgets_of sys' t = budgets_of sys t \<and>
      sys_limits sys' t = sys_limits sys t \<and> sys_policies sys' t = sys_policies sys t" for t
    using assms(3-5) by (simp add: own_row_def List.member_iff)
  show ?thesis
    using assms(6) teams keys rows
    by (auto simp: tenant_view_def Let_def fun_eq_iff read_budget_def get_team_rate_limits_def read_policy_def
        resolve_team_def member get_budget_def limits_get_def resolve_def get_policy_dict_def get_policy_model_def
        simp del: List.member_iff)
qed

section \<open>Isolation of tenants\<close>

definition acting_for :: "configuration \<Rightarrow> 'r arrival \<times> api_call \<Rightarrow> 'r installation \<Rightarrow> string option" where
  "acting_for cf x sys = (case caller_of cf (fst x) sys of Inl e \<Rightarrow> None | Inr ctx \<Rightarrow> Some (ctx_organization_id ctx))"

definition is_organization :: "string \<Rightarrow> 'r installation \<Rightarrow> bool" where
  "is_organization org sys = List.member (map og_id (db_organizations (sys_accounts sys))) org"

text \<open>The own teams and keys of an organization that some change of the accounts leaves alone\<close>

definition spares :: "string \<Rightarrow> auth_db \<Rightarrow> auth_db \<Rightarrow> bool" where
  "spares org db db' = (own_teams org db' = own_teams org db \<and> own_keys org db' = own_keys org db)"

lemma spares_refl [simp]: "spares org db db"
  by (simp add: spares_def)

lemma spares_others:
  assumes "filter (\<lambda>t. tm_organization_id t \<noteq> org') (db_teams db') = filter (\<lambda>t. tm_organization_id t \<noteq> org') (db_teams db)"
    and "filter (\<lambda>k. ak_team_id k \<noteq> team) (db_keys db') = filter (\<lambda>k. ak_team_id k \<noteq> team) (db_keys db)"
    and "(team, org) \<notin> set (team_pairs db)" "org \<noteq> org'"
  shows "spares org db db'"
proof -
  have teams: "own_teams org d = filter (\<lambda>t. tm_organization_id t = org) (filter (\<lambda>t. tm_organization_id t \<noteq> org') (db_teams d))" for d
    using assms(4) by (auto simp: own_teams_def intro: filter_cong)
  then have same: "own_teams org db' = own_teams org db"
    by (simp only: teams assms(1))
  then have pairs: "(t, org) \<in> set (team_pairs db') \<longleftrightarrow> (t, org) \<in> set (team_pairs db)" for t
    by (simp only: own_pair)
  have keys: "own_keys org d = filter (\<lambda>k. (ak_team_id k, org) \<in> set (team_pairs db)) (filter (\<lambda>k. ak_team_id k \<noteq> team) (db_keys d))"
    if "d = db \<or> d = db'" for d
  proof -
    have "own_keys org d = filter (\<lambda>k. (ak_team_id k, org) \<in> set (team_pairs db)) (db_keys d)"
      using that pairs by (auto simp: own_keys_def)
    also have "\<dots> = filter (\<lambda>k. (ak_team_id k, org) \<in> set (team_pairs db)) (filter (\<lambda>k. ak_team_id k \<noteq> team) (db_keys d))"
      using assms(3) by (auto intro: filter_cong)
    finally show ?thesis .
  qed
  have "own_keys org db' = own_keys org db"
    using keys [of db] keys [of db'] assms(2) by metis
  then show ?thesis
    using same by (simp add: spares_def)
qed

lemma unauthenticated_changes_nothing:
  assumes "made_with cred req" "\<forall>ctx. caller env dr cred db \<noteq> Inr ctx"
  shows "auth_step env dr req db = db"
proof -
  obtain e where "caller env dr cred db = Inl e"
    using assms(2) by (cases "caller env dr cred db") auto
  then show ?thesis
    using assms(1)
    by (cases req) (simp_all add: made_with_def post_organization_def post_team_def post_key_def revoke_key_def
        require_admin_def)
qed

lemma foreign_team:
  assumes "wf_auth db" "caller env dr cred db = Inr ctx" "ctx_organization_id ctx \<noteq> org"
  shows "(ctx_team_id ctx, org) \<notin> set (team_pairs db)"
  using pairs_unique [OF assms(1) caller_row(1) [OF assms(1,2)]] assms(3) by blast

lemma request_spares:
  assumes "wf_auth db" "made_with cred req" "\<forall>ctx. caller env dr cred db = Inr ctx \<longrightarrow> ctx_organization_id ctx \<noteq> org"
  shows "spares org db (auth_step env dr req db)"
proof (cases "caller env dr cred db")
  case (Inl e)
  then show ?thesis using unauthenticated_changes_nothing [OF assms(2)] by simp
next
  case (Inr ctx)
  then show ?thesis
    using writes_stay_in_tenant [OF assms(1) Inr assms(2)] foreign_team [OF assms(1) Inr] assms(3)
    by (intro spares_others [of "ctx_organization_id ctx" _ _ "ctx_team_id ctx"]) auto
qed

lemma found_spares: "organizations_exist db \<Longrightarrow> auth_step env dr (Bootstrap cred b) db = db"
  by (auto simp: bootstrap_def bootstrap_handler_def run_session_def split: sum.splits)

lemma stamp_spares:
  assumes "wf_auth db" "(ctx_team_id ctx, ctx_organization_id ctx) \<in> set (team_pairs db)" "ctx_organization_id ctx \<noteq> org"
    and "k \<in> set (db_keys db)" "ak_id k = ctx_api_key_id ctx" "ak_team_id k = ctx_team_id ctx"
  shows "spares org db (update_last_used now (ctx_api_key_id ctx) db)"
proof -
  have "(ctx_team_id ctx, org) \<notin> set (team_pairs db)"
    using pairs_unique [OF assms(1,2)] assms(3) by blast
  moreover have "distinct (map ak_id (db_keys db))" using assms(1) by (simp add: wf_auth_def)
  ultimately show ?thesis
    using set_key_others [OF _ assms(4,6) marks_fields(2)] assms(3,5)
    by (intro spares_others [of "ctx_organization_id ctx" _ _ "ctx_team_id ctx"])
      (auto simp: update_last_used_def set_key_def)
qed

lemma keys_persist:
  assumes "wf_auth db" "k \<in> set (db_keys db)"
  shows "\<exists>k' \<in> set (db_keys (auth_step env dr req db)). ak_id k' = ak_id k \<and> ak_team_id k' = ak_team_id k"
proof -
  have "auth_change env db (auth_step env dr req db)" using auth_step_change [OF assms(1)] by simp
  then show ?thesis
  proof cases
    case (founded t og k)
    then show ?thesis using no_organizations [OF assms(1)] assms(2) by simp
  next
    case (mark f i)
    have "(if ak_id k = i then f k else k) \<in> set (db_keys (set_key i f db))"
      using assms(2) by (simp add: set_key_def)
    then show ?thesis
      unfolding mark(1) by (rule rev_bexI) (use mark(2) in \<open>simp add: marks_def\<close>)
  qed (use assms(2) in auto)
qed

lemma organizations_persist:
  assumes "wf_auth db"
  shows "og_id ` set (db_organizations db) \<subseteq> og_id ` set (db_organizations (auth_step env dr req db))"
proof -
  have "auth_change env db (auth_step env dr req db)" using auth_step_change [OF assms] by simp
  then show ?thesis by cases (auto simp: set_key_def)
qed

text \<open>The requests of the accounts, with the credentials they came with\<close>

fun account_request :: "'r arrival \<Rightarrow> api_call \<Rightarrow> auth_request option" where
  "account_request a (Found b) = Some (Bootstrap (av_credentials a) b)"
| "account_request a (NewOrganization b) = Some (PostOrganization (av_credentials a) b)"
| "account_request a (NewTeam org b) = Some (PostTeam (av_credentials a) org b)"
| "account_request a (NewKey team b) = Some (PostKey (av_credentials a) team b)"
| "account_request a (RevokeKeyOf team k) = Some (RevokeKey (av_credentials a) team k)"
| "account_request a c = None"

lemma act_accounts:
  "sys_accounts (act cf a c sys) = (case account_request a c of None \<Rightarrow> sys_accounts sys
     | Some req \<Rightarrow> auth_step (cf_env cf) (av_draw a) req (sys_accounts sys))"
proof -
  have chat: "sys_accounts (chat_step cf a q sys) = sys_accounts sys" for q
    by (rule chat_step_cases [of cf a q sys]) simp_all
  show ?thesis
    by (cases c) (auto simp: account_step_def chat as_administrator_def split: sum.split)
qed

lemma act_request_others:
  assumes "account_request a c = Some req"
  shows "act cf a c sys = sys\<lparr>sys_accounts := auth_step (cf_env cf) (av_draw a) req (sys_accounts sys)\<rparr>"
  using assms by (cases c) (auto simp: account_step_def)

lemma handle_present:
  assumes "wf_installation sys" "is_organization org sys"
  shows "is_organization org (handle cf x sys)"
proof -
  obtain a c where x: "x = (a, c)" by (cases x)
  have "wf_auth (sys_accounts sys)" using assms(1) by (simp add: wf_installation_def)
  then have "og_id ` set (db_organizations (sys_accounts sys)) \<subseteq> og_id ` set (db_organizations (sys_accounts (act cf a c sys)))"
    using organizations_persist by (simp add: act_accounts split: option.split)
  then have "is_organization org (act cf a c sys)"
    using assms(2) unfolding is_organization_def List.member_iff set_map by blast
  then show ?thesis
    by (auto simp: x handle_def stamp_def is_organization_def update_last_used_def set_key_def split: api_call.split sum.split)
qed

lemma foreign_rows:
  assumes "wf_auth db" "caller env dr cred db = Inr ctx" "ctx_organization_id ctx \<noteq> org"
    and "confined (team_pairs db) (ctx_organization_id ctx) tbl tbl'"
  shows "own_row (team_pairs db) org tbl tbl'"
  using assms(3,4) pairs_unique [OF assms(1)] by (auto simp: own_row_def confined_def)

lemma own_row_refl [simp]: "own_row teams org tbl tbl"
  by (simp add: own_row_def)

lemma administrator_respects:
  assumes "wf_installation sys" "acting_for cf (a, c) sys \<noteq> Some org"
    and "\<And>teams o'. sys_accounts (f teams o' sys) = sys_accounts sys \<and>
      sys_log (f teams o' sys) = sys_log sys \<and> confined teams o' (budgets_of sys) (budgets_of (f teams o' sys)) \<and>
      confined teams o' (sys_limits sys) (sys_limits (f teams o' sys)) \<and>
      confined teams o' (sys_policies sys) (sys_policies (f teams o' sys))"
  shows "tenant_view org (as_administrator cf a f sys) = tenant_view org sys"
proof (cases rule: as_administrator_cases [of cf a f sys])
  case (2 ctx)
  have wf: "wf_auth (sys_accounts sys)" using assms(1) by (simp add: wf_installation_def)
  have other: "ctx_organization_id ctx \<noteq> org" using assms(2) 2(2) by (auto simp: acting_for_def)
  note rows = foreign_rows [OF wf 2(2) [unfolded caller_of_def] other]
  show ?thesis
    unfolding 2(1) by (rule view_eqI) (simp_all add: assms(3) rows)
qed simp

lemma chat_respects:
  assumes "wf_installation sys" "acting_for cf (a, c) sys \<noteq> Some org"
  shows "tenant_view org (chat_step cf a q sys) = tenant_view org sys"
proof (cases rule: chat_step_cases [of cf a q sys])
  case (2 ctx q' res entry g)
  have wf: "wf_auth (sys_accounts sys)" using assms(1) by (simp add: wf_installation_def)
  have other: "ctx_organization_id ctx \<noteq> org" using assms(2) 2(1) by (auto simp: acting_for_def)
  have "own_row (team_pairs (sys_accounts sys)) org (budgets_of sys) (gw_budgets g)"
    using foreign_team [OF wf 2(1) [unfolded caller_of_def] other] 2(5) unfolding own_row_def only_amounts_def by metis
  moreover have "own_rows org (log_entry cf a res entry (sys_log sys)) = own_rows org (sys_log sys)"
    by (rule log_entry_owner [OF 2(3), of cf a "sys_log sys"]) (use other in \<open>simp_all add: own_rows_def\<close>)
  ultimately show ?thesis
    unfolding 2(4) by (intro view_eqI) simp_all
qed simp

lemma act_respects:
  assumes "wf_installation sys" "is_organization org sys" "acting_for cf (a, c) sys \<noteq> Some org"
  shows "tenant_view org (act cf a c sys) = tenant_view org sys"
proof (cases "account_request a c")
  case (Some req)
  let ?db = "sys_accounts sys"
  have wf: "wf_auth ?db" using assms(1) by (simp add: wf_installation_def)
  have "spares org ?db (auth_step (cf_env cf) (av_draw a) req ?db)"
  proof (cases "\<exists>b. c = Found b")
    case True
    have "organizations_exist ?db"
      using assms(2) by (auto simp: is_organization_def List.member_iff organizations_exist_def)
    then show ?thesis using True Some found_spares [of ?db] by auto
  next
    case False
    then have "made_with (av_credentials a) req"
      using Some by (cases c) (auto simp: made_with_def)
    then show ?thesis
      by (rule request_spares [OF wf]) (use assms(3) in \<open>auto simp: acting_for_def caller_of_def\<close>)
  qed
  then show ?thesis
    unfolding act_request_others [OF Some] by (intro view_eqI) (simp_all add: spares_def)
next
  case None
  then show ?thesis
    using assms(1,3) administrator_respects [OF assms(1,3)] chat_respects [OF assms(1,3)] by (cases c) simp_all
qed

lemma handle_respects:
  assumes "wf_installation sys" "is_organization org sys" "acting_for cf x sys \<noteq> Some org"
  shows "tenant_view org (handle cf x sys) = tenant_view org sys"
proof -
  obtain a c where x: "x = (a, c)" by (cases x)
  let ?sys = "act cf a c sys" and ?db = "sys_accounts sys"
  have same: "tenant_view org ?sys = tenant_view org sys"
    using act_respects assms by (simp add: x)
  show ?thesis
  proof (cases "stamp cf a c sys ?sys = ?sys")
    case True
    then show ?thesis using same by (simp add: x handle_def)
  next
    case False
    then obtain ctx where ctx: "caller_of cf a sys = Inr ctx" "stamp cf a c sys ?sys = ?sys\<lparr>sys_accounts :=
        update_last_used (dr_now (av_draw a)) (ctx_api_key_id ctx) (sys_accounts ?sys)\<rparr>"
      by (auto simp: stamp_def split: api_call.splits sum.splits if_splits)
    have wf: "wf_auth ?db" "wf_auth (sys_accounts ?sys)"
      using assms(1) act_wf [OF assms(1), of cf a c] by (simp_all add: wf_installation_def)
    obtain k where k: "k \<in> set (db_keys ?db)" "ak_id k = ctx_api_key_id ctx" "ak_team_id k = ctx_team_id ctx"
      using caller_row(2) [OF wf(1) ctx(1) [unfolded caller_of_def]] by blast
    have "\<exists>k' \<in> set (db_keys (sys_accounts ?sys)). ak_id k' = ak_id k \<and> ak_team_id k' = ak_team_id k"
      using k(1) keys_persist [OF wf(1) k(1)] by (cases "account_request a c") (auto simp: act_accounts)
    then obtain k' where k': "k' \<in> set (db_keys (sys_accounts ?sys))" "ak_id k' = ctx_api_key_id ctx" "ak_team_id k' = ctx_team_id ctx"
      using k(2,3) by auto
    have other: "ctx_organization_id ctx \<noteq> org"
      using assms(3) ctx(1) by (auto simp: acting_for_def x)
    have "(ctx_team_id ctx, ctx_organization_id ctx) \<in> set (team_pairs (sys_accounts ?sys))"
      using caller_row(1) [OF wf(1) ctx(1) [unfolded caller_of_def]] pairs_grow [OF wf(1)]
      by (auto simp: act_accounts split: option.split)
    then have "spares org (sys_accounts ?sys) (update_last_used (dr_now (av_draw a)) (ctx_api_key_id ctx) (sys_accounts ?sys))"
      using other k' by (intro stamp_spares [OF wf(2)]) auto
    then have "tenant_view org (stamp cf a c sys ?sys) = tenant_view org ?sys"
      unfolding ctx(2) by (intro view_eqI) (simp_all add: spares_def)
    then show ?thesis using same by (simp add: x handle_def)
  qed
qed

interpretation tenants: tenancy "handle cf" wf_installation is_organization "acting_for cf" tenant_view
  by unfold_locales (simp_all add: handle_wf handle_present handle_respects)

section \<open>Properties\<close>

text \<open>
  C10: no sequence of requests, of any kind and by anyone, breaks the database: keys, teams and
  organizations stay consistent, budgets, models, limits and policies stay valid, every row stays that
  of an existing team, and every row of the log names a team together with that team's organization.
\<close>

theorem installation_stays_wf:
  assumes "wf_installation sys"
  shows "wf_installation (serve_all cf reqs sys)"
  unfolding serve_all_def by (rule tenants.run_inv [OF assms])

text \<open>
  C2: tenants are isolated across the whole gateway. Whatever requests are served, as long as none
  authenticates as a key of the organization, everything its administrators can read of it is the same
  afterwards: its teams and keys, the budget, limits and policy of each team, and its part of the log.
  The registry of models is common to all organizations and is not part of this view.
\<close>

theorem tenants_isolated:
  assumes "wf_installation sys" "is_organization org sys" "absent (acting_for cf) (handle cf) org reqs sys"
  shows "tenant_view org (serve_all cf reqs sys) = tenant_view org sys"
  unfolding serve_all_def by (rule tenants.run_isolated [OF assms])

text \<open>The registry is the exception: an administrator of any organization changes it for all of them.\<close>

lemma models_are_common:
  assumes "require_admin (caller_of cf a sys) = Inr ctx"
  shows "act cf a (DeleteModel i) sys = set_models (snd (remove_model i (models_of sys))) sys"
  using assms by (simp add: as_administrator_def)

section \<open>Witnesses\<close>

definition two_tenants :: auth_db where
  "two_tenants =
     (let org = (\<lambda>i. \<lparr>og_id = i, og_name = i, og_slug = i, og_created_at = new_year, og_updated_at = new_year\<rparr>);
          team = (\<lambda>i o'. \<lparr>tm_id = i, tm_organization_id = o', tm_name = i, tm_slug = i, tm_created_at = new_year,
            tm_updated_at = new_year\<rparr>);
          key = (\<lambda>i t token role. \<lparr>ak_id = i, ak_team_id = t, ak_name = i, ak_prefix = token, ak_hash = ''p'' @ token,
            ak_role = role, ak_expires_at = None, ak_revoked_at = None, ak_created_at = new_year, ak_last_used_at = None\<rparr>)
      in \<lparr>db_organizations = [org ''o'', org ''z''], db_teams = [team ''t'' ''o'', team ''y'' ''z''],
          db_keys = [key ''k'' ''t'' ''cxg_k'' ''member'', key ''x'' ''y'' ''cxg_x'' ''admin'']\<rparr>)"

lemma two_tenants_wf: "wf_auth two_tenants"
  by code_simp

definition example_cf :: configuration where
  "example_cf = \<lparr>cf_env = example_env, cf_registry = [(''groq'', ''groq'')], cf_log_enabled = True,
     cf_error_tasks = False\<rparr>"

definition example_arrival :: "chat_response \<Rightarrow> string option \<Rightarrow> unit arrival" where
  "example_arrival r cred = \<lparr>av_credentials = cred, av_draw = example_draw ''d'', av_deps = example_deps (\<lambda>n p q. Inr r),
     av_request_id = ''rid'', av_trace = None, av_policy_fault = None, av_log_fault = None, av_stamped = True\<rparr>"

definition example_installation :: "unit installation" where
  "example_installation = \<lparr>sys_accounts = two_tenants, sys_models = [], sys_limits = (\<lambda>t. None),
     sys_policies = (\<lambda>t. None), sys_log = [], sys_gateway = example_gateway example_budget fresh_state\<rparr>"

lemma example_callers:
  "caller_of example_cf (example_arrival r (Some ''cxg_x'')) example_installation =
     Inr \<lparr>ctx_organization_id = ''z'', ctx_team_id = ''y'', ctx_api_key_id = ''x'', ctx_role = ''admin''\<rparr>"
  "caller_of example_cf (example_arrival r (Some ''cxg_k'')) example_installation = Inr example_context"
  unfolding caller_of_def example_installation_def example_arrival_def example_cf_def by (simp, code_simp)+

lemma example_installation_wf: "wf_installation example_installation"
proof -
  have "wf_budgets (budgets_of example_installation)" "budgets_of example_installation t \<noteq> None \<longrightarrow> t = ''t''" for t
    by (auto simp: example_installation_def budgets_of_def example_gateway_def wf_budgets_def wf_budget_def
        example_budget_def budget_periods_def budget_policies_def)
  moreover have "(''t'', ''o'') \<in> set (team_pairs two_tenants)"
    by (simp add: team_pairs_def two_tenants_def Let_def)
  ultimately show ?thesis
    using two_tenants_wf
    by (force simp: wf_installation_def rows_owned_def Let_def example_installation_def wf_table_def wf_limits_def
        wf_policies_def)
qed

theorem installation_stays_wf_witness:
  "wf_installation (serve_all example_cf [(example_arrival answer (Some ''cxg_x''), DeleteBudget ''t''),
     (example_arrival answer (Some ''cxg_k''), ChatCompletion manual_request)] example_installation)"
  by (rule installation_stays_wf [OF example_installation_wf])

theorem tenants_isolated_witness:
  "tenant_view ''o'' (serve_all example_cf [(example_arrival answer (Some ''cxg_x''), DeleteBudget ''t'')] example_installation) =
     tenant_view ''o'' example_installation"
proof (rule tenants_isolated [OF example_installation_wf])
  show "is_organization ''o'' example_installation"
    by (simp add: is_organization_def example_installation_def two_tenants_def Let_def)
qed (simp add: acting_for_def example_callers)

end
