(* ===== verification/Dispatch.thy ===== *)
theory Dispatch
  imports Gateway
begin

text \<open>
  The requests of \<open>Gateway\<close> as HTTP requests: the method and path each comes under, and the proof that
  the application's routes lead it to its handler under the access check the handler's model makes.
\<close>

section \<open>Method and path\<close>

fun request_line :: "api_call \<Rightarrow> string \<times> string" where
  "request_line (Found b) = (''POST'', ''/api/v1/bootstrap'')"
| "request_line (NewOrganization b) = (''POST'', ''/api/v1/organizations'')"
| "request_line (NewTeam org b) = (''POST'', ''/api/v1/organizations/'' @ org @ ''/teams'')"
| "request_line (NewKey team b) = (''POST'', ''/api/v1/teams/'' @ team @ ''/keys'')"
| "request_line (RevokeKeyOf team k) = (''POST'', ''/api/v1/teams/'' @ team @ ''/keys/'' @ k @ ''/revoke'')"
| "request_line (CreateBudget team b) = (''POST'', ''/api/v1/teams/'' @ team @ ''/budget'')"
| "request_line (UpdateBudget team b) = (''PATCH'', ''/api/v1/teams/'' @ team @ ''/budget'')"
| "request_line (DeleteBudget team) = (''DELETE'', ''/api/v1/teams/'' @ team @ ''/budget'')"
| "request_line (SetLimits team rpm rph) = (''POST'', ''/api/v1/teams/'' @ team @ ''/rate-limits'')"
| "request_line (DeleteLimits team) = (''DELETE'', ''/api/v1/teams/'' @ team @ ''/rate-limits'')"
| "request_line (PutPolicy team b) = (''PUT'', ''/api/v1/teams/'' @ team @ ''/policy'')"
| "request_line (DeletePolicy team) = (''DELETE'', ''/api/v1/teams/'' @ team @ ''/policy'')"
| "request_line (CreateModel b) = (''POST'', ''/api/v1/models'')"
| "request_line (UpdateModel i b) = (''PATCH'', ''/api/v1/models/'' @ i)"
| "request_line (DeleteModel i) = (''DELETE'', ''/api/v1/models/'' @ i)"
| "request_line (ChatCompletion q) = (''POST'', ''/api/v1/chat/completions'')"

text \<open>The identifiers in the path\<close>

fun path_parts :: "api_call \<Rightarrow> string list" where
  "path_parts (NewTeam org b) = [org]"
| "path_parts (NewKey team b) = [team]"
| "path_parts (RevokeKeyOf team k) = [team, k]"
| "path_parts (CreateBudget team b) = [team]"
| "path_parts (UpdateBudget team b) = [team]"
| "path_parts (DeleteBudget team) = [team]"
| "path_parts (SetLimits team rpm rph) = [team]"
| "path_parts (DeleteLimits team) = [team]"
| "path_parts (PutPolicy team b) = [team]"
| "path_parts (DeletePolicy team) = [team]"
| "path_parts (UpdateModel i b) = [i]"
| "path_parts (DeleteModel i) = [i]"
| "path_parts c = []"

definition path_part :: "string \<Rightarrow> bool" where
  "path_part s = (s \<noteq> [] \<and> \<not> List.member s CHR ''/'')"

text \<open>The route of the endpoint each request is meant for\<close>

fun route_for :: "api_call \<Rightarrow> api_route" where
  "route_for (Found b) = bootstrap_route"
| "route_for (NewOrganization b) = create_organization_route"
| "route_for (NewTeam org b) = create_team_route"
| "route_for (NewKey team b) = create_api_key_route"
| "route_for (RevokeKeyOf team k) = revoke_api_key_route"
| "route_for (CreateBudget team b) = create_budget_route"
| "route_for (UpdateBudget team b) = update_budget_route"
| "route_for (DeleteBudget team) = delete_budget_route"
| "route_for (SetLimits team rpm rph) = set_team_rate_limits_route"
| "route_for (DeleteLimits team) = delete_team_rate_limits_route"
| "route_for (PutPolicy team b) = put_policy_route"
| "route_for (DeletePolicy team) = delete_policy_route"
| "route_for (CreateModel b) = create_model_route"
| "route_for (UpdateModel i b) = update_model_route"
| "route_for (DeleteModel i) = delete_model_route"
| "route_for (ChatCompletion q) = chat_completions_route"

section \<open>Requests reach their handlers\<close>

lemma split_on_part: "CHR ''/'' \<notin> set s \<Longrightarrow> split_on CHR ''/'' s = [s]"
  by (induction s) auto

lemma split_on_parts: "CHR ''/'' \<notin> set s \<Longrightarrow> split_on CHR ''/'' (s @ CHR ''/'' # t) = s # split_on CHR ''/'' t"
  by (induction s) auto

lemma api_route_in:
  "\<lparr>rt_method = rt_method (route_for c), rt_path = ''/api/v1'' @ rt_path (route_for c),
     rt_handler = rt_handler (route_for c), rt_access = rt_access (route_for c)\<rparr> \<in> set gateway_routes"
proof -
  have "list_all (\<lambda>r. List.member gateway_routes \<lparr>rt_method = rt_method r, rt_path = ''/api/v1'' @ rt_path r,
      rt_handler = rt_handler r, rt_access = rt_access r\<rparr>)
    [bootstrap_route, create_organization_route, create_team_route, create_api_key_route, revoke_api_key_route,
     create_budget_route, update_budget_route, delete_budget_route, set_team_rate_limits_route,
     delete_team_rate_limits_route, put_policy_route, delete_policy_route, create_model_route, update_model_route,
     delete_model_route, chat_completions_route]"
    by code_simp
  then show ?thesis
    by (cases c) (simp_all add: List.member_iff)
qed

lemma find_fitting:
  assumes "r \<in> set gateway_routes" "fits m path r"
  shows "List.find (fits m path) gateway_routes = Some r"
proof -
  obtain r' where "List.find (fits m path) gateway_routes = Some r'"
    using assms by (cases "List.find (fits m path) gateway_routes") (auto simp: find_None_iff)
  moreover from this have "r' \<in> set gateway_routes" "fits m path r'"
    by (auto simp: find_Some_iff)
  ultimately show ?thesis
    using fits_unique [OF no_routes_overlap] assms by metis
qed

definition served_by :: "api_route \<Rightarrow> string \<Rightarrow> api_route" where
  "served_by r prefix = r\<lparr>rt_path := prefix @ rt_path r\<rparr>"

lemma served_by_simps [simp]:
  "rt_access (served_by r prefix) = rt_access r" "rt_handler (served_by r prefix) = rt_handler r"
  by (simp_all add: served_by_def)

lemma request_fits:
  assumes "list_all path_part (path_parts c)"
  shows "fits (fst (request_line c)) (snd (request_line c)) (served_by (route_for c) ''/api/v1'')"
  using assms
  by (cases c) (simp_all add: fits_def pattern_def served_by_def segment_def path_part_def List.member_iff
      split_on_part split_on_parts bootstrap_route_def create_organization_route_def create_team_route_def
      create_api_key_route_def revoke_api_key_route_def create_budget_route_def update_budget_route_def
      delete_budget_route_def set_team_rate_limits_route_def delete_team_rate_limits_route_def put_policy_route_def
      delete_policy_route_def create_model_route_def update_model_route_def delete_model_route_def
      chat_completions_route_def endpoint_def)

definition dispatch :: "string \<Rightarrow> configuration \<Rightarrow> 'r arrival \<Rightarrow> api_call \<Rightarrow> 'r installation \<Rightarrow> disposition" where
  "dispatch cors cf a c sys = (case request_line c of (m, path) \<Rightarrow>
     serve (fa_routes (create_application cors)) (cf_env cf) (av_draw a) (av_credentials a) (sys_accounts sys) m path)"

lemma dispatch_admission:
  assumes "list_all path_part (path_parts c)"
  shows "dispatch cors cf a c sys =
    (case admit (cf_env cf) (av_draw a) (av_credentials a) (sys_accounts sys) (rt_access (route_for c)) of
       Inl e \<Rightarrow> Refused e | Inr ctx \<Rightarrow> Handled (rt_handler (route_for c)) ctx)"
proof -
  have "served_by (route_for c) ''/api/v1'' \<in> set gateway_routes"
    using api_route_in [of c] by (cases "route_for c") (simp add: served_by_def)
  then have "List.find (fits (fst (request_line c)) (snd (request_line c))) gateway_routes =
      Some (served_by (route_for c) ''/api/v1'')"
    using request_fits [OF assms] by (rule find_fitting)
  then show ?thesis
    by (cases "admit (cf_env cf) (av_draw a) (av_credentials a) (sys_accounts sys) (rt_access (route_for c))")
      (simp_all add: dispatch_def split_def serve_def gateway_routes)
qed

lemma route_for_access: "rt_access (route_for c) = (case c of Found b \<Rightarrow> Anyone | ChatCompletion q \<Rightarrow> KeyHolder | _ \<Rightarrow> Administrator)"
  by (cases c) (simp_all add: bootstrap_route_def create_organization_route_def create_team_route_def
      create_api_key_route_def revoke_api_key_route_def create_budget_route_def update_budget_route_def
      delete_budget_route_def set_team_rate_limits_route_def delete_team_rate_limits_route_def put_policy_route_def
      delete_policy_route_def create_model_route_def update_model_route_def delete_model_route_def
      chat_completions_route_def endpoint_def)

lemma refused_no_effect:
  assumes "admit (cf_env cf) (av_draw a) (av_credentials a) (sys_accounts sys) (rt_access (route_for c)) = Inl e"
  shows "act cf a c sys = sys"
proof -
  have refused: "case c of Found b \<Rightarrow> False | ChatCompletion q \<Rightarrow> caller_of cf a sys = Inl e
      | _ \<Rightarrow> require_admin (caller_of cf a sys) = Inl e"
    using assms unfolding route_for_access
    by (cases c; cases "caller_of cf a sys"; cases "require_admin (caller_of cf a sys)")
      (simp_all add: admit_def caller_of_def)
  show ?thesis
  proof (cases "account_request a c")
    case None
    then show ?thesis
      using refused by (cases c) (simp_all add: as_administrator_def chat_step_def)
  next
    case (Some req)
    then have "auth_step (cf_env cf) (av_draw a) req (sys_accounts sys) = sys_accounts sys"
      using refused
      by (cases c) (auto simp: caller_of_def post_organization_def post_team_def post_key_def revoke_key_def)
    then show ?thesis
      by (simp add: act_request_others [OF Some])
  qed
qed

text \<open>
  C12: every request reaches the handler it is meant for, and no other. Whatever identifiers its path
  carries, the application's routes lead it to its own endpoint, under exactly that endpoint's demand on
  the caller; and a request these demands refuse changes nothing, except that the key of an
  authenticated caller may be stamped as used.
\<close>

theorem requests_dispatched:
  assumes "list_all path_part (path_parts c)"
  shows "dispatch cors cf a c sys =
      (case admit (cf_env cf) (av_draw a) (av_credentials a) (sys_accounts sys) (rt_access (route_for c)) of
         Inl e \<Rightarrow> Refused e | Inr ctx \<Rightarrow> Handled (rt_handler (route_for c)) ctx) \<and>
    (case dispatch cors cf a c sys of
       Unrouted \<Rightarrow> False | Handled h ctx \<Rightarrow> h = rt_handler (route_for c)
     | Refused e \<Rightarrow> handle cf (a, c) sys = stamp cf a c sys sys)"
  unfolding dispatch_admission [OF assms]
  using refused_no_effect [of cf a sys c] by (auto simp: handle_def split: sum.split)

theorem requests_dispatched_witness:
  "dispatch [] example_cf (example_arrival answer None) (DeleteBudget ''t'') example_installation = Refused unauthenticated \<and>
   handle example_cf (example_arrival answer None, DeleteBudget ''t'') example_installation = example_installation"
proof -
  have nobody: "caller_of example_cf (example_arrival answer None) example_installation = Inl unauthenticated"
    by (simp add: caller_of_def example_arrival_def caller_def get_request_context_def)
  have "list_all path_part (path_parts (DeleteBudget ''t''))"
    by (simp add: path_part_def List.member_iff)
  note sent = requests_dispatched [OF this, of "[]" example_cf "example_arrival answer None" example_installation]
  have "dispatch [] example_cf (example_arrival answer None) (DeleteBudget ''t'') example_installation = Refused unauthenticated"
    using sent nobody by (simp add: delete_budget_route_def endpoint_def admit_def require_admin_def caller_of_def)
  then show ?thesis
    using sent [THEN conjunct2] nobody by (simp add: stamp_def)
qed

end
