(* ===== verification/Accounting.thy ===== *)
theory Accounting
  imports Dispatch
begin

text \<open>
  The log audited against the budgets: over any run of the gateway, what the rows of a team report as
  cost is what its budget was charged, up to the rounding of the rows.
\<close>

section \<open>What the log says a team spent\<close>

definition is_row_of :: "string \<Rightarrow> log_row \<Rightarrow> bool" where
  "is_row_of team r = (lg_team_id (row_log r) = Some team)"

definition logged_cost :: "string \<Rightarrow> log_table \<Rightarrow> real" where
  "logged_cost team rows = sum_list (map (\<lambda>r. or_else (lg_actual_cost (row_log r)) 0) (filter (is_row_of team) rows))"

lemma logged_cost_simps [simp]:
  "logged_cost team [] = 0" "logged_cost team (xs @ ys) = logged_cost team xs + logged_cost team ys"
  by (simp_all add: logged_cost_def)

text \<open>
  Amounts only accumulate while no administrator replaces the team's budget, and rows only while they are
  written: the log's own session does not fail and the request has an id. A chat request of the team is
  moreover \<open>undisturbed\<close>: its session is its own and the budget's period does not end while it runs.
\<close>

fun faithful_request :: "configuration \<Rightarrow> string \<Rightarrow> 'r arrival \<times> api_call \<Rightarrow> 'r installation \<Rightarrow> bool" where
  "faithful_request cf team (a, CreateBudget t b) sys = (t \<noteq> team)"
| "faithful_request cf team (a, UpdateBudget t b) sys = (t \<noteq> team)"
| "faithful_request cf team (a, DeleteBudget t) sys = (t \<noteq> team)"
| "faithful_request cf team (a, ChatCompletion q) sys = (case caller_of cf a sys of
     Inl e \<Rightarrow> True
   | Inr ctx \<Rightarrow> ctx_team_id ctx = team \<longrightarrow> av_log_fault a = None \<and> av_request_id a \<noteq> [] \<and>
       undisturbed (injected (chat_deps a)) ctx (chat_state sys))"
| "faithful_request cf team (a, c) sys = True"

fun faithful_run :: "configuration \<Rightarrow> string \<Rightarrow> ('r arrival \<times> api_call) list \<Rightarrow> 'r installation \<Rightarrow> bool" where
  "faithful_run cf team [] sys = True"
| "faithful_run cf team (x # xs) sys = (faithful_request cf team x sys \<and> faithful_run cf team xs (handle cf x sys))"

section \<open>One request\<close>

text \<open>A row after some charges, and the log rows that report them\<close>

definition accounted :: "string \<Rightarrow> budget \<Rightarrow> log_table \<Rightarrow> budget \<Rightarrow> bool" where
  "accounted team b rows b' = (terms b' = terms b \<and> reserved b' = reserved b \<and>
     \<bar>current_usage b' - current_usage b - logged_cost team rows\<bar> \<le> real (length (filter (is_row_of team) rows)) / (2 * 10 ^ 8))"

lemma accounted_refl: "logged_cost team rows = 0 \<Longrightarrow> accounted team b rows b"
  by (simp add: accounted_def)

lemma accounted_trans:
  assumes "accounted team x xs y" "accounted team y ys z"
  shows "accounted team x (xs @ ys) z"
proof -
  let ?half = "\<lambda>rows. real (length (filter (is_row_of team) rows)) / (2 * 10 ^ 8)"
  have "?half (xs @ ys) = ?half xs + ?half ys"
    by (simp add: add_divide_distrib)
  moreover have "\<bar>current_usage y - current_usage x - logged_cost team xs\<bar> \<le> ?half xs"
    "\<bar>current_usage z - current_usage y - logged_cost team ys\<bar> \<le> ?half ys"
    using assms unfolding accounted_def by blast+
  ultimately have "\<bar>current_usage z - current_usage x - logged_cost team (xs @ ys)\<bar> \<le> ?half (xs @ ys)"
    unfolding logged_cost_simps by linarith
  then show ?thesis
    using assms unfolding accounted_def by simp
qed

definition costs_positive :: "string \<Rightarrow> log_table \<Rightarrow> bool" where
  "costs_positive team rows = list_all (\<lambda>r. is_row_of team r \<longrightarrow> 0 \<le> or_else (lg_actual_cost (row_log r)) 0) rows"

text \<open>A charge the row reports, rounded\<close>

lemma charge_near:
  assumes "0 \<le> u" "0 \<le> py_round c 8"
  shows "\<bar>max 0 (u + c) - u - py_round c 8\<bar> \<le> 1 / (2 * 10 ^ 8)"
  using assms py_round_near [of c 8] by (cases "0 \<le> u + c") (simp_all add: max_def abs_minus_commute [of c])

lemma charged_accounted:
  assumes "bg_enabled b" "0 \<le> current_usage b" "is_row_of team r" "costs_positive team [r]"
    and "lg_actual_cost (row_log r) = (if c = 0 then None else Some (py_round c 8))"
  shows "accounted team b [r] (charging c b)"
  using assms charge_near [of "current_usage b" c]
  by (auto simp: accounted_def charging_def terms_def logged_cost_def costs_positive_def or_else_def split: if_splits)

lemma enabled_charging: "bg_enabled (charging c b) = bg_enabled b" "0 \<le> current_usage b \<Longrightarrow> 0 \<le> current_usage (charging c b)"
  by (simp_all add: charging_def)

lemma other_charged:
  assumes "only_amounts t tbl tbl'" "t \<noteq> team"
  shows "tbl' team = tbl team"
  using assms by (simp add: only_amounts_def)

text \<open>Requests that neither log nor charge\<close>

lemma administrator_silent:
  assumes "\<And>teams org. sys_log (f teams org sys) = sys_log sys \<and> budgets_of (f teams org sys) team = budgets_of sys team"
  shows "sys_log (as_administrator cf a f sys) = sys_log sys \<and> budgets_of (as_administrator cf a f sys) team = budgets_of sys team"
  by (rule as_administrator_cases [of cf a f sys]) (simp_all add: assms)

lemma account_silent [simp]:
  "sys_log (account_step cf a req sys) = sys_log sys" "budgets_of (account_step cf a req sys) = budgets_of sys"
  by (simp_all add: account_step_def)

lemma stamp_silent [simp]:
  "sys_log (stamp cf a c sys0 sys) = sys_log sys" "budgets_of (stamp cf a c sys0 sys) = budgets_of sys"
  by (auto simp: stamp_def split: api_call.splits sum.splits)

lemma budget_edit_elsewhere:
  assumes "t \<noteq> team"
  shows "snd (post_budget teams org (i, now, t, b) tbl) team = tbl team"
    and "snd (patch_budget teams org t u tbl) team = tbl team" and "snd (remove_budget teams org t tbl) team = tbl team"
  using assms
  by (auto simp: post_budget_def patch_budget_def remove_budget_def create_budget_def update_budget_def delete_budget_def Let_def
      split: sum.splits option.splits prod.splits if_splits)

lemma act_silent:
  assumes "faithful_request cf team (a, c) sys" "\<And>q. c \<noteq> ChatCompletion q"
  shows "sys_log (act cf a c sys) = sys_log sys \<and> budgets_of (act cf a c sys) team = budgets_of sys team"
proof -
  have silent: "sys_log (as_administrator cf a f sys) = sys_log sys" "budgets_of (as_administrator cf a f sys) team = budgets_of sys team"
    if "\<And>teams org. sys_log (f teams org sys) = sys_log sys \<and> budgets_of (f teams org sys) team = budgets_of sys team" for f
    using administrator_silent [of f, OF that] by simp_all
  show ?thesis
  proof (cases c)
    case (ChatCompletion q)
    then show ?thesis using assms(2) by blast
  qed (use assms(1) in \<open>simp_all add: silent budget_edit_elsewhere\<close>)
qed

lemma failed_row:
  assumes "chat_completions d logs trace policy q rid ctx g = (Inl e, Some l, g')"
  shows "lg_status l \<noteq> ''success''"
  using assms
proof (cases rule: chat_cases)
  case (Blocked run)
  then show ?thesis by (auto simp: build_error_log_def split: if_splits)
qed (auto split: if_splits)

lemma chat_accounted:
  assumes "cf_log_enabled cf" "faithful_request cf team (a, ChatCompletion q) sys"
    and "budgets_of sys team = Some b" "bg_enabled b" "0 \<le> current_usage b"
  shows "\<exists>rows b'. sys_log (chat_step cf a q sys) = sys_log sys @ rows \<and> budgets_of (chat_step cf a q sys) team = Some b' \<and>
    bg_enabled b' \<and> 0 \<le> current_usage b' \<and> (costs_positive team rows \<longrightarrow> accounted team b rows b')"
proof (cases rule: chat_step_cases [of cf a q sys])
  case 1
  then show ?thesis using assms(3-5) by (intro exI [of _ "[]"] exI [of _ b]) (simp add: accounted_refl)
next
  case (2 ctx q' res entry g)
  show ?thesis
  proof (cases "ctx_team_id ctx = team")
    case True
    then have ok: "av_log_fault a = None" "av_request_id a \<noteq> []" "undisturbed (injected (chat_deps a)) ctx (chat_state sys)"
      using assms(2) 2(1) by simp_all
    have wf: "wf_request q'" using validate_request_wf 2(2) by blast
    have run: "chat_completions (chat_deps a) True (av_trace a) (policy_for a ctx sys) q' (av_request_id a) ctx
        (chat_state sys) = (res, entry, g)"
      using 2(3) assms(1) by simp
    obtain l cost where l: "entry = Some l" "lg_actual_cost l = (if cost = 0 then None else Some (py_round cost 8))"
      "gw_budgets g team = (if lg_status l = ''success'' then map_option (charging cost) (budgets_of sys team)
         else budgets_of sys team)" "lg_status l \<noteq> ''success'' \<longrightarrow> cost = 0"
      using row_states_charge [OF ok(3) wf run] unfolding budgets_of_update True by blast
    let ?r = "\<lparr>row_id = dr_id (av_draw a) 0, row_created_at = dr_now (av_draw a), row_log = l\<rparr>"
    have owner: "lg_team_id l = Some team" "lg_request_id l = av_request_id a"
      using entry_owner [OF 2(3) [unfolded l(1)]] True by simp_all
    have "log_entry cf a res entry (sys_log sys) = sys_log sys @ [?r] \<or>
        log_entry cf a res entry (sys_log sys) = sys_log sys @ [] \<and> (\<exists>e. res = Inl e)"
      using l(1) ok owner by (cases res) (simp_all add: log_entry_def write_request_log_def)
    then obtain rows where written: "log_entry cf a res entry (sys_log sys) = sys_log sys @ rows"
        "rows = [?r] \<or> rows = [] \<and> (\<exists>e. res = Inl e)"
      by blast
    have row: "gw_budgets g team = Some (if lg_status l = ''success'' then charging cost b else b)"
      using l(3) assms(3) by simp
    have "accounted team b [?r] (if lg_status l = ''success'' then charging cost b else b)"
      if "costs_positive team [?r]"
    proof (cases "lg_status l = ''success''")
      case True
      then show ?thesis
        using charged_accounted [OF assms(4,5) _ that, of cost] l(2) owner by (simp add: is_row_of_def)
    next
      case False
      then show ?thesis using l(2,4) by (simp add: accounted_def logged_cost_def or_else_def)
    qed
    moreover have "lg_status l \<noteq> ''success''" if "res = Inl e" for e
      using failed_row [OF run [unfolded that l(1)]] .
    ultimately have "costs_positive team rows \<longrightarrow> accounted team b rows (if lg_status l = ''success'' then charging cost b else b)"
      using written(2) by (auto simp: accounted_refl)
    with row show ?thesis
      using assms(4,5) written(1) unfolding 2(4)
      by (intro exI [of _ rows] exI [of _ "if lg_status l = ''success'' then charging cost b else b"])
        (simp add: enabled_charging)
  next
    case False
    have row: "gw_budgets g team = Some b" using other_charged [OF 2(5) False] assms(3) by simp
    obtain rows where "log_entry cf a res entry (sys_log sys) = sys_log sys @ rows" "filter (is_row_of team) rows = []"
      by (rule log_entry_owner [OF 2(3), of cf a "sys_log sys"]) (use False in \<open>auto simp: is_row_of_def\<close>)
    then show ?thesis
      using row assms(4,5) unfolding 2(4) by (intro exI [of _ rows] exI [of _ b]) (simp add: accounted_def logged_cost_def)
  qed
qed

lemma handle_accounted:
  assumes "cf_log_enabled cf" "faithful_request cf team x sys"
    and "budgets_of sys team = Some b" "bg_enabled b" "0 \<le> current_usage b"
  shows "\<exists>rows b'. sys_log (handle cf x sys) = sys_log sys @ rows \<and> budgets_of (handle cf x sys) team = Some b' \<and>
    bg_enabled b' \<and> 0 \<le> current_usage b' \<and> (costs_positive team rows \<longrightarrow> accounted team b rows b')"
proof -
  obtain a c where x: "x = (a, c)" by (cases x)
  show ?thesis
  proof (cases "\<exists>q. c = ChatCompletion q")
    case True
    then show ?thesis using chat_accounted [OF assms(1) _ assms(3-5)] assms(2) by (auto simp: x handle_def)
  next
    case False
    then have "sys_log (act cf a c sys) = sys_log sys \<and> budgets_of (act cf a c sys) team = budgets_of sys team"
      using act_silent assms(2) x by blast
    then show ?thesis
      using assms(3-5) by (intro exI [of _ "[]"] exI [of _ b]) (simp add: x handle_def accounted_refl)
  qed
qed

section \<open>Runs\<close>

lemma serve_simps [simp]:
  "serve_all cf [] sys = sys" "serve_all cf (x # xs) sys = serve_all cf xs (handle cf x sys)"
  by (simp_all add: serve_all_def)

lemma costs_positive_append [simp]: "costs_positive team (xs @ ys) = (costs_positive team xs \<and> costs_positive team ys)"
  by (simp add: costs_positive_def)

lemma run_accounted:
  assumes "cf_log_enabled cf" "faithful_run cf team reqs sys" "budgets_of sys team = Some b" "bg_enabled b" "0 \<le> current_usage b"
  shows "\<exists>rows b'. sys_log (serve_all cf reqs sys) = sys_log sys @ rows \<and> budgets_of (serve_all cf reqs sys) team = Some b' \<and>
    (costs_positive team rows \<longrightarrow> accounted team b rows b')"
  using assms(2-)
proof (induction reqs arbitrary: sys b)
  case Nil
  then show ?case by (simp add: accounted_refl)
next
  case (Cons x reqs)
  from Cons.prems(1) have step: "faithful_request cf team x sys" and later: "faithful_run cf team reqs (handle cf x sys)"
    by simp_all
  obtain rows1 y where 1: "sys_log (handle cf x sys) = sys_log sys @ rows1" "budgets_of (handle cf x sys) team = Some y"
    "bg_enabled y" "0 \<le> current_usage y" "costs_positive team rows1 \<longrightarrow> accounted team b rows1 y"
    using handle_accounted [OF assms(1) step Cons.prems(2-)] by blast
  obtain rows2 z where "sys_log (serve_all cf reqs (handle cf x sys)) = (sys_log sys @ rows1) @ rows2"
    "budgets_of (serve_all cf reqs (handle cf x sys)) team = Some z" "costs_positive team rows2 \<longrightarrow> accounted team y rows2 z"
    using Cons.IH [OF later 1(2-4)] unfolding 1(1) by blast
  then show ?case
    using 1(5) accounted_trans by (intro exI [of _ "rows1 @ rows2"] exI [of _ z]) auto
qed

section \<open>Failures in the log\<close>

definition reports_success :: "log_row \<Rightarrow> bool" where
  "reports_success r = (lg_status (row_log r) = ''success'' \<and> lg_error_code (row_log r) = None)"

lemma served_row:
  assumes "chat_completions d logs trace policy q rid ctx g = (Inr r, Some l, g')"
  shows "lg_status l = ''success'' \<and> lg_error_code l = None"
  using assms
proof (cases rule: chat_cases)
  case Ran
  then show ?thesis by (auto simp: build_success_log_def Let_def split: if_splits)
qed simp

lemma act_log:
  assumes "\<And>q. c \<noteq> ChatCompletion q"
  shows "sys_log (act cf a c sys) = sys_log sys"
proof (cases c)
  case (ChatCompletion q)
  then show ?thesis using assms by blast
qed (simp_all add: as_administrator_def split: sum.split)

lemma chat_successes:
  assumes "\<not> cf_error_tasks cf" "list_all reports_success (sys_log sys)"
  shows "list_all reports_success (sys_log (chat_step cf a q sys))"
proof (cases rule: chat_step_cases [of cf a q sys])
  case (2 ctx q' res entry g)
  show ?thesis
  proof (cases res)
    case (Inl e)
    then show ?thesis using assms 2(4) by (simp add: log_entry_def split: option.split)
  next
    case (Inr r)
    have "lg_status l = ''success'' \<and> lg_error_code l = None" if "entry = Some l" for l
      using served_row [OF 2(3) [unfolded that Inr]] .
    then show ?thesis
      using assms(2) Inr unfolding 2(4)
      by (auto simp: log_entry_def write_request_log_def reports_success_def split: option.split)
  qed
qed (use assms(2) in simp)

lemma run_successes:
  assumes "\<not> cf_error_tasks cf" "list_all reports_success (sys_log sys)"
  shows "list_all reports_success (sys_log (serve_all cf reqs sys))"
  using assms(2)
proof (induction reqs arbitrary: sys)
  case (Cons x reqs)
  obtain a c where x: "x = (a, c)" by (cases x)
  have "list_all reports_success (sys_log (act cf a c sys))"
    using chat_successes [OF assms(1) Cons.prems] act_log [of c cf a sys] Cons.prems by (cases c) simp_all
  then show ?case
    using Cons.IH by (simp add: x handle_def)
qed simp

section \<open>Properties\<close>

text \<open>
  C5: the log is an audit trail of the budget. Over a run of requests of every kind, in which no
  administrator replaces the team's budget and the team's chat requests are undisturbed and logged, rows
  are only appended; and when no row reports a negative cost, what the team's new rows report is what
  the usage of its budget has grown by, within half a unit of the eighth decimal per row, and its
  reservations are as before.
\<close>

theorem budget_matches_log:
  assumes "cf_log_enabled cf" "faithful_run cf team reqs sys"
    and "budgets_of sys team = Some b" "bg_enabled b" "0 \<le> current_usage b"
  shows "\<exists>rows b'. sys_log (serve_all cf reqs sys) = sys_log sys @ rows \<and>
    budgets_of (serve_all cf reqs sys) team = Some b' \<and>
    (list_all (\<lambda>r. is_row_of team r \<longrightarrow> 0 \<le> or_else (lg_actual_cost (row_log r)) 0) rows \<longrightarrow>
       \<bar>(current_usage b' - current_usage b) - logged_cost team rows\<bar>
         \<le> real (length (filter (is_row_of team) rows)) / (2 * 10 ^ 8) \<and>
       reserved b' = reserved b \<and> limit_amount b' = limit_amount b)"
  using run_accounted [OF assms]
  by (simp only: accounted_def costs_positive_def terms_def prod.inject) blast

text \<open>
  C36: failures are never reported. The row of a failed request is handed to the background tasks of a
  handler that then raises, and where the framework drops these, as FastAPI does, no sequence of
  requests ever puts one into the log: every row says success, the error report is empty for every
  filter, and the rate-limited, budget-blocked and guardrail-blocked requests are in no count.
\<close>

theorem failures_never_reported:
  assumes "\<not> cf_error_tasks cf" "list_all reports_success (sys_log sys)"
  shows "list_all reports_success (sys_log (serve_all cf reqs sys)) \<and>
    aggregate_errors f (sys_log (serve_all cf reqs sys)) = [] \<and>
    (fi_status f \<notin> {None, Some [], Some ''success''} \<longrightarrow>
       list_requests f page page_size (sys_log (serve_all cf reqs sys)) = ([], 0))"
proof -
  let ?log = "sys_log (serve_all cf reqs sys)"
  have all: "list_all reports_success ?log" using run_successes assms by blast
  then have "filter (\<lambda>r. lg_error_code (row_log r) \<noteq> None \<and> apply_common_filters f r) ?log = []"
    by (auto simp: filter_empty_conv list_all_iff reports_success_def)
  then have errors: "aggregate_errors f ?log = []"
    unfolding aggregate_errors_def Let_def by (simp add: group_by_def sort_desc_def)
  have "list_requests f page page_size ?log = ([], 0)"
    if other: "fi_status f \<notin> {None, Some [], Some ''success''}"
  proof -
    have "filter (apply_common_filters f) ?log = []"
      using all other
      by (auto simp: filter_empty_conv list_all_iff reports_success_def apply_common_filters_def Let_def eq_filter_def
          split: option.splits)
    then show ?thesis by (simp add: list_requests_def Let_def sort_desc_def)
  qed
  with all errors show ?thesis by blast
qed

section \<open>Witnesses\<close>

theorem failures_never_reported_witness:
  "aggregate_errors \<lparr>fi_organization = ''o'', fi_team = None, fi_provider = None, fi_model = None, fi_status = None,
      fi_request_id = None, fi_from = None, fi_to = None\<rparr>
    (sys_log (serve_all example_cf [(example_arrival answer (Some ''cxg_k''), ChatCompletion example_request)]
       example_installation)) = []"
proof -
  have "\<not> cf_error_tasks example_cf" "list_all reports_success (sys_log example_installation)"
    by (simp_all add: example_cf_def example_installation_def)
  from failures_never_reported [OF this] show ?thesis by blast
qed

lemma manual_request_valid: "validate_request manual_request = Inr manual_request"
  by code_simp

text \<open>One chat request against the example's budget\<close>

theorem budget_matches_log_witness:
  "\<exists>rows b'. sys_log (serve_all example_cf [(example_arrival answer (Some ''cxg_k''), ChatCompletion manual_request)]
      example_installation) = rows \<and>
    budgets_of (serve_all example_cf [(example_arrival answer (Some ''cxg_k''), ChatCompletion manual_request)]
      example_installation) ''t'' = Some b'"
proof -
  let ?a = "example_arrival answer (Some ''cxg_k'')"
  have state: "chat_state example_installation = example_gateway example_budget fresh_state"
    by (simp add: chat_state_def example_installation_def example_gateway_def)
  have deps: "chat_deps ?a = example_deps (\<lambda>n p q. Inr answer)"
    by (simp add: chat_deps_def example_arrival_def example_deps_def)
  have "faithful_run example_cf ''t'' [(?a, ChatCompletion manual_request)] example_installation"
    using example_undisturbed
    by (simp add: example_callers state deps) (simp add: example_arrival_def)
  moreover have "budgets_of example_installation ''t'' = Some example_budget"
    by (simp add: budgets_of_def example_installation_def example_gateway_def)
  moreover have "cf_log_enabled example_cf" "bg_enabled example_budget" "0 \<le> current_usage example_budget"
    by (simp_all add: example_cf_def example_budget_def)
  ultimately show ?thesis
    using budget_matches_log [of example_cf "''t''"] by blast
qed

end
