(* ===== verification/Wiring.thy ===== *)
theory Wiring
  imports Startup Executor
begin

text \<open>
  The services as the process builds them from its settings: the routing engine (\<open>get_routing_engine\<close>,
  \<open>routing/router.py\<close>), the breaker registry (\<open>get_circuit_breaker_registry\<close>,
  \<open>reliability/circuit_breaker.py\<close>), the executor (\<open>get_reliability_executor\<close>, \<open>reliability/executor.py\<close>)
  and the state after the startup part of \<open>lifespan\<close> (\<open>main.py\<close>). Each is a singleton built on first use.
\<close>

section \<open>Settings\<close>

record routing_settings =
  routing_enabled :: bool
  routing_default_mode :: string
  routing_health_weight :: real
  routing_success_rate_weight :: real
  routing_latency_weight :: real
  routing_cost_weight :: real
  routing_ollama_cost_per_1k :: real

definition default_routing_settings :: routing_settings where
  "default_routing_settings = \<lparr>routing_enabled = True, routing_default_mode = ''auto'',
     routing_health_weight = 30 / 100, routing_success_rate_weight = 30 / 100,
     routing_latency_weight = 20 / 100, routing_cost_weight = 20 / 100, routing_ollama_cost_per_1k = 0\<rparr>"

record reliability_settings =
  reliability_total_request_timeout_seconds :: int
  reliability_max_retries :: int
  reliability_retry_base_delay_seconds :: real
  reliability_retry_max_delay_seconds :: real
  reliability_retry_jitter :: bool
  circuit_breaker_failure_threshold :: int
  circuit_breaker_cooldown_seconds :: real
  circuit_breaker_half_open_trials :: int
  reliability_max_failover_attempts :: int

definition default_reliability_settings :: reliability_settings where
  "default_reliability_settings = \<lparr>reliability_total_request_timeout_seconds = 120,
     reliability_max_retries = 2, reliability_retry_base_delay_seconds = 25 / 100,
     reliability_retry_max_delay_seconds = 2, reliability_retry_jitter = True,
     circuit_breaker_failure_threshold = 5, circuit_breaker_cooldown_seconds = 30,
     circuit_breaker_half_open_trials = 1, reliability_max_failover_attempts = 2\<rparr>"

section \<open>Construction\<close>

text \<open>
  The constructor of the engine: a catalog passed in is used as it is, and only without one the setting
  for Ollama's cost is; the weight profiles are those of a policy registry built without arguments.
\<close>

definition new_routing_engine ::
  "provider_registry \<Rightarrow> stats_tracker \<Rightarrow> model_catalog option \<Rightarrow> policy_weights option \<Rightarrow> string \<Rightarrow> real \<Rightarrow> routing_engine" where
  "new_routing_engine reg stats catalog auto_weights default_mode ollama_cost =
     \<lparr>en_registry = reg, en_stats = stats,
      en_catalog = (case catalog of Some c \<Rightarrow> c | None \<Rightarrow> new_catalog\<lparr>c_ollama_default_cost := ollama_cost\<rparr>),
      en_auto_weights = auto_weights, en_default_mode = default_mode\<rparr>"

definition get_routing_engine :: "routing_settings \<Rightarrow> provider_registry \<Rightarrow> model_catalog \<Rightarrow> routing_engine" where
  "get_routing_engine s reg shared_catalog =
     new_routing_engine reg (\<lambda>k. None) (Some shared_catalog) None (routing_default_mode s) (routing_ollama_cost_per_1k s)"

definition get_circuit_breaker_registry :: "reliability_settings \<Rightarrow> breaker_registry" where
  "get_circuit_breaker_registry s = new_registry (circuit_breaker_failure_threshold s)
     (circuit_breaker_cooldown_seconds s) (circuit_breaker_half_open_trials s)"

definition get_reliability_executor :: "reliability_settings \<Rightarrow> routing_engine \<Rightarrow> executor" where
  "get_reliability_executor s router =
     \<lparr>k_registry = en_registry router, k_auto_weights = en_auto_weights router, k_default_mode = en_default_mode router,
      k_retry = \<lparr>max_retries = reliability_max_retries s, base_delay_seconds = reliability_retry_base_delay_seconds s,
        max_delay_seconds = reliability_retry_max_delay_seconds s, jitter = reliability_retry_jitter s\<rparr>,
      k_total_timeout = of_int (reliability_total_request_timeout_seconds s),
      k_max_failover = reliability_max_failover_attempts s\<rparr>"

text \<open>The process after startup.\<close>

record process =
  pc_engine :: routing_engine
  pc_executor :: executor
  pc_shared :: shared
  pc_cache :: semantic_cache

definition lifespan_startup ::
  "routing_settings \<Rightarrow> reliability_settings \<Rightarrow> provider_settings \<Rightarrow> cache_settings \<Rightarrow> exn + registry_table \<Rightarrow> process" where
  "lifespan_startup rs ls ps cs db =
     (let reg = init_providers ps [];
          catalog = init_model_catalog db new_catalog;
          cache = build_semantic_cache True ps cs;
          engine = get_routing_engine rs reg catalog
      in \<lparr>pc_engine = engine, pc_executor = get_reliability_executor ls engine,
          pc_shared = \<lparr>s_breakers = get_circuit_breaker_registry ls, s_stats = en_stats engine, s_catalog = catalog\<rparr>,
          pc_cache = cache\<rparr>)"

section \<open>Facts\<close>

text \<open>The weights and the Ollama price of the settings reach nothing.\<close>

theorem routing_settings_inert:
  assumes "routing_default_mode rs = routing_default_mode rs'"
  shows "lifespan_startup rs ls ps cs db = lifespan_startup rs' ls ps cs db"
  using assms by (simp add: lifespan_startup_def get_routing_engine_def new_routing_engine_def Let_def)

theorem routing_settings_inert_witness:
  "lifespan_startup (default_routing_settings\<lparr>routing_cost_weight := 1, routing_ollama_cost_per_1k := 5\<rparr>)
     default_reliability_settings default_provider_settings default_cache_settings (Inr []) =
   lifespan_startup default_routing_settings default_reliability_settings default_provider_settings
     default_cache_settings (Inr [])"
  by (rule routing_settings_inert) simp

lemma startup_engine:
  "en_registry (pc_engine (lifespan_startup rs ls ps cs db)) = init_providers ps []"
  "en_catalog (pc_engine (lifespan_startup rs ls ps cs db)) = init_model_catalog db new_catalog"
  "engine_of (pc_executor (lifespan_startup rs ls ps cs db)) (pc_shared (lifespan_startup rs ls ps cs db)) =
     pc_engine (lifespan_startup rs ls ps cs db)"
  by (simp_all add: lifespan_startup_def get_routing_engine_def new_routing_engine_def get_reliability_executor_def
      engine_of_def Let_def)

text \<open>Candidates come from registered providers.\<close>

lemma built_registered:
  assumes "c \<in> set (build_candidates probe reg cat st)"
  obtains name where "reg_get name reg = Inr (rc_provider c)"
proof -
  obtain name where name: "c \<in> set (case inspect_provider probe reg name of None \<Rightarrow> []
      | Some (p, healthy, live) \<Rightarrow> map (candidate_of cat st p healthy) (models_for cat p live))"
    using assms unfolding build_candidates_def set_concat set_map by blast
  then obtain p h live where "inspect_provider probe reg name = Some (p, h, live)" "rc_provider c = p"
    by (cases "inspect_provider probe reg name") (auto simp: candidate_of_def Let_def)
  then show thesis
    using that by (auto simp: inspect_provider_def split: sum.splits)
qed

lemma registered_found: "is_registered n reg \<longleftrightarrow> (\<exists>p. reg_get n reg = Inr p)"
  by (auto simp: is_registered_def reg_get_def Let_def split: option.splits)

text \<open>The provider a request is routed to, outside manual mode one that answers to its own name.\<close>

lemma routed_registered:
  assumes "route probe en q = Inr d"
  shows "(\<exists>p. reg_get (rd_provider d) (en_registry en) = Inr p) \<or>
    (\<exists>name. reg_get name (en_registry en) = Inr (rd_provider d))"
proof -
  obtain mode where mode: "resolve_routing_mode (en_default_mode en) q = Inr mode"
    using assms by (auto simp: route_def split: sum.splits)
  show ?thesis
  proof (cases "mode = ''manual''")
    case True
    then show ?thesis
      using assms mode registered_found
      by (auto simp: route_def route_manual_def Let_def split: if_splits)
  next
    case False
    have "\<exists>best :: scored_candidate. rd_provider d = rc_provider (sc_candidate best) \<and>
        sc_candidate best \<in> set (healthy_pool (request_pool probe en q))"
      by (rule route_best [OF mode False assms]) blast
    then obtain best :: scored_candidate where best: "rd_provider d = rc_provider (sc_candidate best)"
      "sc_candidate best \<in> set (healthy_pool (request_pool probe en q))" by blast
    then have "sc_candidate best \<in> set (build_candidates probe (en_registry en) (en_catalog en) (en_stats en))"
      using eligible_pool [of probe en q] by (auto simp: healthy_pool_set eligible_def split: if_splits)
    then show ?thesis
      using built_registered best(1) by metis
  qed
qed

section \<open>The default gateway\<close>

text \<open>No colon hides in the blanks around a provider's name.\<close>

lemma strip_keeps: "c \<in> set s \<Longrightarrow> \<not> is_space c \<Longrightarrow> c \<in> set (strip s)"
proof -
  have keeps: "c \<in> set (dropWhile is_space t)" if "c \<in> set t" "\<not> is_space c" for t
    using that by (induction t) auto
  show "c \<in> set s \<Longrightarrow> \<not> is_space c \<Longrightarrow> c \<in> set (strip s)"
    using keeps [of "rev (dropWhile is_space s)"] keeps [of s] by (simp add: strip_def lstrip_def)
qed

lemma catalog_price_cases:
  assumes "wf_table rows" "synced rows c" "CHR '':'' \<notin> set (lower p)"
    and "list_all (\<lambda>(q, n, i, j, on). q = lower p \<longrightarrow> i = 0 \<and> j = 0) (map prices rows)"
  shows "free_of_charge c p m"
proof -
  have zero: "md_input_cost_per_1k md = 0 \<and> md_output_cost_per_1k md = 0"
    if found: "map_of (c_catalog c) (catalog_key (lower p) x) = Some md" for x md
  proof -
    obtain e where e: "e \<in> set (get_all_for_catalog rows)" "entry_key e = catalog_key (lower p) x" "md = row_metadata e"
      using map_of_SomeD [OF found] assms(1,2) by (auto simp: synced_wf)
    then have "e \<in> set rows" by (auto simp: get_all_for_catalog_def list_models_set)
    moreover from this have "wf_entry e" using assms(1) by (simp add: wf_table_def)
    moreover from this have "e_provider e = lower p"
      using e(2) assms(3) known_provider_no_colon [of "e_provider e"] catalog_key_inj [of "e_provider e" "lower p"]
      by (simp add: entry_key_def wf_entry_def)
    ultimately show ?thesis
      using assms(4) e(3) row_metadata_fields [of e] by (auto simp: list_all_iff prices_def)
  qed
  then show ?thesis
    by (auto simp: free_of_charge_def catalog_get_def default_metadata_def Let_def split: option.splits)
qed

text \<open>
  C39: a gateway installed with the default settings stays on its own machine and charges nothing. After
  the migrations and the startup, whatever the environment sets for the routing, every request that is
  routed, by hand or by score, goes to Ollama, and to a model whose prices are zero.
\<close>

theorem default_gateway_local_and_free:
  assumes "length ids = 15" "distinct ids"
    and "gw = lifespan_startup rs ls default_provider_settings cs (Inr (install_rows ids))"
    and "route probe (pc_engine gw) q = Inr d"
  shows "lower (strip (rd_provider d)) = ''ollama'' \<and>
    free_of_charge (en_catalog (pc_engine gw)) (rd_provider d) (rd_model d)"
proof -
  have names: "lower (strip ''ollama'') = ''ollama''" by code_simp
  have reg: "en_registry (pc_engine gw) = init_providers default_provider_settings []"
    and cat: "en_catalog (pc_engine gw) = init_model_catalog (Inr (install_rows ids)) new_catalog"
    by (simp_all add: assms(3) startup_engine)
  have "lower (strip (rd_provider d)) = ''ollama''"
    using routed_registered [OF assms(4)] names unfolding reg startup_registry
    by (auto simp: default_provider_settings_def gemini_available_def groq_available_def)
  moreover from this have colon: "CHR '':'' \<notin> set (lower (rd_provider d))"
    using strip_keeps [of "CHR '':''" "lower (rd_provider d)"] by (auto simp: strip_lower is_space_def)
  moreover have wf: "wf_table (install_rows ids)" using assms by (simp add: install_seeds seeds_wf)
  moreover from wf have "synced (install_rows ids) (init_model_catalog (Inr (install_rows ids)) new_catalog)"
    by (simp add: init_model_catalog_def load_from_db_wf synced_wf)
  moreover have "list_all (\<lambda>(q, n, i, j, on). q = lower (rd_provider d) \<longrightarrow> i = 0 \<and> j = 0) (map prices (install_rows ids))"
  proof -
    have "strip (lower (rd_provider d)) = ''ollama''" using calculation(1) by (simp add: strip_lower)
    moreover have "strip ''gemini'' = ''gemini''" "strip ''groq'' = ''groq''" by code_simp+
    ultimately have "lower (rd_provider d) \<noteq> ''gemini''" "lower (rd_provider d) \<noteq> ''groq''" by auto
    then show ?thesis
      unfolding install_seeds seed_prices [OF assms(1)] by (simp add: seed_defs prices_def)
  qed
  ultimately show ?thesis
    unfolding cat using catalog_price_cases by blast
qed

theorem default_gateway_local_and_free_witness:
  "\<exists>ids gw d. gw = lifespan_startup default_routing_settings default_reliability_settings default_provider_settings
       default_cache_settings (Inr (install_rows ids)) \<and>
     route example_probe (pc_engine gw) (example_request\<lparr>q_provider := Some ''Ollama'', q_model := ''phi3''\<rparr>) = Inr d \<and>
     free_of_charge (en_catalog (pc_engine gw)) ''Ollama'' ''phi3''"
proof -
  obtain ids :: "string list" where ids: "length ids = 15" "distinct ids"
    using that [of "map (\<lambda>n. replicate n CHR ''x'') [0..<15]"] by (simp add: distinct_map inj_on_def)
  obtain gw where gw: "gw = lifespan_startup default_routing_settings default_reliability_settings default_provider_settings
       default_cache_settings (Inr (install_rows ids))" by blast
  let ?q = "example_request\<lparr>q_provider := Some ''Ollama'', q_model := ''phi3''\<rparr>"
  have names: "lower ''phi3'' = ''phi3''" "lower (strip ''Ollama'') = ''ollama''" by code_simp+
  have mode: "resolve_routing_mode (en_default_mode (pc_engine gw)) ?q = Inr ''manual''"
    by (simp add: resolve_routing_mode_def example_request_def truthy_def names)
  have "is_registered ''Ollama'' (en_registry (pc_engine gw))"
    unfolding gw registered_found startup_engine startup_registry
    by (simp add: names default_provider_settings_def ollama_available_def)
  then obtain d where d: "route example_probe (pc_engine gw) ?q = Inr d" "rd_provider d = ''Ollama''" "rd_model d = ''phi3''"
    by (simp add: route_def mode route_manual_def truthy_def names Let_def)
  have "free_of_charge (en_catalog (pc_engine gw)) ''Ollama'' ''phi3''"
    using default_gateway_local_and_free [OF ids gw d(1)] d(2,3) by simp
  with gw d(1) show ?thesis by (intro exI conjI)
qed

end
