(* ===== verification/Tracing.thy ===== *)
theory Tracing
  imports Prelude "HOL-Library.Word"
begin

text \<open>
  Tracing (\<open>app/observability/tracing.py\<close>): which tracer \<open>init_tracing\<close> installs, the text of a trace
  identifier, and \<open>safe_span\<close>, which runs a block inside a span. The OpenTelemetry package is a
  parameter: whether it is installed, whether the exporter can be built, and what the calls on a span do.
\<close>

section \<open>Installing a tracer\<close>

datatype tracer = NoOpTracer | BatchTracer string | ConsoleTracer

text \<open>\<open>None\<close> for an import that fails outside of a guard, \<open>Some None\<close> for leaving the tracer alone.\<close>

definition init_tracing :: "bool \<Rightarrow> bool \<Rightarrow> bool \<Rightarrow> string \<Rightarrow> tracer option option" where
  "init_tracing package exporter enabled endpoint =
     (if \<not> enabled then (if package then Some (Some NoOpTracer) else Some None)
      else if \<not> package then None
      else if endpoint \<noteq> [] then (if exporter then Some (Some (BatchTracer endpoint)) else Some (Some NoOpTracer))
      else Some (Some ConsoleTracer))"

section \<open>Trace identifiers\<close>

definition hex_digit :: "nat \<Rightarrow> char" where
  "hex_digit n = (if n < 10 then char_of (48 + n) else char_of (87 + n))"

fun hex_digits :: "nat \<Rightarrow> nat \<Rightarrow> string" where
  "hex_digits 0 n = []"
| "hex_digits (Suc w) n = hex_digits w (n div 16) @ [hex_digit (n mod 16)]"

text \<open>\<open>format(n, "032x")\<close> of a number below $2^{128}$.\<close>

definition format_trace_id :: "128 word \<Rightarrow> string" where
  "format_trace_id i = hex_digits 32 (unat i)"

text \<open>\<open>ctx\<close>: the context of the current span, its trace id and whether it is valid.\<close>

definition get_current_trace_id :: "bool \<Rightarrow> (128 word \<times> bool) option \<Rightarrow> string option" where
  "get_current_trace_id package ctx = (if \<not> package then None
     else case ctx of None \<Rightarrow> None | Some (i, valid) \<Rightarrow> if \<not> valid then None else Some (format_trace_id i))"

section \<open>Spans\<close>

text \<open>
  What a block does: it returns, raises an \<open>Exception\<close>, or is cancelled (an exception outside of
  \<open>Exception\<close>). The calls on the span: entering it may fail, and so may each attribute and the exit.
\<close>

datatype ('e, 'a) outcome = Returns 'a | Raises 'e | Cancelled

datatype span_call = Enter | SetAttribute string string | Exit

record span_env =
  sn_starts :: bool
  sn_attribute_fails :: "string \<Rightarrow> bool"
  sn_exit_fails :: bool

definition set_attributes :: "bool \<Rightarrow> span_env \<Rightarrow> (string \<times> string option) list \<Rightarrow> span_call list" where
  "set_attributes started env attrs = (if \<not> started then []
     else map (\<lambda>(k, v). SetAttribute k (the v))
       (filter (\<lambda>(k, v). v \<noteq> None \<and> \<not> sn_attribute_fails env k) attrs))"

definition safe_span ::
  "span_env \<Rightarrow> (string \<times> string option) list \<Rightarrow> (bool \<Rightarrow> ('e, 'a) outcome) \<Rightarrow> ('e, 'a) outcome \<times> span_call list" where
  "safe_span env attrs block =
     (let started = sn_starts env;
          calls = (if started then [Enter] else []) @ set_attributes started env attrs;
          exits = (if started \<and> \<not> sn_exit_fails env then [Exit] else [])
      in case block started of
           Returns v \<Rightarrow> (Returns v, calls @ exits)
         | Raises e \<Rightarrow> (Raises e, calls @ exits)
         | Cancelled \<Rightarrow> (Cancelled, calls))"

lemma safe_span_transparent: "fst (safe_span env attrs block) = block (sn_starts env)"
  by (auto simp: safe_span_def Let_def split: outcome.splits)

text \<open>A cancelled block leaves its span open.\<close>

lemma cancelled_span_stays_open:
  "sn_starts env \<Longrightarrow> block True = Cancelled \<Longrightarrow> Exit \<notin> set (snd (safe_span env attrs block))"
  by (auto simp: safe_span_def set_attributes_def)

section \<open>Identifiers, facts\<close>

lemma length_hex_digits: "length (hex_digits w n) = w"
  by (induction w arbitrary: n) auto

lemma hex_digit_inj: "m < 16 \<Longrightarrow> n < 16 \<Longrightarrow> hex_digit m = hex_digit n \<longleftrightarrow> m = n"
proof -
  assume "m < 16" "n < 16"
  moreover have "inj_on hex_digit {..<16}"
    by (simp add: inj_on_def hex_digit_def lessThan_nat_numeral lessThan_Suc)
  ultimately show ?thesis by (auto simp: inj_on_def)
qed

lemma hex_digits_inj: "m < 16 ^ w \<Longrightarrow> n < 16 ^ w \<Longrightarrow> hex_digits w m = hex_digits w n \<longleftrightarrow> m = n"
proof (induction w arbitrary: m n)
  case (Suc w)
  have "m div 16 < 16 ^ w" "n div 16 < 16 ^ w"
    using Suc.prems by (simp_all add: less_mult_imp_div_less mult.commute)
  then have "hex_digits (Suc w) m = hex_digits (Suc w) n \<longleftrightarrow> m div 16 = n div 16 \<and> m mod 16 = n mod 16"
    using Suc.IH by (simp add: hex_digit_inj)
  then show ?case by (metis div_mult_mod_eq)
qed simp

section \<open>Properties\<close>

text \<open>
  Two traces never share the identifier logged for them, and it always fits the column: the text has 32
  characters and determines the 128-bit number.
\<close>

theorem trace_ids_faithful:
  "length (format_trace_id i) = 32 \<and> (format_trace_id i = format_trace_id j \<longleftrightarrow> i = j)"
proof -
  have "unat i < 16 ^ 32" "unat j < 16 ^ 32"
    using unsigned_less [of i] unsigned_less [of j] by simp_all
  then show ?thesis
    by (simp add: format_trace_id_def length_hex_digits hex_digits_inj word_unat_eq_iff)
qed

end
