(* ===== verification/Deployment.thy ===== *)
theory Deployment
  imports Gateway Wiring Tracing
begin

text \<open>
  The gateway as it is deployed: the remaining groups of \<open>Settings\<close> (\<open>config/settings.py\<close>) with their
  defaults, what the components get of them, and the state of a fresh installation, in which every run
  of \<open>Gateway\<close> begins. Reading the environment is the library's; a deployment that sets nothing has the
  defaults.
\<close>

section \<open>Settings\<close>

record application_settings =
  app_name :: string
  app_version :: string
  app_description :: string
  environment :: string
  debug :: bool
  api_host :: string
  api_port :: int
  secret_key :: string
  log_level :: string
  cors_origins :: string
  provider_timeout_seconds :: int
  default_provider :: string
  default_model :: string

definition default_application_settings :: application_settings where
  "default_application_settings = \<lparr>app_name = ''Cortex Gateway'', app_version = ''1.0.0'',
     app_description = ''Intelligent Multi-LLM Gateway and AI Infrastructure Platform'',
     environment = ''development'', debug = False, api_host = ''0.0.0.0'', api_port = 8000,
     secret_key = ''change_me'', log_level = ''INFO'', cors_origins = ''http://localhost:5173'',
     provider_timeout_seconds = 30, default_provider = [], default_model = []\<rparr>"

record auth_settings =
  api_key_pepper :: string
  cortex_bootstrap_enabled :: bool
  cortex_bootstrap_token :: string

definition default_auth_settings :: auth_settings where
  "default_auth_settings = \<lparr>api_key_pepper = ''change-me-in-production'', cortex_bootstrap_enabled = True,
     cortex_bootstrap_token = ''change-me-in-production''\<rparr>"

record rate_settings =
  rate_limit_enabled :: bool
  rate_limit_api_key_requests :: int
  rate_limit_api_key_window_seconds :: int
  rate_limit_team_requests :: int
  rate_limit_team_window_seconds :: int
  rate_limit_org_requests :: int
  rate_limit_org_window_seconds :: int

definition default_rate_settings :: rate_settings where
  "default_rate_settings = \<lparr>rate_limit_enabled = True, rate_limit_api_key_requests = 100,
     rate_limit_api_key_window_seconds = 60, rate_limit_team_requests = 500, rate_limit_team_window_seconds = 60,
     rate_limit_org_requests = 2000, rate_limit_org_window_seconds = 60\<rparr>"

record budget_settings =
  budget_enabled :: bool
  budget_default_policy :: string
  budget_warning_threshold_percent :: int
  budget_expose_remaining :: bool
  ollama_cost_per_1k_input_tokens :: real
  ollama_cost_per_1k_output_tokens :: real

definition default_budget_settings :: budget_settings where
  "default_budget_settings = \<lparr>budget_enabled = True, budget_default_policy = ''BLOCK'',
     budget_warning_threshold_percent = 80, budget_expose_remaining = False, ollama_cost_per_1k_input_tokens = 0,
     ollama_cost_per_1k_output_tokens = 0\<rparr>"

record observability_settings =
  metrics_enabled :: bool
  otel_enabled :: bool
  otel_service_name :: string
  otel_exporter_otlp_endpoint :: string
  request_log_enabled :: bool

definition default_observability_settings :: observability_settings where
  "default_observability_settings = \<lparr>metrics_enabled = True, otel_enabled = False,
     otel_service_name = ''cortex-gateway'', otel_exporter_otlp_endpoint = [], request_log_enabled = True\<rparr>"

text \<open>The whole class, by groups\<close>

record gateway_settings =
  st_application :: application_settings
  st_connections :: connection_settings
  st_providers :: provider_settings
  st_routing :: routing_settings
  st_reliability :: reliability_settings
  st_auth :: auth_settings
  st_rate :: rate_settings
  st_budget :: budget_settings
  st_observability :: observability_settings
  st_cache :: cache_settings

text \<open>With nothing set in the environment; the validator composes the connection URLs.\<close>

definition default_settings :: gateway_settings where
  "default_settings = \<lparr>st_application = default_application_settings,
     st_connections = compose_connection_urls default_connection_settings, st_providers = default_provider_settings,
     st_routing = default_routing_settings, st_reliability = default_reliability_settings,
     st_auth = default_auth_settings, st_rate = default_rate_settings, st_budget = default_budget_settings,
     st_observability = default_observability_settings, st_cache = default_cache_settings\<rparr>"

section \<open>What the components get\<close>

definition rate_config_of :: "rate_settings \<Rightarrow> rate_config" where
  "rate_config_of s = \<lparr>rc_key_limit = rate_limit_api_key_requests s, rc_key_window = rate_limit_api_key_window_seconds s,
     rc_team_limit = rate_limit_team_requests s, rc_team_window = rate_limit_team_window_seconds s,
     rc_org_limit = rate_limit_org_requests s, rc_org_window = rate_limit_org_window_seconds s\<rparr>"

definition service_settings :: "gateway_settings \<Rightarrow> settings" where
  "service_settings s = \<lparr>se_rate_limit_enabled = rate_limit_enabled (st_rate s), se_rate = rate_config_of (st_rate s),
     se_budget_enabled = budget_enabled (st_budget s), se_warning_threshold = budget_warning_threshold_percent (st_budget s),
     se_expose_remaining = budget_expose_remaining (st_budget s)\<rparr>"

definition auth_env_of :: "(string \<Rightarrow> string \<Rightarrow> string) \<Rightarrow> auth_settings \<Rightarrow> auth_env" where
  "auth_env_of hmac s = \<lparr>en_hmac = hmac, en_pepper = api_key_pepper s, en_bootstrap_enabled = cortex_bootstrap_enabled s,
     en_bootstrap_token = cortex_bootstrap_token s\<rparr>"

definition install_tracing :: "bool \<Rightarrow> bool \<Rightarrow> observability_settings \<Rightarrow> tracer option option" where
  "install_tracing package exporter s = init_tracing package exporter (otel_enabled s) (otel_exporter_otlp_endpoint s)"

definition configuration_of :: "(string \<Rightarrow> string \<Rightarrow> string) \<Rightarrow> gateway_settings \<Rightarrow> configuration" where
  "configuration_of hmac s = \<lparr>cf_env = auth_env_of hmac (st_auth s), cf_registry = init_providers (st_providers s) [],
     cf_log_enabled = request_log_enabled (st_observability s), cf_error_tasks = False\<rparr>"

text \<open>After the migrations and the startup: no accounts, the seeded models, nothing spent, nothing logged\<close>

definition fresh_installation :: "gateway_settings \<Rightarrow> string list \<Rightarrow> 'r \<Rightarrow> 'r installation" where
  "fresh_installation s ids redis =
     (let pc = lifespan_startup (st_routing s) (st_reliability s) (st_providers s) (st_cache s) (Inr (install_rows ids))
      in \<lparr>sys_accounts = empty_db, sys_models = install_rows ids, sys_limits = (\<lambda>t. None), sys_policies = (\<lambda>t. None),
          sys_log = [],
          sys_gateway = \<lparr>gw_redis = redis, gw_budgets = (\<lambda>t. None), gw_held = None,
            gw_exec = \<lparr>x_clock = 0, x_draws = 0, x_calls = 0, x_builds = 0, x_awaits = 0, x_shared = pc_shared pc\<rparr>,
            gw_cache_writes = []\<rparr>\<rparr>)"

lemma fresh_wf:
  assumes "length ids = 15" "distinct ids"
  shows "wf_installation (fresh_installation s ids redis)"
  using assms
  by (simp add: wf_installation_def fresh_installation_def Let_def wf_empty budgets_of_def wf_budgets_def install_seeds
      seeds_wf wf_limits_def wf_policies_def rows_owned_def)

text \<open>Every state the gateway reaches from its installation is well-formed.\<close>

lemma installed_gateway_wf:
  assumes "length ids = 15" "distinct ids"
  shows "wf_installation (serve_all cf reqs (fresh_installation s ids redis))"
  unfolding serve_all_def by (rule tenants.run_inv [OF fresh_wf [OF assms]])

section \<open>The first request\<close>

definition founder :: "'r arrival \<Rightarrow> request_context" where
  "founder a = \<lparr>ctx_organization_id = dr_id (av_draw a) 0, ctx_team_id = dr_id (av_draw a) 1,
     ctx_api_key_id = dr_id (av_draw a) 2, ctx_role = ''admin''\<rparr>"

lemma bootstrap_fresh:
  assumes "en_bootstrap_enabled env" "en_bootstrap_token env \<noteq> []" "validate_bootstrap b = Inr b'"
    and "db = snd (bootstrap env dr (Some (en_bootstrap_token env)) b empty_db)"
  shows "authenticate (en_hmac env) (en_pepper env) now (generate_api_key (dr_token dr)) db =
      Inr \<lparr>ctx_organization_id = dr_id dr 0, ctx_team_id = dr_id dr 1, ctx_api_key_id = dr_id dr 2, ctx_role = ''admin''\<rparr>"
    and "organizations_exist db"
  using assms
  by (simp_all add: bootstrap_def bootstrap_handler_def run_session_def organizations_exist_def empty_db_def
      create_organization_def create_team_def new_key_def create_api_key_def Let_def authenticate_def keys_with_hash_def
      verify_api_key_def is_active_def get_team_def get_organization_def generate_api_key_def starts_with_append)

lemma bootstrap_done:
  assumes "organizations_exist db"
  shows "snd (bootstrap env dr cred b db) = db"
  using assms by (auto simp: bootstrap_def bootstrap_handler_def run_session_def split: sum.splits)

text \<open>
  C9: whoever sends the bootstrap token first owns the installation. On a fresh installation a valid
  bootstrap request with the token of the settings makes the key it is answered with an administrator's,
  of the organization and team it founds; the state is well-formed; and a second bootstrap, with
  whatever token, changes nothing. Nothing requires the token to differ from the published default.
\<close>

theorem first_bootstrap_owns:
  assumes "length ids = 15" "distinct ids" "cortex_bootstrap_enabled (st_auth s)"
    and "cortex_bootstrap_token (st_auth s) \<noteq> []" "av_credentials a = Some (cortex_bootstrap_token (st_auth s))"
    and "validate_bootstrap b = Inr b'"
    and "sys = handle (configuration_of hmac s) (a, Found b) (fresh_installation s ids redis)"
  shows "wf_installation sys \<and>
    (\<forall>a'. av_credentials a' = Some (generate_api_key (dr_token (av_draw a))) \<longrightarrow>
       caller_of (configuration_of hmac s) a' sys = Inr (founder a)) \<and>
    (\<forall>a' b2. handle (configuration_of hmac s) (a', Found b2) sys = sys)"
proof -
  let ?env = "auth_env_of hmac (st_auth s)" and ?fresh = "fresh_installation s ids redis"
  let ?db = "snd (bootstrap ?env (av_draw a) (Some (en_bootstrap_token ?env)) b empty_db)"
  have env: "cf_env (configuration_of hmac s) = ?env" "en_bootstrap_enabled ?env" "en_bootstrap_token ?env \<noteq> []"
    using assms(3,4) by (simp_all add: configuration_of_def auth_env_of_def)
  have sys: "sys = ?fresh\<lparr>sys_accounts := ?db\<rparr>"
    using assms(5) unfolding assms(7) handle_def
    by (simp add: stamp_def account_step_def env(1) fresh_installation_def Let_def) (simp add: auth_env_of_def)
  note owned = bootstrap_fresh [where dr = "av_draw a", OF env(2,3) assms(6) refl]
  have "wf_installation sys"
    unfolding assms(7) by (rule handle_wf [OF fresh_wf [OF assms(1,2)]])
  moreover have "caller_of (configuration_of hmac s) a' sys = Inr (founder a)"
    if "av_credentials a' = Some (generate_api_key (dr_token (av_draw a)))" for a'
    using owned(1) that by (simp add: caller_of_def caller_def get_request_context_def env(1) sys founder_def)
  moreover have "handle (configuration_of hmac s) (a', Found b2) sys = sys" for a' b2
    using bootstrap_done [OF owned(2)]
    by (simp add: handle_def stamp_def account_step_def env(1) sys)
  ultimately show ?thesis by blast
qed

text \<open>The token in a header of its own, as the deployment guide sends it, is no credential.\<close>

lemma documented_bootstrap_refused:
  assumes "av_credentials a = None"
  shows "handle cf (a, Found b) sys = sys"
  using assms by (simp add: handle_def stamp_def account_step_def bootstrap_def bootstrap_handler_def run_session_def
      split: sum.split)

section \<open>Runs of the gateway and runs of its accounts\<close>

lemma auth_run_trans: "auth_run env y z \<Longrightarrow> auth_run env x y \<Longrightarrow> auth_run env x z"
  by (induction rule: auth_run.induct) (auto intro: auth_run.serve)

lemma one_request: "auth_run env db (auth_step env dr req db)"
  by (rule auth_run.serve [OF auth_run.start])

lemma stamp_run: "auth_run (cf_env cf) (sys_accounts sys) (sys_accounts (stamp cf a c sys0 sys))"
proof (cases "stamp cf a c sys0 sys = sys")
  case True
  then show ?thesis by (simp add: auth_run.start)
next
  case False
  then obtain key where "stamp cf a c sys0 sys = sys\<lparr>sys_accounts := auth_step (cf_env cf) (av_draw a) (TouchKey key) (sys_accounts sys)\<rparr>"
    by (auto simp: stamp_def split: api_call.splits sum.splits if_splits)
  then have "sys_accounts (stamp cf a c sys0 sys) = auth_step (cf_env cf) (av_draw a) (TouchKey key) (sys_accounts sys)"
    by simp
  then show ?thesis by (simp only: one_request)
qed

lemma act_run: "auth_run (cf_env cf) (sys_accounts sys) (sys_accounts (act cf a c sys))"
  using one_request by (simp add: act_accounts auth_run.start split: option.split)

lemma handle_run: "auth_run (cf_env cf) (sys_accounts sys) (sys_accounts (handle cf x sys))"
  using auth_run_trans [OF stamp_run act_run] by (cases x) (simp add: handle_def)

lemma serve_run: "auth_run (cf_env cf) (sys_accounts sys) (sys_accounts (serve_all cf reqs sys))"
  unfolding serve_all_def by (induction reqs arbitrary: sys) (auto intro: auth_run.start auth_run_trans handle_run)

text \<open>
  C7: a revoked key is locked out of the whole gateway for good: after the request that revoked it, no
  request of any kind, at any time and whatever was served in between, runs under that key.
\<close>

theorem revoked_key_locked_out:
  assumes "wf_installation sys"
    and "fst (revoke_key (cf_env cf) (av_draw a) (av_credentials a) team key (sys_accounts sys)) = Inr (Reply r)"
    and "caller_of cf a' (serve_all cf reqs (handle cf (a, RevokeKeyOf team key) sys)) = Inr ctx"
  shows "ctx_api_key_id ctx \<noteq> key"
proof -
  obtain db1 where revoked: "revoke_key (cf_env cf) (av_draw a) (av_credentials a) team key (sys_accounts sys) = (Inr (Reply r), db1)"
    using assms(2) by (metis prod.collapse)
  then have "sys_accounts (act cf a (RevokeKeyOf team key) sys) = db1"
    by (simp add: account_step_def)
  then have "auth_run (cf_env cf) db1 (sys_accounts (handle cf (a, RevokeKeyOf team key) sys))"
    using stamp_run [of cf "act cf a (RevokeKeyOf team key) sys" a] by (simp add: handle_def)
  then have "auth_run (cf_env cf) db1 (sys_accounts (serve_all cf reqs (handle cf (a, RevokeKeyOf team key) sys)))"
    by (rule auth_run_trans [OF serve_run])
  moreover obtain now c where "authenticate (en_hmac (cf_env cf)) (en_pepper (cf_env cf)) now c
      (sys_accounts (serve_all cf reqs (handle cf (a, RevokeKeyOf team key) sys))) = Inr ctx"
    using assms(3) by (auto simp: caller_of_def caller_def get_request_context_def split: option.splits)
  ultimately show ?thesis
    using revoked_key_never_authenticates [OF _ revoked] assms(1) by (auto simp: wf_installation_def)
qed

text \<open>A gateway begun with a fresh installation serves one team of one organization.\<close>

theorem deployed_gateway_single_tenant:
  assumes "sys = serve_all cf reqs (fresh_installation s ids redis)"
    and "caller_of cf a sys = Inr ctx" "caller_of cf a' sys = Inr ctx'"
  shows "ctx_team_id ctx = ctx_team_id ctx' \<and> ctx_organization_id ctx = ctx_organization_id ctx'"
proof -
  have "auth_run (cf_env cf) empty_db (sys_accounts sys)"
    using serve_run [of cf "fresh_installation s ids redis" reqs] by (simp add: assms(1) fresh_installation_def Let_def)
  moreover obtain now c where "authenticate (en_hmac (cf_env cf)) (en_pepper (cf_env cf)) now c (sys_accounts sys) = Inr ctx"
    using assms(2) by (auto simp: caller_of_def caller_def get_request_context_def split: option.splits)
  moreover obtain now' c' where "authenticate (en_hmac (cf_env cf)) (en_pepper (cf_env cf)) now' c' (sys_accounts sys) = Inr ctx'"
    using assms(3) by (auto simp: caller_of_def caller_def get_request_context_def split: option.splits)
  ultimately show ?thesis by (rule single_tenant)
qed

section \<open>Witnesses\<close>

text \<open>The administrator of \<open>example_installation\<close>'s organization \<open>z\<close> revokes its own key.\<close>

lemma revoke_replies:
  "\<exists>r. fst (revoke_key (cf_env example_cf) (av_draw (example_arrival answer (Some ''cxg_x''))) (Some ''cxg_x'') ''y'' ''x''
     (sys_accounts example_installation)) = Inr (Reply r)"
proof -
  have "case fst (revoke_key example_env (example_draw ''d'') (Some ''cxg_x'') ''y'' ''x'' two_tenants) of
      Inr (Reply r) \<Rightarrow> True | _ \<Rightarrow> False"
    by code_simp
  then show ?thesis
    by (auto simp: example_cf_def example_arrival_def example_installation_def split: sum.splits reply.splits)
qed

theorem revoked_key_locked_out_witness:
  "ctx_api_key_id example_context \<noteq> ''x''"
proof -
  let ?a = "example_arrival answer (Some ''cxg_x'')"
  obtain r where r: "fst (revoke_key (cf_env example_cf) (av_draw ?a) (av_credentials ?a) ''y'' ''x''
      (sys_accounts example_installation)) = Inr (Reply r)"
    using revoke_replies by (auto simp: example_arrival_def)
  have "sys_accounts (handle example_cf (?a, RevokeKeyOf ''y'' ''x'') example_installation) =
      update_last_used (dr_now (example_draw ''d'')) ''x''
        (snd (revoke_key example_env (example_draw ''d'') (Some ''cxg_x'') ''y'' ''x'' two_tenants))"
    by (simp add: handle_def stamp_def example_callers account_step_def)
      (simp add: example_arrival_def example_cf_def example_installation_def)
  moreover have "authenticate (en_hmac example_env) (en_pepper example_env) (dr_now (example_draw ''d'')) ''cxg_k''
      (update_last_used (dr_now (example_draw ''d'')) ''x''
        (snd (revoke_key example_env (example_draw ''d'') (Some ''cxg_x'') ''y'' ''x'' two_tenants))) = Inr example_context"
    by code_simp
  ultimately have "caller_of example_cf (example_arrival answer (Some ''cxg_k''))
      (serve_all example_cf [] (handle example_cf (?a, RevokeKeyOf ''y'' ''x'') example_installation)) = Inr example_context"
    by (simp add: caller_of_def caller_def get_request_context_def example_arrival_def example_cf_def serve_all_def)
  then show ?thesis
    by (rule revoked_key_locked_out [OF example_installation_wf r])
qed

text \<open>Anyone, on an installation whose environment sets nothing\<close>

theorem first_bootstrap_owns_witness:
  "\<exists>ids. length ids = 15 \<and> caller_of (configuration_of (\<lambda>pepper t. pepper @ t) default_settings)
     (example_arrival answer (Some (generate_api_key (dr_token (example_draw ''d'')))))
     (handle (configuration_of (\<lambda>pepper t. pepper @ t) default_settings)
        (example_arrival answer (Some ''change-me-in-production''), Found founding)
        (fresh_installation default_settings ids ())) =
   Inr (founder (example_arrival answer None))"
proof -
  let ?cf = "configuration_of (\<lambda>pepper t. pepper @ t) default_settings"
  let ?a = "example_arrival answer (Some ''change-me-in-production'')"
  obtain ids :: "string list" where ids: "length ids = 15" "distinct ids"
    using that [of "map (\<lambda>n. replicate n CHR ''x'') [0..<15]"] by (simp add: distinct_map inj_on_def)
  have auth: "cortex_bootstrap_enabled (st_auth default_settings)" "cortex_bootstrap_token (st_auth default_settings) \<noteq> []"
    "av_credentials ?a = Some (cortex_bootstrap_token (st_auth default_settings))"
    by (simp_all add: default_settings_def default_auth_settings_def example_arrival_def)
  have valid: "validate_bootstrap founding = Inr founding" by code_simp
  show ?thesis
    using first_bootstrap_owns [OF ids auth valid refl] ids(1)
    by (intro exI [of _ ids]) (auto simp: example_arrival_def founder_def)
qed

end
