(* ===== verification/Responses.thy ===== *)
theory Responses
  imports Budget Policy
begin

text \<open>
  The bodies the budget and policy endpoints answer with (\<open>budget/schemas.py\<close>, \<open>endpoints/policy.py\<close>),
  and what a client can and cannot tell from them. The row timestamps, which the rows of \<open>Budget\<close> and
  \<open>Policy\<close> leave out, are left out here too.
\<close>

section \<open>Budgets\<close>

record budget_response =
  br_id :: string
  br_team_id :: string
  br_limit_amount :: real
  br_current_usage :: real
  br_period :: string
  br_period_start :: datetime
  br_period_end :: datetime
  br_policy :: string
  br_enabled :: bool
  br_remaining_amount :: real
  br_usage_percentage :: real

definition from_orm_with_derived :: "budget \<Rightarrow> budget_response" where
  "from_orm_with_derived b =
     \<lparr>br_id = bg_id b, br_team_id = bg_team_id b, br_limit_amount = limit_amount b, br_current_usage = current_usage b,
      br_period = bg_period b, br_period_start = period_start b, br_period_end = period_end b,
      br_policy = bg_policy b, br_enabled = bg_enabled b, br_remaining_amount = remaining_amount b,
      br_usage_percentage = usage_percentage b\<rparr>"

definition budget_answer :: "exn + budget \<Rightarrow> exn + budget_response" where
  "budget_answer = map_sum id from_orm_with_derived"

text \<open>\<open>reserved\<close> is no field of the response, but what remains tells it, until nothing does.\<close>

lemma reserved_disclosed:
  assumes "0 < br_remaining_amount (from_orm_with_derived b)"
  shows "reserved b = br_limit_amount (from_orm_with_derived b) - br_current_usage (from_orm_with_derived b)
    - br_remaining_amount (from_orm_with_derived b)"
  using assms by (simp add: from_orm_with_derived_def remaining_amount_def max_def split: if_splits)

lemma reserved_hidden:
  assumes "br_remaining_amount (from_orm_with_derived b) = 0" "reserved b \<le> r"
  shows "from_orm_with_derived (b\<lparr>reserved := r\<rparr>) = from_orm_with_derived b"
  using assms by (simp add: from_orm_with_derived_def remaining_amount_def usage_percentage_def max_def split: if_splits)

text \<open>The percentage counts what is used only, so it may be far from 100 when nothing remains.\<close>

lemma percentage_without_reserved: "br_usage_percentage (from_orm_with_derived (b\<lparr>reserved := r\<rparr>)) = br_usage_percentage (from_orm_with_derived b)"
  by (simp add: from_orm_with_derived_def usage_percentage_def)

section \<open>Policies\<close>

text \<open>\<open>model_dump(exclude={"source"})\<close>\<close>

record policy_dump =
  pd_routing :: string
  pd_fallback :: bool
  pd_budget :: string
  pd_cache :: bool
  pd_experiment :: "experiment_config option"
  pd_guardrails :: guardrails_policy

record policy_response =
  pr_team_id :: string
  pr_policy :: policy_dump
  pr_source :: policy_source
  pr_updated_at :: "string option"

definition to_response :: "string \<Rightarrow> resolved_policy \<Rightarrow> string option \<Rightarrow> policy_response" where
  "to_response team p updated =
     \<lparr>pr_team_id = team,
      pr_policy = \<lparr>pd_routing = rp_routing p, pd_fallback = rp_fallback p, pd_budget = rp_budget p, pd_cache = rp_cache p,
        pd_experiment = rp_experiment p, pd_guardrails = rp_guardrails p\<rparr>,
      pr_source = rp_source p, pr_updated_at = updated\<rparr>"

definition policy_answer :: "string \<Rightarrow> string option \<Rightarrow> exn + resolved_policy \<Rightarrow> exn + policy_response" where
  "policy_answer team updated = map_sum id (\<lambda>p. to_response team p updated)"

text \<open>The response shows the whole policy the requests of the team run under.\<close>

lemma response_shows_policy: "to_response team p u = to_response team' p' u' \<longleftrightarrow> team = team' \<and> p = p' \<and> u = u'"
  by (cases p; cases p') (auto simp: to_response_def)

end
