(* ===== verification/Metrics.thy ===== *)
theory Metrics
  imports ChatEndpoint
begin

text \<open>
  The Prometheus metrics (\<open>app/observability/metrics.py\<close>) and the updates of the chat endpoint
  (\<open>api/v1/endpoints/chat.py\<close>). A counter with labels is the number of each label combination, a gauge
  the last value set, a histogram the list of its observations, newest first. The order of concurrent
  updates does not matter to a counter, so a process is the list of the outcomes its handlers had.
\<close>

section \<open>The registry\<close>

record metrics =
  gateway_requests_total :: "string \<times> string \<times> string \<Rightarrow> nat"
  gateway_request_latency_seconds :: "string \<times> string \<Rightarrow> real list"
  provider_requests_total :: "string \<Rightarrow> nat"
  provider_errors_total :: "string \<times> string \<Rightarrow> nat"
  provider_latency_seconds :: "string \<Rightarrow> real list"
  fallback_requests_total :: "string \<times> string \<Rightarrow> nat"
  circuit_breaker_gauge :: "string \<Rightarrow> int option"
  budget_downgrade_total :: nat
  rate_limit_exceeded_total :: "string \<Rightarrow> nat"
  semantic_cache_hits_total :: nat
  semantic_cache_misses_total :: nat
  semantic_cache_embedding_errors_total :: nat

definition no_metrics :: metrics where
  "no_metrics = \<lparr>gateway_requests_total = (\<lambda>l. 0), gateway_request_latency_seconds = (\<lambda>l. []),
     provider_requests_total = (\<lambda>l. 0), provider_errors_total = (\<lambda>l. 0), provider_latency_seconds = (\<lambda>l. []),
     fallback_requests_total = (\<lambda>l. 0), circuit_breaker_gauge = (\<lambda>l. None), budget_downgrade_total = 0,
     rate_limit_exceeded_total = (\<lambda>l. 0), semantic_cache_hits_total = 0, semantic_cache_misses_total = 0,
     semantic_cache_embedding_errors_total = 0\<rparr>"

definition inc :: "'l \<Rightarrow> ('l \<Rightarrow> nat) \<Rightarrow> 'l \<Rightarrow> nat" where
  "inc l c = c(l := c l + 1)"

definition observation :: "'l \<Rightarrow> real \<Rightarrow> ('l \<Rightarrow> real list) \<Rightarrow> 'l \<Rightarrow> real list" where
  "observation l v h = h(l := v # h l)"

definition cb_state_map :: "(string \<times> int) list" where
  "cb_state_map = [(''CLOSED'', 0), (''OPEN'', 1), (''HALF_OPEN'', 2)]"

definition update_circuit_breaker_state :: "string \<Rightarrow> string \<Rightarrow> metrics \<Rightarrow> metrics" where
  "update_circuit_breaker_state provider state_str m =
     (let numeric = (case map_of cb_state_map (upper state_str) of Some n \<Rightarrow> n | None \<Rightarrow> 0)
      in m\<lparr>circuit_breaker_gauge := (circuit_breaker_gauge m)(provider \<mapsto> numeric)\<rparr>)"

definition record_provider_attempt :: "string \<Rightarrow> real \<Rightarrow> bool \<Rightarrow> string \<Rightarrow> metrics \<Rightarrow> metrics" where
  "record_provider_attempt provider latency success code m =
     (let m = m\<lparr>provider_requests_total := inc provider (provider_requests_total m)\<rparr>;
          m = m\<lparr>provider_latency_seconds := observation provider (latency / 1000) (provider_latency_seconds m)\<rparr>
      in if \<not> success \<and> code \<noteq> []
         then m\<lparr>provider_errors_total := inc (provider, code) (provider_errors_total m)\<rparr> else m)"

definition record_gateway_request :: "string \<Rightarrow> string \<Rightarrow> string \<Rightarrow> real \<Rightarrow> metrics \<Rightarrow> metrics" where
  "record_gateway_request provider model status latency m =
     (let m = m\<lparr>gateway_requests_total := inc (provider, model, status) (gateway_requests_total m)\<rparr>
      in if latency > 0
         then m\<lparr>gateway_request_latency_seconds :=
                observation (provider, model) (latency / 1000) (gateway_request_latency_seconds m)\<rparr>
         else m)"

section \<open>The updates of the chat endpoint\<close>

definition label_of :: "string option \<Rightarrow> string" where
  "label_of v = (case v of Some s \<Rightarrow> if s = [] then ''unknown'' else s | None \<Rightarrow> ''unknown'')"

text \<open>A rate-limit refusal, and the block of the success path.\<close>

definition observe_failure :: "exn \<Rightarrow> metrics \<Rightarrow> metrics" where
  "observe_failure e m = (case e of
     RateLimitExceeded msg retry scope \<Rightarrow>
       m\<lparr>rate_limit_exceeded_total := inc scope (rate_limit_exceeded_total m)\<rparr>
   | _ \<Rightarrow> m)"

definition observe_success :: "response_metadata \<Rightarrow> metrics \<Rightarrow> metrics" where
  "observe_success meta m =
     (let provider = label_of (m_selected_provider meta);
          model = label_of (m_selected_model meta);
          m = record_gateway_request provider model ''success'' (m_latency_ms meta) m;
          m = (if m_cache_hit meta then m\<lparr>semantic_cache_hits_total := semantic_cache_hits_total m + 1\<rparr>
               else m\<lparr>semantic_cache_misses_total := semantic_cache_misses_total m + 1\<rparr>);
          m = (if m_failover_triggered meta \<and> truthy (m_original_provider meta)
               then m\<lparr>fallback_requests_total :=
                 inc (the (m_original_provider meta), provider) (fallback_requests_total m)\<rparr> else m);
          m = (if m_budget_downgraded meta then m\<lparr>budget_downgrade_total := budget_downgrade_total m + 1\<rparr> else m)
      in if truthy (m_circuit_breaker_state meta)
         then update_circuit_breaker_state provider (the (m_circuit_breaker_state meta)) m else m)"

definition observe :: "exn + chat_response \<Rightarrow> metrics \<Rightarrow> metrics" where
  "observe res m = (case res of Inl e \<Rightarrow> observe_failure e m | Inr r \<Rightarrow> observe_success (p_metadata r) m)"

definition observe_all :: "(exn + chat_response) list \<Rightarrow> metrics" where
  "observe_all outs = fold observe outs no_metrics"

section \<open>One outcome\<close>

lemma observe_requests:
  "gateway_requests_total (observe res m) k = gateway_requests_total m k +
     (case res of Inl e \<Rightarrow> 0
      | Inr r \<Rightarrow> if k = (label_of (m_selected_provider (p_metadata r)), label_of (m_selected_model (p_metadata r)), ''success'')
                 then 1 else 0)"
  by (auto simp: observe_def observe_failure_def observe_success_def record_gateway_request_def
      update_circuit_breaker_state_def inc_def Let_def split: sum.splits exn.splits)

lemma observe_cache:
  "semantic_cache_hits_total (observe res m) = semantic_cache_hits_total m +
     (case res of Inl e \<Rightarrow> 0 | Inr r \<Rightarrow> if m_cache_hit (p_metadata r) then 1 else 0)"
  "semantic_cache_misses_total (observe res m) = semantic_cache_misses_total m +
     (case res of Inl e \<Rightarrow> 0 | Inr r \<Rightarrow> if m_cache_hit (p_metadata r) then 0 else 1)"
  by (auto simp: observe_def observe_failure_def observe_success_def record_gateway_request_def
      update_circuit_breaker_state_def Let_def split: sum.splits exn.splits)

lemma observe_downgrades:
  "budget_downgrade_total (observe res m) = budget_downgrade_total m +
     (case res of Inl e \<Rightarrow> 0 | Inr r \<Rightarrow> if m_budget_downgraded (p_metadata r) then 1 else 0)"
  by (auto simp: observe_def observe_failure_def observe_success_def record_gateway_request_def
      update_circuit_breaker_state_def Let_def split: sum.splits exn.splits)

lemma observe_fallbacks:
  "fallback_requests_total (observe res m) k = fallback_requests_total m k +
     (case res of Inl e \<Rightarrow> 0
      | Inr r \<Rightarrow> if m_failover_triggered (p_metadata r) \<and> truthy (m_original_provider (p_metadata r)) \<and>
          k = (the (m_original_provider (p_metadata r)), label_of (m_selected_provider (p_metadata r)))
          then 1 else 0)"
  by (auto simp: observe_def observe_failure_def observe_success_def record_gateway_request_def
      update_circuit_breaker_state_def inc_def Let_def split: sum.splits exn.splits)

text \<open>The metrics of single provider calls, and of embedding errors, are never updated.\<close>

lemma observe_unused:
  "provider_requests_total (observe res m) = provider_requests_total m"
  "provider_errors_total (observe res m) = provider_errors_total m"
  "provider_latency_seconds (observe res m) = provider_latency_seconds m"
  "semantic_cache_embedding_errors_total (observe res m) = semantic_cache_embedding_errors_total m"
  by (auto simp: observe_def observe_failure_def observe_success_def record_gateway_request_def
      update_circuit_breaker_state_def Let_def split: sum.splits exn.splits)

text \<open>The row of an outcome, as far as the metrics reflect it\<close>

definition row_of :: "exn + chat_response \<Rightarrow> request_log \<Rightarrow> bool" where
  "row_of res l = (case res of
     Inl e \<Rightarrow> lg_status l \<noteq> ''success'' \<and> \<not> lg_cache_hit l \<and> lg_budget_action l \<noteq> Some ''downgraded'' \<and>
       lg_failover_from l = None
   | Inr r \<Rightarrow> (let meta = p_metadata r in lg_status l = ''success'' \<and>
       lg_provider l = m_selected_provider meta \<and> lg_model l = m_selected_model meta \<and>
       lg_cache_hit l = m_cache_hit meta \<and> (lg_budget_action l = Some ''downgraded'') = m_budget_downgraded meta \<and>
       lg_failover_from l = (if m_failover_triggered meta then m_original_provider meta else None)))"

lemma chat_row:
  assumes "chat_completions d True trace policy q rid ctx g = (res, entry, g')"
  obtains l where "entry = Some l" "row_of res l"
  using assms
proof (cases rule: chat_cases)
  case (Blocked run)
  then show ?thesis using that by (simp add: row_of_def build_error_log_def)
next
  case Ran
  show ?thesis
  proof (cases res)
    case (Inl e)
    then show ?thesis
      using Ran(3) [OF Inl] that by (auto simp: row_of_def failure_log_def build_error_log_def)
  next
    case (Inr r)
    then obtain names action where
      "entry = Some (build_success_log rid (Some ctx) r trace (Some (rp_budget policy)) names action)"
      using Ran(4) [OF Inr] by auto
    then show ?thesis by (rule that) (simp add: row_of_def Inr build_success_log_def Let_def)
  qed
qed

text \<open>Rows counted\<close>

definition rows_with :: "(request_log \<Rightarrow> bool) \<Rightarrow> request_log option list \<Rightarrow> nat" where
  "rows_with P entries = length (filter P (List.map_filter id entries))"

lemma rows_with_simps [simp]:
  "rows_with P [] = 0"
  "rows_with P (entries @ [Some l]) = rows_with P entries + (if P l then 1 else 0)"
  by (simp_all add: rows_with_def List.map_filter_def)

lemma observe_all_simps [simp]:
  "observe_all [] = no_metrics"
  "observe_all (outs @ [res]) = observe res (observe_all outs)"
  by (simp_all add: observe_all_def)

text \<open>What one outcome adds to each metric is what its row adds to the count of the rows.\<close>

definition tallied :: "((exn + chat_response) \<times> request_log option) list \<Rightarrow> bool" where
  "tallied outs = list_all (\<lambda>(res, entry). case entry of None \<Rightarrow> False | Some l \<Rightarrow> row_of res l) outs"

lemma tallied_snoc: "tallied (outs @ [out]) \<longleftrightarrow> tallied outs \<and> (\<exists>res l. out = (res, Some l) \<and> row_of res l)"
  by (cases out) (auto simp: tallied_def split: option.splits)

lemmas tally = observe_requests observe_cache observe_downgrades observe_fallbacks observe_unused
  row_of_def truthy_def no_metrics_def

lemma requests_tally:
  "tallied outs \<Longrightarrow> gateway_requests_total (observe_all (map fst outs)) (p, m, s) =
     (if s = ''success'' then rows_with (\<lambda>l. lg_status l = ''success'' \<and> label_of (lg_provider l) = p \<and>
        label_of (lg_model l) = m) (map snd outs) else 0)"
proof (induction outs rule: rev_induct)
  case (snoc out outs)
  then obtain res l where "out = (res, Some l)" "row_of res l" "tallied outs" by (auto simp: tallied_snoc)
  then show ?case using snoc.IH by (cases res) (auto simp: tally Let_def)
qed (simp add: no_metrics_def)

lemma cache_tally:
  "tallied outs \<Longrightarrow> semantic_cache_hits_total (observe_all (map fst outs)) = rows_with lg_cache_hit (map snd outs) \<and>
     semantic_cache_misses_total (observe_all (map fst outs)) =
       rows_with (\<lambda>l. lg_status l = ''success'' \<and> \<not> lg_cache_hit l) (map snd outs)"
proof (induction outs rule: rev_induct)
  case (snoc out outs)
  then obtain res l where "out = (res, Some l)" "row_of res l" "tallied outs" by (auto simp: tallied_snoc)
  then show ?case using snoc.IH by (cases res) (auto simp: tally Let_def)
qed (simp add: no_metrics_def)

lemma downgrade_tally:
  "tallied outs \<Longrightarrow> budget_downgrade_total (observe_all (map fst outs)) =
     rows_with (\<lambda>l. lg_budget_action l = Some ''downgraded'') (map snd outs)"
proof (induction outs rule: rev_induct)
  case (snoc out outs)
  then obtain res l where "out = (res, Some l)" "row_of res l" "tallied outs" by (auto simp: tallied_snoc)
  then show ?case using snoc.IH by (cases res) (auto simp: tally Let_def)
qed (simp add: no_metrics_def)

lemma fallback_tally:
  "tallied outs \<Longrightarrow> p \<noteq> [] \<Longrightarrow> fallback_requests_total (observe_all (map fst outs)) (p, p') =
     rows_with (\<lambda>l. lg_failover_from l = Some p \<and> label_of (lg_provider l) = p') (map snd outs)"
proof (induction outs rule: rev_induct)
  case (snoc out outs)
  then obtain res l where "out = (res, Some l)" "row_of res l" "tallied outs" by (auto simp: tallied_snoc)
  then show ?case using snoc.IH snoc.prems(2) by (cases res) (auto simp: tally Let_def split: option.splits)
qed (simp add: no_metrics_def)

lemma provider_tally: "provider_requests_total (observe_all outs) = (\<lambda>l. 0)"
  by (induction outs rule: rev_induct) (simp_all add: observe_unused no_metrics_def)

section \<open>Properties\<close>

text \<open>
  C30: the counters and the request log tell the same story. Whatever requests were handled, in whatever
  order and interleaving, with logging on: the requests counted for a provider and model are the rows
  of successful requests with that provider and model, the cache hits the rows served from the cache
  and the misses the other successful rows, the downgrades the rows a budget downgraded, and the
  failovers between two providers the rows that report them. No other status is ever counted, and the
  counters of single provider calls stay at zero.
\<close>

theorem metrics_agree_with_log:
  fixes outs :: "((exn + chat_response) \<times> request_log option) list"
  assumes "\<And>res entry. (res, entry) \<in> set outs \<Longrightarrow> \<exists>(d :: 'r deps) trace policy q rid ctx g g'.
      chat_completions d True trace policy q rid ctx g = (res, entry, g')"
  shows "gateway_requests_total (observe_all (map fst outs)) (p, m, s) =
      (if s = ''success'' then rows_with (\<lambda>l. lg_status l = ''success'' \<and> label_of (lg_provider l) = p \<and>
         label_of (lg_model l) = m) (map snd outs) else 0) \<and>
    semantic_cache_hits_total (observe_all (map fst outs)) = rows_with lg_cache_hit (map snd outs) \<and>
    semantic_cache_misses_total (observe_all (map fst outs)) =
      rows_with (\<lambda>l. lg_status l = ''success'' \<and> \<not> lg_cache_hit l) (map snd outs) \<and>
    budget_downgrade_total (observe_all (map fst outs)) =
      rows_with (\<lambda>l. lg_budget_action l = Some ''downgraded'') (map snd outs) \<and>
    (p \<noteq> [] \<longrightarrow> fallback_requests_total (observe_all (map fst outs)) (p, p') =
      rows_with (\<lambda>l. lg_failover_from l = Some p \<and> label_of (lg_provider l) = p') (map snd outs)) \<and>
    provider_requests_total (observe_all (map fst outs)) = (\<lambda>l. 0)"
proof -
  have "tallied outs"
    unfolding tallied_def list_all_iff
  proof clarify
    fix res entry assume "(res, entry) \<in> set outs"
    then obtain l where "entry = Some l" "row_of res l" using assms chat_row by metis
    then show "case entry of None \<Rightarrow> False | Some l \<Rightarrow> row_of res l" by simp
  qed
  then show ?thesis
    using requests_tally cache_tally downgrade_tally fallback_tally provider_tally by auto
qed

theorem metrics_agree_with_log_witness:
  "\<exists>r l g'. chat_completions (example_deps (\<lambda>n p q. Inr answer)) True None global_default_policy manual_request
      ''rid'' example_context (example_gateway example_budget fresh_state) = (Inr r, Some l, g') \<and>
    semantic_cache_misses_total (observe_all [Inr r]) = (if lg_cache_hit l then 0 else 1)"
proof -
  obtain r entry g' where run: "chat_completions (example_deps (\<lambda>n p q. Inr answer)) True None global_default_policy
      manual_request ''rid'' example_context (example_gateway example_budget fresh_state) = (Inr r, entry, g')"
    using example_chat by blast
  then obtain l where l: "entry = Some l" "lg_status l = ''success''"
    using chat_row [OF run] by (auto simp: row_of_def Let_def)
  have "semantic_cache_misses_total (observe_all (map fst [(Inr r, entry)])) =
      rows_with (\<lambda>l. lg_status l = ''success'' \<and> \<not> lg_cache_hit l) (map snd [(Inr r, entry)])"
    using metrics_agree_with_log [of "[(Inr r, entry)]"] run by fastforce
  with run l show ?thesis by (auto simp: rows_with_def List.map_filter_def)
qed

end
