(* ===== verification/Spec2Isabelle.thy ===== *)
theory Spec2Isabelle
  imports Accounting Deployment Responses Providers Metrics
begin

text \<open>
  A model of Cortex Gateway (\<open>src/backend/app\<close>), an HTTP gateway in front of several LLM providers, with
  the theorems that make it correct.

  \<^bold>\<open>The program.\<close> A client calls \<open>POST /api/v1/chat/completions\<close> with an API key. The endpoint authenticates
  the key, resolves the team's policy, runs the guardrails and hands the request to the chat service,
  which checks the rate limits, looks into the semantic cache, assigns an experiment arm, routes the
  request to a provider and model, reserves its estimated cost in the team's budget (choosing a cheaper
  model if the policy says so), executes it with retries, circuit breakers and failover, and settles the
  budget with the actual cost. The outcome is logged and counted. Administrators manage organizations,
  teams, keys, budgets, rate limits, policies and the model registry, and query the log.

  \<^bold>\<open>Conventions.\<close> An operation that may raise returns \<open>exn + 'a\<close>, \<open>Inl\<close> for the raise, so every raise and
  early return of the code is a branch of the model. State is passed explicitly. A Python float is an
  exact real number, an int an \<open>int\<close>, a string a list of ASCII characters, a dictionary an association
  list in insertion order, a table the list of its rows. Clock readings, random draws, fresh identifiers
  and the answers of services are arguments. Logging calls have no effect on the state and are left out.

  \<^bold>\<open>Shared parts.\<close>
  \<^item> \<open>Prelude\<close>: Python's string operations and rounding, the lemma collections \<open>frame\<close>, \<open>key_simps\<close>, \<open>bounds\<close>.
  \<^item> \<open>Errors\<close>: the exception classes of every package, the transient and circuit-breaker classification
    (\<open>reliability/errors.py\<close>), the exception handlers (\<open>exceptions.py\<close>).
  \<^item> \<open>Schemas\<close>: requests and responses with their validators (\<open>schemas/chat.py\<close>).
  \<^item> \<open>Calendar\<close>: the datetime arithmetic of budget periods and key expiry.
  \<^item> Interfaces as locales: \<open>Keyed\<close> (per-key in-memory state, interpreted by the breaker registry and the
    statistics), \<open>Crud\<close> (administrative tables, interpreted by the model registry and the
    budgets), \<open>Overrides\<close> (per-team overrides, interpreted by rate limits and policies), \<open>Ledger\<close> (reserve
    and settle, interpreted by the budget service), \<open>Tenancy\<close> (a service with several tenants, interpreted by
    the whole gateway), and, in the theory of their component, the ranking of \<open>Scorer\<close> and the adapter
    contract of \<open>Providers\<close>.

  \<^bold>\<open>Components.\<close>
  \<^item> \<open>ModelRegistry\<close>, \<open>Catalog\<close>: the table of models and the in-memory catalog loaded from it
    (\<open>model_registry/\<close>, \<open>routing/metadata.py\<close>, \<open>endpoints/model_registry.py\<close>). The admin endpoints refine
    operations on a table, and the catalog follows the table after every one of them.
  \<^item> \<open>Stats\<close>, \<open>Scorer\<close>, \<open>Routing\<close>: runtime statistics, scores and weights, provider registry, candidates and
    route selection (\<open>routing/\<close>, \<open>providers/registry.py\<close>). The route is the best eligible candidate, and
    each routing error says exactly which filter left nothing.
  \<^item> \<open>Breaker\<close>, \<open>Retry\<close>, \<open>Failover\<close>, \<open>Executor\<close>: the reliability layer (\<open>reliability/\<close>). The breaker refines a
    three-state machine; the execution makes a bounded number of calls, never returns to a provider it
    left, and its response tells how it was obtained. \<open>Failover.world\<close> holds what the code cannot decide,
    including what other requests do while this one waits.
  \<^item> \<open>Cost\<close>, \<open>Budget\<close>: prices and the budget service with its reservation life cycle (\<open>budget/\<close>,
    \<open>endpoints/budget.py\<close>). Requests that do not overlap never overspend a blocking budget; two theorems show
    what overlapping requests and a rollover lose.
  \<^item> \<open>RateLimit\<close>, \<open>TeamLimits\<close>: the Redis script and its three scopes, and the per-team overrides
    (\<open>rate_limit/\<close>, \<open>endpoints/rate_limits.py\<close>). The limiter refines a weighted sliding window.
  \<^item> \<open>Policy\<close>, \<open>Experiment\<close>: team policies, their merge with the default, and the assignment of requests to
    experiment arms (\<open>policy/\<close>, \<open>experiment/\<close>, \<open>endpoints/policy.py\<close>).
  \<^item> \<open>Regex\<close>, \<open>Guardrails\<close>: the part of \<open>re\<close> the guardrails use, with its search characterised by the spans of
    a pattern, and the guardrails themselves (\<open>guardrails/\<close>).
  \<^item> \<open>SemanticCache\<close>: similarity, keys, lookup and store (\<open>semantic_cache/\<close>).
  \<^item> \<open>ChatService\<close>, \<open>RequestLog\<close>, \<open>ChatEndpoint\<close>, \<open>Metrics\<close>: the pipeline, the log rows, the endpoint and the
    Prometheus counters (\<open>services/chat_service.py\<close>, \<open>observability/log_writer.py\<close>, \<open>endpoints/chat.py\<close>,
    \<open>observability/metrics.py\<close>). A failed request costs nothing, a served one is charged its actual cost;
    log rows agree with the response, the budget and the counters.
  \<^item> \<open>Auth\<close>, \<open>Accounts\<close>: organizations, teams and API keys, authentication, and the tenancy endpoints
    (\<open>auth/\<close>, \<open>endpoints/bootstrap.py\<close>, \<open>organizations.py\<close>, \<open>teams.py\<close>, \<open>api_keys.py\<close>, \<open>auth_me.py\<close>), over every
    sequence of requests: a created key authenticates as created, a revoked one never again, and no
    caller sees or changes another organization.
  \<^item> \<open>Analytics\<close>: the queries over the log (\<open>observability/analytics_service.py\<close>, \<open>endpoints/analytics.py\<close>).
  \<^item> \<open>Providers\<close>: the OpenAI, Groq, Gemini and Ollama adapters (\<open>providers/\<close>) and the contract they share.
  \<^item> \<open>Migrations\<close>: the Alembic revisions, their effect on the schema, and the ORM classes
    (\<open>alembic/\<close>, the \<open>models.py\<close> files). Every migration is reversible, the revision determines the schema
    over every sequence of upgrades and downgrades, and the head schema is what the classes declare.
  \<^item> \<open>Startup\<close>, \<open>Wiring\<close>, \<open>App\<close>, \<open>Server\<close>, \<open>Tracing\<close>: settings, provider registration, catalog load and refresh,
    embedding client and cache (\<open>main.py\<close>, \<open>config/settings.py\<close>, \<open>semantic_cache/embedding.py\<close>); the services
    built from the settings, and what a fresh default installation does; the middleware around the
    routes, health and provider listings (\<open>middleware/\<close>, \<open>endpoints/health.py\<close>, \<open>endpoints/providers.py\<close>);
    sessions, clients and \<open>lifespan\<close> (\<open>database/session.py\<close>, \<open>utils/redis_client.py\<close>), and every route the
    endpoint files declare with what it demands of its caller (\<open>create_application\<close>): no route shadows
    another, and of the requests other than GET only bootstrap and chat need no administrator;
    tracer, trace identifiers and spans (\<open>observability/tracing.py\<close>).
  \<^item> \<open>Gateway\<close>, \<open>Dispatch\<close>, \<open>Accounting\<close>: the components put together. \<open>Gateway.installation\<close> holds every table of the
    database and the state of the process, \<open>handle\<close> serves one request of any kind as its endpoint does
    (every endpoint that changes something is a constructor of \<open>api_call\<close>) and stamps the key it came with.
    Over every sequence of requests the database stays consistent, and what an organization's
    administrators can read of it changes only by requests made with its own keys. \<open>Dispatch\<close> shows that the
    routes of the application lead each request to its handler. \<open>Accounting\<close> shows that the request log
    accounts for what each team's budget was charged, and that it never holds the row of a failed request
    where the framework drops the background tasks of a handler that raised.
  \<^item> \<open>Deployment\<close>: all groups of \<open>Settings\<close> with their defaults, what each component gets of them, and
    the fresh installation every run of the gateway begins in: it is well-formed, the first bootstrap owns
    it, and a revoked key is locked out for good.
  \<^item> \<open>Responses\<close>: what the budget and policy endpoints answer with (\<open>budget/schemas.py\<close>), and what it tells.

  \<^bold>\<open>Loops and bounds.\<close> The retry loop recurses on the list of its remaining attempts, the failover loop on
  the number of failovers left, both structural, so the execution is total without fuel and its number of
  provider calls is bounded by a theorem. Sequences of requests are folded over their
  list. The background refresh is a function of the list of what its rounds read. The evaluations in \<open>Migrations\<close> are of closed terms, in parts.

  \<^bold>\<open>Parameters.\<close> Redis (its commands, with documented laws where a theorem needs them), HMAC and SHA-256,
  the provider SDKs and HTTP clients (what they answer), percentiles, date truncation and collation of the
  database, the ORM's identity map, OpenTelemetry. PostgreSQL's data definition statements and Starlette's
  order of middleware and handlers and its matching of paths are modelled as documented.

  \<^bold>\<open>Not modelled.\<close> Floating-point rounding; characters beyond ASCII; the answers of the CORS
  middleware, whose origins are; requests that overlap on more than a budget, the breakers and the
  statistics (\<open>Gateway.handle\<close> serves one request after the other); the configuration of the logging
  library; the text exposition of the metrics; reading settings from the environment; the details attached to exceptions, which never
  reach a client; the offline mode of Alembic; the frontend, the deployment files, the load tests and the
  test suite, which are not part of the gateway.
\<close>

end
